theory Spec2Isabelle
  imports Complex_Main
begin

section \<open>JavaScript values and objects\<close>

text \<open>
  The values that style records, hover deltas and model options of
  \<^verbatim>\<open>src/util/graphic.js\<close> hold. A number is the real that a finite double denotes
  (\<^verbatim>\<open>NaN\<close> and the infinities are not values of this model); arrays and functions
  are not values of this model. An object is a list of
  its own properties in insertion order.
\<close>

datatype jsval =
    Undefined
  | Null
  | JBool bool
  | Num real
  | Str string
  | Obj "(string \<times> jsval) list"

type_synonym jsobj = "(string \<times> jsval) list"

text \<open>\<^verbatim>\<open>o[k]\<close>: a missing property reads as \<^verbatim>\<open>undefined\<close>.\<close>

definition getProp :: "jsobj \<Rightarrow> string \<Rightarrow> jsval" where
  "getProp ob k = (case map_of ob k of None \<Rightarrow> Undefined | Some v \<Rightarrow> v)"

text \<open>\<^verbatim>\<open>o[k] = v\<close>: an existing property keeps its place, a new one is appended.\<close>

fun setProp :: "string \<Rightarrow> jsval \<Rightarrow> jsobj \<Rightarrow> jsobj" where
  "setProp k v [] = [(k, v)]"
| "setProp k v ((k', v') # ob) = (if k' = k then (k, v) # ob else (k', v') # setProp k v ob)"

text \<open>The names a \<^verbatim>\<open>for (name in o)\<close> loop visits.\<close>

definition ownKeys :: "jsobj \<Rightarrow> string list" where
  "ownKeys ob = remdups (map fst ob)"

text \<open>\<^verbatim>\<open>v == null\<close>.\<close>

fun isNullish :: "jsval \<Rightarrow> bool" where
  "isNullish Undefined = True"
| "isNullish Null = True"
| "isNullish _ = False"

text \<open>The truth value of \<^verbatim>\<open>v\<close> in a condition, \<^verbatim>\<open>||\<close> and \<^verbatim>\<open>&&\<close>.\<close>

fun truthy :: "jsval \<Rightarrow> bool" where
  "truthy Undefined = False"
| "truthy Null = False"
| "truthy (JBool b) = b"
| "truthy (Num r) = (r \<noteq> 0)"
| "truthy (Str s) = (s \<noteq> [])"
| "truthy (Obj ob) = True"

definition jsOr :: "jsval \<Rightarrow> jsval \<Rightarrow> jsval" where
  "jsOr a b = (if truthy a then a else b)"

text \<open>\<^verbatim>\<open>v[k]\<close> on any value: only objects have the properties read here.\<close>

fun index :: "jsval \<Rightarrow> string \<Rightarrow> jsval" where
  "index (Obj ob) k = getProp ob k"
| "index _ k = Undefined"

text \<open>\<^verbatim>\<open>zrUtil.retrieve2(value0, value1)\<close>.\<close>

definition retrieve2 :: "jsval \<Rightarrow> jsval \<Rightarrow> jsval" where
  "retrieve2 value0 value1 = (if \<not> isNullish value0 then value0 else value1)"

section \<open>Double arithmetic\<close>

text \<open>
  The numbers of the code are IEEE 754 doubles, and \<^verbatim>\<open>el.z2 += 1\<close>,
  \<^verbatim>\<open>el.z2 -= 1\<close> round their results: to the nearest double, a tie to the one with an
  even significand. \<^verbatim>\<open>roundDouble\<close> rounds a real to 53 significant bits, with the
  fixed spacing of the subnormal range below \<^verbatim>\<open>2^-1022\<close>. A sum of a finite double
  and 1 never exceeds the largest double, so overflow does not arise in what is modelled.
\<close>

definition roundHalfEven :: "real \<Rightarrow> int" where
  "roundHalfEven y =
     (let f = \<lfloor>y\<rfloor> in
      if y - of_int f < 1 / 2 then f
      else if 1 / 2 < y - of_int f then f + 1
      else if even f then f else f + 1)"

definition roundDouble :: "real \<Rightarrow> real" where
  "roundDouble x =
     (if x = 0 then 0
      else (let e = max \<lfloor>log 2 \<bar>x\<bar>\<rfloor> (- 1022);
                ulp = 2 powr of_int (e - 52)
            in ulp * of_int (roundHalfEven (x / ulp))))"

text \<open>\<^verbatim>\<open>x + y\<close> and \<^verbatim>\<open>x - y\<close> on doubles.\<close>

definition doubleAdd :: "real \<Rightarrow> real \<Rightarrow> real" where
  "doubleAdd x y = roundDouble (x + y)"

definition doubleSub :: "real \<Rightarrow> real \<Rightarrow> real" where
  "doubleSub x y = roundDouble (x - y)"

section \<open>Elements and the store of hover deltas\<close>

text \<open>
  A hover delta is an object shared between the caller of \<^verbatim>\<open>setHoverStyle\<close>, the
  element's \<^verbatim>\<open>hoverStyle\<close> and \<^verbatim>\<open>__hoverStl\<close> fields, and every child of a
  group configured with it. It lives in a store, and the fields hold its address.
  \<^verbatim>\<open>fresh\<close> is the next unused address.
\<close>

record store =
  objs :: "nat \<Rightarrow> jsobj"
  fresh :: nat

datatype handler = OnElementMouseOver | OnElementMouseOut | EnterEmphasis | LeaveEmphasis
  | OtherHandler nat

text \<open>
  The fields of an element that the hover code reads and writes. \<^verbatim>\<open>zr\<close> says whether
  \<^verbatim>\<open>el.__zr\<close> is set; \<^verbatim>\<open>zrHover\<close> is the overlay that the renderer holds for the
  element (the address it was given), \<^verbatim>\<open>dirtyFlag\<close> records a call of
  \<^verbatim>\<open>el.dirty\<close>, \<^verbatim>\<open>handlers\<close> are the subscriptions in order. \<^verbatim>\<open>z2\<close> is the double
  that \<^verbatim>\<open>el.z2\<close> holds.
\<close>

record elprops =
  etype :: string
  style :: jsobj
  z2 :: real
  hoverStyle :: "nat option"
  useHoverLayer :: bool
  zr :: bool
  zrHover :: "nat option option"
  dirtyFlag :: bool
  hoverStl :: "nat option"
  hoverStlDirty :: bool
  normalStl :: "jsobj option"
  isHover :: bool
  isEmphasis :: bool
  hoverSilentOnTouch :: bool
  handlers :: "(string \<times> handler) list"

datatype element = Element (props: elprops) (children: "element list")

record event =
  zrByTouch :: bool

record hover_opt =
  opt_hoverSilentOnTouch :: bool

subsection \<open>The renderer's interface\<close>

text \<open>
  Modelled from the spec: \<^verbatim>\<open>Style.extendFrom\<close> of the renderer is not in the
  repository. "merge = only keys with non-null value in the delta are overwritten".
\<close>

definition extendFrom :: "jsobj \<Rightarrow> jsobj \<Rightarrow> jsobj" where
  "extendFrom target other =
     fold (\<lambda>name t. if \<not> isNullish (getProp other name) then setProp name (getProp other name) t else t)
       (ownKeys other) target"

text \<open>
  Modelled from the spec: \<^verbatim>\<open>el.setStyle\<close> of the renderer is not in the repository.
  "set the live style back to the captured normal snapshot (plain replace, not merge, so
  that previously-removed keys are not left stuck at hover values)": every key of the
  snapshot is written, whatever its value, and the element is marked for repaint.
\<close>

definition setStyle :: "jsobj \<Rightarrow> elprops \<Rightarrow> elprops" where
  "setStyle stl el =
     el\<lparr>style := fold (\<lambda>name t. setProp name (getProp stl name) t) (ownKeys stl) (style el),
        dirtyFlag := True\<rparr>"

text \<open>Modelled from the spec: \<^verbatim>\<open>el.dirty(false)\<close>, the "dirty-marking call".\<close>

definition dirty :: "elprops \<Rightarrow> elprops" where
  "dirty el = el\<lparr>dirtyFlag := True\<rparr>"

text \<open>
  Modelled from the spec: the overlay-hover delegation interface,
  \<^verbatim>\<open>addOverlay(element, styleDelta)\<close> and \<^verbatim>\<open>removeOverlay(element)\<close>.
\<close>

definition addHover :: "nat option \<Rightarrow> elprops \<Rightarrow> elprops" where
  "addHover stl el = el\<lparr>zrHover := Some stl\<rparr>"

definition removeHover :: "elprops \<Rightarrow> elprops" where
  "removeHover el = el\<lparr>zrHover := None\<rparr>"

text \<open>
  Modelled from the spec: \<^verbatim>\<open>el.on(event, handler)\<close>, "an event-subscription
  operation ... with duplicate-subscription suppression".
\<close>

definition on :: "string \<Rightarrow> handler \<Rightarrow> elprops \<Rightarrow> elprops" where
  "on ev h el = (if (ev, h) \<in> set (handlers el) then el
                 else el\<lparr>handlers := handlers el @ [(ev, h)]\<rparr>)"

text \<open>
  Modelled from the spec: \<^verbatim>\<open>group.traverse(cb)\<close>, the "subtree-traversal
  operation": the callback runs on every child, and the walk goes on below the children
  that are groups. The callbacks of this file touch the child's own fields only.
  \<^verbatim>\<open>None\<close> is an exception thrown by the callback.
\<close>

fun traverse :: "(store \<Rightarrow> elprops \<Rightarrow> (store \<times> elprops) option) \<Rightarrow> store \<Rightarrow> element list
    \<Rightarrow> (store \<times> element list) option" where
  "traverse cb s [] = Some (s, [])"
| "traverse cb s (Element p cs # rest) =
     (case cb s p of None \<Rightarrow> None
      | Some (s1, p1) \<Rightarrow>
        (case (if etype p1 = ''group'' then traverse cb s1 cs else Some (s1, cs)) of None \<Rightarrow> None
         | Some (s2, cs2) \<Rightarrow>
           (case traverse cb s2 rest of None \<Rightarrow> None
            | Some (s3, rest3) \<Rightarrow> Some (s3, Element p1 cs2 # rest3))))"

section \<open>The snapshot cache\<close>

text \<open>
  \<^verbatim>\<open>fillOrStroke != null && fillOrStroke != 'none'\<close>. Of the values of this model
  only the string \<^verbatim>\<open>'none'\<close> is loosely equal to \<^verbatim>\<open>'none'\<close>.
\<close>

definition hasFillOrStroke :: "jsval \<Rightarrow> bool" where
  "hasFillOrStroke fillOrStroke = (\<not> isNullish fillOrStroke \<and> fillOrStroke \<noteq> Str ''none'')"

text \<open>
  \<^verbatim>\<open>lift\<close> stands for \<^verbatim>\<open>colorTool.lift(color, level)\<close> of the renderer's
  colour tool, a parameter of everything below; \<^verbatim>\<open>liftColor\<close> calls it with the level
  \<^verbatim>\<open>-0.1\<close>. What colour it returns is not part of this file.
\<close>

definition liftColor :: "(string \<Rightarrow> real \<Rightarrow> jsval) \<Rightarrow> jsval \<Rightarrow> jsval" where
  "liftColor lift color = (case color of Str c \<Rightarrow> lift c (- (1 / 10)) | _ \<Rightarrow> color)"

text \<open>
  \<^verbatim>\<open>cacheElementStl\<close>. Reading \<^verbatim>\<open>hoverStyle.fill\<close> when \<^verbatim>\<open>el.__hoverStl\<close> is
  undefined throws a TypeError, the result \<^verbatim>\<open>None\<close>.
\<close>

definition cacheElementStl :: "(string \<Rightarrow> real \<Rightarrow> jsval) \<Rightarrow> store \<Rightarrow> elprops \<Rightarrow> (store \<times> elprops) option" where
  "cacheElementStl lift s el =
     (if hoverStlDirty el then
        (case hoverStl el of None \<Rightarrow> None
         | Some a \<Rightarrow>
           let stroke = getProp (style el) ''stroke'';
               fill = getProp (style el) ''fill'';
               hoverStyle0 = objs s a;
               hoverStyle1 = setProp ''fill''
                 (jsOr (getProp hoverStyle0 ''fill'')
                       (if hasFillOrStroke fill then liftColor lift fill else Null)) hoverStyle0;
               hoverStyle2 = setProp ''stroke''
                 (jsOr (getProp hoverStyle1 ''stroke'')
                       (if hasFillOrStroke stroke then liftColor lift stroke else Null)) hoverStyle1;
               normalStyle = fold
                 (\<lambda>name n. if \<not> isNullish (getProp hoverStyle2 name)
                            then setProp name (getProp (style el) name) n else n)
                 (ownKeys hoverStyle2) []
           in Some (s\<lparr>objs := (objs s)(a := hoverStyle2)\<rparr>,
                    el\<lparr>normalStl := Some normalStyle, hoverStlDirty := False\<rparr>))
      else Some (s, el))"

section \<open>The hover and emphasis controller\<close>

definition doSingleEnterHover :: "(string \<Rightarrow> real \<Rightarrow> jsval) \<Rightarrow> store \<Rightarrow> elprops \<Rightarrow> (store \<times> elprops) option" where
  "doSingleEnterHover lift s el =
     (if isHover el then Some (s, el)
      else
        (case cacheElementStl lift s el of None \<Rightarrow> None
         | Some (s1, el1) \<Rightarrow>
           let el2 =
             (if useHoverLayer el1 then (if zr el1 then addHover (hoverStl el1) el1 else el1)
              else
                (let hoverStyle = (case hoverStl el1 of None \<Rightarrow> [] | Some a \<Rightarrow> objs s1 a);
                     el3 = dirty (el1\<lparr>style := extendFrom (style el1) hoverStyle\<rparr>)
                 in el3\<lparr>z2 := doubleAdd (z2 el3) 1\<rparr>))
           in Some (s1, el2\<lparr>isHover := True\<rparr>)))"

definition doSingleLeaveHover :: "elprops \<Rightarrow> elprops" where
  "doSingleLeaveHover el =
     (if \<not> isHover el then el
      else
        let el1 =
          (if useHoverLayer el then (if zr el then removeHover el else el)
           else
             (let el2 = (case normalStl el of None \<Rightarrow> el | Some stl \<Rightarrow> setStyle stl el)
              in el2\<lparr>z2 := doubleSub (z2 el2) 1\<rparr>))
        in el1\<lparr>isHover := False\<rparr>)"

fun doEnterHover :: "(string \<Rightarrow> real \<Rightarrow> jsval) \<Rightarrow> store \<Rightarrow> element \<Rightarrow> (store \<times> element) option" where
  "doEnterHover lift s (Element p cs) =
     (if etype p = ''group'' then
        (case traverse (\<lambda>s' child. if etype child \<noteq> ''group'' then doSingleEnterHover lift s' child
                                    else Some (s', child)) s cs of
           None \<Rightarrow> None
         | Some (s1, cs1) \<Rightarrow> Some (s1, Element p cs1))
      else
        (case doSingleEnterHover lift s p of None \<Rightarrow> None
         | Some (s1, p1) \<Rightarrow> Some (s1, Element p1 cs)))"

fun doLeaveHover :: "store \<Rightarrow> element \<Rightarrow> (store \<times> element) option" where
  "doLeaveHover s (Element p cs) =
     (if etype p = ''group'' then
        (case traverse (\<lambda>s' child. if etype child \<noteq> ''group'' then Some (s', doSingleLeaveHover child)
                                    else Some (s', child)) s cs of
           None \<Rightarrow> None
         | Some (s1, cs1) \<Rightarrow> Some (s1, Element p cs1))
      else Some (s, Element (doSingleLeaveHover p) cs))"

text \<open>
  \<^verbatim>\<open>setElementHoverStl\<close>: \<^verbatim>\<open>hoverStl\<close> is the address of the caller's delta, if one
  was passed; \<^verbatim>\<open>{}\<close> allocates a new object.
\<close>

definition setElementHoverStl :: "(string \<Rightarrow> real \<Rightarrow> jsval) \<Rightarrow> nat option \<Rightarrow> store \<Rightarrow> elprops
    \<Rightarrow> (store \<times> elprops) option" where
  "setElementHoverStl lift hoverStl' s el =
     (let (s1, a) =
            (case hoverStyle el of Some a \<Rightarrow> (s, a)
             | None \<Rightarrow>
               (case hoverStl' of Some a \<Rightarrow> (s, a)
                | None \<Rightarrow> (s\<lparr>objs := (objs s)(fresh s := []), fresh := Suc (fresh s)\<rparr>, fresh s)));
          el1 = el\<lparr>hoverStl := Some a, hoverStlDirty := True\<rparr>
      in if isHover el1 then cacheElementStl lift s1 el1 else Some (s1, el1))"

definition onElementMouseOver :: "(string \<Rightarrow> real \<Rightarrow> jsval) \<Rightarrow> event \<Rightarrow> store \<Rightarrow> element
    \<Rightarrow> (store \<times> element) option" where
  "onElementMouseOver lift e s this =
     (if hoverSilentOnTouch (props this) \<and> zrByTouch e then Some (s, this)
      else if \<not> isEmphasis (props this) then doEnterHover lift s this
      else Some (s, this))"

definition onElementMouseOut :: "event \<Rightarrow> store \<Rightarrow> element \<Rightarrow> (store \<times> element) option" where
  "onElementMouseOut e s this =
     (if hoverSilentOnTouch (props this) \<and> zrByTouch e then Some (s, this)
      else if \<not> isEmphasis (props this) then doLeaveHover s this
      else Some (s, this))"

fun enterEmphasis :: "(string \<Rightarrow> real \<Rightarrow> jsval) \<Rightarrow> store \<Rightarrow> element \<Rightarrow> (store \<times> element) option" where
  "enterEmphasis lift s (Element p cs) = doEnterHover lift s (Element (p\<lparr>isEmphasis := True\<rparr>) cs)"

fun leaveEmphasis :: "store \<Rightarrow> element \<Rightarrow> (store \<times> element) option" where
  "leaveEmphasis s (Element p cs) = doLeaveHover s (Element (p\<lparr>isEmphasis := False\<rparr>) cs)"

text \<open>
  \<^verbatim>\<open>graphic.setHoverStyle\<close>. \<^verbatim>\<open>opt && opt.hoverSilentOnTouch\<close> is kept as its truth
  value, the only use the handlers make of it.
\<close>

fun setHoverStyle :: "(string \<Rightarrow> real \<Rightarrow> jsval) \<Rightarrow> nat option \<Rightarrow> hover_opt option \<Rightarrow> store \<Rightarrow> element
    \<Rightarrow> (store \<times> element) option" where
  "setHoverStyle lift hoverStyle' opt s (Element p cs) =
     (let p0 = p\<lparr>hoverSilentOnTouch :=
                   (case opt of None \<Rightarrow> False | Some ob \<Rightarrow> opt_hoverSilentOnTouch ob)\<rparr>;
          subscribe = (\<lambda>q. on ''normal'' LeaveEmphasis (on ''emphasis'' EnterEmphasis
                        (on ''mouseout'' OnElementMouseOut (on ''mouseover'' OnElementMouseOver q))))
      in if etype p0 = ''group'' then
           (case traverse (\<lambda>s' child. if etype child \<noteq> ''group''
                                       then setElementHoverStl lift hoverStyle' s' child
                                       else Some (s', child)) s cs of
              None \<Rightarrow> None
            | Some (s1, cs1) \<Rightarrow> Some (s1, Element (subscribe p0) cs1))
         else
           (case setElementHoverStl lift hoverStyle' s p0 of None \<Rightarrow> None
            | Some (s1, p1) \<Rightarrow> Some (s1, Element (subscribe p1) cs)))"

section \<open>Compositions and concrete elements\<close>

text \<open>\<^verbatim>\<open>doSingleEnterHover(el); doSingleLeaveHover(el)\<close>.\<close>

definition enterThenLeave :: "(string \<Rightarrow> real \<Rightarrow> jsval) \<Rightarrow> store \<Rightarrow> elprops \<Rightarrow> (store \<times> elprops) option" where
  "enterThenLeave lift s el =
     map_option (\<lambda>(s1, el1). (s1, doSingleLeaveHover el1)) (doSingleEnterHover lift s el)"

text \<open>A sample colour lift, used where a statement is evaluated on concrete input.\<close>

definition liftSample :: "string \<Rightarrow> real \<Rightarrow> jsval" where
  "liftSample c level = Str (''lifted '' @ c)"

text \<open>
  A rectangle with live style \<^verbatim>\<open>{fill: '#336699', stroke: 'none'}\<close> that was never
  configured, and a store whose address 0 holds the caller's empty delta \<^verbatim>\<open>{}\<close>.
\<close>

definition rect0 :: elprops where
  "rect0 = \<lparr>etype = ''rect'', style = [(''fill'', Str ''#336699''), (''stroke'', Str ''none'')],
     z2 = 0, hoverStyle = None, useHoverLayer = False, zr = False, zrHover = None,
     dirtyFlag = False, hoverStl = None, hoverStlDirty = False, normalStl = None,
     isHover = False, isEmphasis = False, hoverSilentOnTouch = False, handlers = []\<rparr>"

definition store0 :: store where
  "store0 = \<lparr>objs = (\<lambda>a. []), fresh = 1\<rparr>"

text \<open>The rectangle right after \<^verbatim>\<open>setElementHoverStl(el, {})\<close>: the delta is pending.\<close>

definition pendingRect :: elprops where
  "pendingRect = rect0\<lparr>hoverStl := Some 0, hoverStlDirty := True\<rparr>"

text \<open>
  A store whose address 0 holds the delta \<^verbatim>\<open>{fill: 'red', stroke: null}\<close>, as
  \<^verbatim>\<open>cacheElementStl\<close> leaves the delta \<^verbatim>\<open>{fill: 'red'}\<close> on a rectangle without
  a paintable stroke.
\<close>

definition storeRed :: store where
  "storeRed = \<lparr>objs = (\<lambda>a. if a = 0 then [(''fill'', Str ''red''), (''stroke'', Null)] else []),
     fresh = 1\<rparr>"

text \<open>
  The rectangle in hover presentation under that delta: the snapshot holds the fill it had
  before, the live fill is the delta's.
\<close>

definition hoveringRect :: elprops where
  "hoveringRect = rect0\<lparr>style := [(''fill'', Str ''red''), (''stroke'', Str ''none'')], z2 := 1,
     dirtyFlag := True, hoverStl := Some 0, normalStl := Some [(''fill'', Str ''#336699'')],
     isHover := True\<rparr>"

text \<open>
  The rectangle after it has left hover presentation and its fill was then set to
  \<^verbatim>\<open>'green'\<close> without a new call of \<^verbatim>\<open>setHoverStyle\<close>: the snapshot still holds
  the older fill and the dirty flag is off.
\<close>

definition staleRect :: elprops where
  "staleRect = rect0\<lparr>style := [(''fill'', Str ''green''), (''stroke'', Str ''none'')],
     dirtyFlag := True, hoverStl := Some 0, normalStl := Some [(''fill'', Str ''#336699'')]\<rparr>"

text \<open>The rectangle with the pending empty delta at the z-order \<^verbatim>\<open>2^53\<close>.\<close>

definition highRect :: elprops where
  "highRect = pendingRect\<lparr>z2 := 2 ^ 53\<rparr>"

definition touchEvent :: event where
  "touchEvent = \<lparr>zrByTouch = True\<rparr>"

text \<open>
  The non-container descendants that \<^verbatim>\<open>traverse\<close> hands to the callbacks of this
  file, and all descendants.
\<close>

fun leafProps :: "element list \<Rightarrow> elprops list" where
  "leafProps [] = []"
| "leafProps (Element p cs # rest) = (if etype p = ''group'' then leafProps cs else [p]) @ leafProps rest"

fun allProps :: "element list \<Rightarrow> elprops list" where
  "allProps [] = []"
| "allProps (Element p cs # rest) = p # allProps cs @ allProps rest"

text \<open>The four subscriptions of \<^verbatim>\<open>setHoverStyle\<close>.\<close>

definition subscribe :: "elprops \<Rightarrow> elprops" where
  "subscribe q = on ''normal'' LeaveEmphasis (on ''emphasis'' EnterEmphasis
                   (on ''mouseout'' OnElementMouseOut (on ''mouseover'' OnElementMouseOver q)))"

text \<open>\<^verbatim>\<open>setHoverStyle(el, hoverStyle, opt)\<close> called \<^verbatim>\<open>n\<close> times in a row.\<close>

fun setHoverStyleTimes :: "nat \<Rightarrow> (string \<Rightarrow> real \<Rightarrow> jsval) \<Rightarrow> nat option \<Rightarrow> hover_opt option \<Rightarrow> store
    \<Rightarrow> element \<Rightarrow> (store \<times> element) option" where
  "setHoverStyleTimes 0 lift hoverStyle' opt s el = Some (s, el)"
| "setHoverStyleTimes (Suc n) lift hoverStyle' opt s el =
     (case setHoverStyle lift hoverStyle' opt s el of None \<Rightarrow> None
      | Some (s1, el1) \<Rightarrow> setHoverStyleTimes n lift hoverStyle' opt s1 el1)"

text \<open>A group with the unconfigured rectangle as its only child.\<close>

definition group0 :: element where
  "group0 = Element (rect0\<lparr>etype := ''group''\<rparr>) [Element rect0 []]"

text \<open>
  A rectangle without paint, live style \<^verbatim>\<open>{fill: 'none', stroke: 'none'}\<close>, and a
  group of the painted rectangle and this one.
\<close>

definition noneRect :: elprops where
  "noneRect = rect0\<lparr>style := [(''fill'', Str ''none''), (''stroke'', Str ''none'')]\<rparr>"

definition group2 :: element where
  "group2 = Element (rect0\<lparr>etype := ''group''\<rparr>) [Element rect0 [], Element noneRect []]"

text \<open>
  \<^verbatim>\<open>setHoverStyle(el, {})\<close> with the caller's delta at address 0 and no options, then
  the emphasis trigger; the live fills of the non-container elements and the delta
  afterwards.
\<close>

definition configureThenEmphasis :: "store \<Rightarrow> element \<Rightarrow> (jsval list \<times> jsobj) option" where
  "configureThenEmphasis s el =
     map_option (\<lambda>(s2, el2). (map (\<lambda>q. getProp (style q) ''fill'') (leafProps [el2]), objs s2 0))
       (Option.bind (setHoverStyle liftSample (Some 0) None s el)
          (\<lambda>(s1, el1). enterEmphasis liftSample s1 el1))"

section \<open>Style models\<close>

text \<open>
  A node of the configuration tree: its identity, its raw option, its parent and the global
  model it belongs to. The code compares a node with its global model by identity, so a
  node of the tree carries a number, and the global model is known by its number and its
  option. A node with no number is one made during a call (\<^verbatim>\<open>new Model\<close>): it is no
  other object.
\<close>

record ecmodel =
  ecIdent :: nat
  ecOption :: jsval

datatype model =
  Model (ident: "nat option") (option: jsval) (parentModel: "model option") (ecModel: "ecmodel option")

text \<open>\<^verbatim>\<open>textStyleModel === textStyleModel.ecModel\<close>.\<close>

definition isOwnEcModel :: "model \<Rightarrow> bool" where
  "isOwnEcModel m = (case ecModel m of None \<Rightarrow> False
                     | Some ec \<Rightarrow> ident m = Some (ecIdent ec))"

text \<open>
  Modelled from the spec: \<^verbatim>\<open>Model.getShallow\<close> is in \<^verbatim>\<open>model/Model.js\<close>, which is
  not under \<^verbatim>\<open>src/\<close>. The style model is "a tree of configuration nodes, each exposing
  direct ("shallow") property lookup and a parent-chain walk up to a root": the node's own
  value, and where that is null or undefined the parent's answer.
\<close>

fun getShallow :: "model \<Rightarrow> string \<Rightarrow> jsval" where
  "getShallow (Model i opt par ec) key =
     (let val = (if isNullish opt then opt else index opt key)
      in if isNullish val then (case par of None \<Rightarrow> val | Some p \<Rightarrow> getShallow p key)
         else val)"

text \<open>
  Modelled from the spec: \<^verbatim>\<open>Model.getModel(path)\<close> is in \<^verbatim>\<open>model/Model.js\<close>. It
  "resolves a fresh model sub-node path \<^verbatim>\<open>rich.<name>\<close> against the original starting
  node (letting normal per-property cascade re-resolve the value along the chain)": the new
  node holds the option found along the path, its parent is the parent's node for the same
  path, and it belongs to the same global model.
\<close>

fun doGet :: "jsval \<Rightarrow> string list \<Rightarrow> jsval" where
  "doGet obj [] = obj"
| "doGet obj (k # ks) = (let v = index obj k in if isNullish v then v else doGet v ks)"

fun getModel :: "model \<Rightarrow> string list \<Rightarrow> model" where
  "getModel (Model i opt par ec) path =
     Model None (doGet opt path)
       (case par of None \<Rightarrow> None | Some p \<Rightarrow> Some (getModel p path)) ec"

section \<open>Resolution of text styles\<close>

text \<open>
  \<^verbatim>\<open>opt.checkInside\<close>: \<^verbatim>\<open>false\<close>, a function, or anything else falsy (unset). The
  function returns a value that is used as a condition.
\<close>

datatype check_inside = CheckUnset | CheckFalse | CheckFun "model \<Rightarrow> jsval \<Rightarrow> jsval"

text \<open>
  The label formatter, \<^verbatim>\<open>getFormattedLabel(dataIndex, state, null, dimIndex)\<close>, and the
  calls made to the outside that are recorded: to the formatter, and \<^verbatim>\<open>host.dirty\<close>.
\<close>

record fetcher =
  getFormattedLabel :: "jsval \<Rightarrow> string \<Rightarrow> jsval \<Rightarrow> jsval \<Rightarrow> jsval"

datatype call = CallGetFormattedLabel jsval string jsval jsval | CallHostDirty

text \<open>
  The options record of \<^verbatim>\<open>setTextStyleCommon\<close> and \<^verbatim>\<open>setLabelStyle\<close>. The flags
  \<^verbatim>\<open>disableBox\<close>, \<^verbatim>\<open>isRectText\<close> and \<^verbatim>\<open>forceRich\<close> are kept as truth values.
  \<^verbatim>\<open>EMPTY_OBJ\<close> is the record with nothing set.
\<close>

record text_opt =
  disableBox :: bool
  isRectText :: bool
  autoColor :: jsval
  checkInside :: check_inside
  forceRich :: bool
  opt_textStyle :: jsval
  defaultText :: jsval
  labelFetcher :: "fetcher option"
  labelDataIndex :: jsval
  labelDimIndex :: jsval

definition EMPTY_OBJ :: text_opt where
  "EMPTY_OBJ = \<lparr>disableBox = False, isRectText = False, autoColor = Undefined,
     checkInside = CheckUnset, forceRich = False, opt_textStyle = Undefined,
     defaultText = Undefined, labelFetcher = None, labelDataIndex = Undefined,
     labelDimIndex = Undefined\<rparr>"

text \<open>\<^verbatim>\<open>s.indexOf(sub) >= 0\<close> on strings.\<close>

fun indexOfGe0 :: "string \<Rightarrow> string \<Rightarrow> bool" where
  "indexOfGe0 [] sub = (sub = [])"
| "indexOfGe0 (c # cs) sub = (take (length sub) (c # cs) = sub \<or> indexOfGe0 cs sub)"

text \<open>
  \<^verbatim>\<open>defaultCheckInside\<close>: a falsy position is returned as it is; a string is searched;
  any other truthy value of this model has no \<^verbatim>\<open>indexOf\<close>, a TypeError
  (\<^verbatim>\<open>None\<close>).
\<close>

definition defaultCheckInside :: "model \<Rightarrow> jsval \<Rightarrow> jsval option" where
  "defaultCheckInside labelModel textPosition =
     (if \<not> truthy textPosition then Some textPosition
      else (case textPosition of Str s \<Rightarrow> Some (JBool (indexOfGe0 s ''inside'')) | _ \<Rightarrow> None))"

definition getAutoColor :: "jsval \<Rightarrow> text_opt \<Rightarrow> jsval" where
  "getAutoColor color opt =
     (if color \<noteq> Str ''auto'' then color
      else if truthy (autoColor opt) then autoColor opt else Null)"

text \<open>A run of assignments \<^verbatim>\<open>textStyle.k = v\<close>, in order.\<close>

definition assign :: "jsobj \<Rightarrow> (string \<times> jsval) list \<Rightarrow> jsobj" where
  "assign ob kvs = fold (\<lambda>(k, v) t. setProp k v t) kvs ob"

text \<open>
  The branch \<^verbatim>\<open>if (!noDefault) { ... }\<close> of \<^verbatim>\<open>setTokenTextStyle\<close>: fill, stroke and
  line width after the fallbacks. \<^verbatim>\<open>checkInside\<close> is called only when the fill is
  still missing.
\<close>

definition tokenDefaults :: "jsobj \<Rightarrow> model \<Rightarrow> jsval \<Rightarrow> text_opt \<Rightarrow> jsval \<Rightarrow> jsval \<Rightarrow> jsval
    \<Rightarrow> (jsval \<times> jsval \<times> jsval) option" where
  "tokenDefaults textStyle textStyleModel globalTextStyle opt textFill0 textStroke0 textLineWidth0 =
     (let textFill1 = (if isNullish textFill0 then index globalTextStyle ''color'' else textFill0);
          textStroke1 = (if isNullish textStroke0 then index globalTextStyle ''textBorderColor''
                         else textStroke0);
          textLineWidth1 = (if isNullish textLineWidth0 then index globalTextStyle ''textBorderWidth''
                            else textLineWidth0);
          inside =
            (if \<not> isNullish textFill1 then Some False
             else (case checkInside opt of
                     CheckFalse \<Rightarrow> Some False
                   | CheckFun f \<Rightarrow> Some (truthy (f textStyleModel (getProp textStyle ''textPosition'')))
                   | CheckUnset \<Rightarrow>
                       (if isRectText opt
                        then map_option truthy
                               (defaultCheckInside textStyleModel (getProp textStyle ''textPosition''))
                        else Some False)))
      in (case inside of None \<Rightarrow> None
          | Some ins \<Rightarrow>
             (let textFill2 = (if ins then Str ''#fff'' else textFill1);
                  textStroke2 = (if ins \<and> isNullish textStroke1 then autoColor opt else textStroke1);
                  textLineWidth2 = (if ins \<and> isNullish textStroke1 \<and> isNullish textLineWidth1
                                    then Num 2 else textLineWidth1);
                  textFill3 = (if isNullish textFill2 then autoColor opt else textFill2)
              in Some (textFill3, textStroke2, textLineWidth2))))"

text \<open>
  \<^verbatim>\<open>setTokenTextStyle\<close>. \<^verbatim>\<open>None\<close> is the TypeError of \<^verbatim>\<open>defaultCheckInside\<close>.
\<close>

definition setTokenTextStyle :: "jsobj \<Rightarrow> model \<Rightarrow> jsval \<Rightarrow> text_opt \<Rightarrow> bool \<Rightarrow> bool \<Rightarrow> jsobj option" where
  "setTokenTextStyle textStyle textStyleModel globalTextStyle0 opt noDefault isBlock =
     (let globalTextStyle = jsOr (if \<not> noDefault then globalTextStyle0 else JBool False) (Obj []);
          textFill0 = getAutoColor (getShallow textStyleModel ''color'') opt;
          textStroke0 = getAutoColor (getShallow textStyleModel ''textBorderColor'') opt;
          textLineWidth0 = getShallow textStyleModel ''textBorderWidth''
      in (case (if \<not> noDefault
                then tokenDefaults textStyle textStyleModel globalTextStyle opt
                       textFill0 textStroke0 textLineWidth0
                else Some (textFill0, textStroke0, textLineWidth0)) of
            None \<Rightarrow> None
          | Some (textFill, textStroke, textLineWidth) \<Rightarrow>
             (let ts1 = assign textStyle
                    [(''textFill'', textFill),
                     (''textStroke'', textStroke),
                     (''textLineWidth'', textLineWidth),
                     (''fontStyle'', jsOr (getShallow textStyleModel ''fontStyle'')
                                          (index globalTextStyle ''fontStyle'')),
                     (''fontWeight'', jsOr (getShallow textStyleModel ''fontWeight'')
                                           (index globalTextStyle ''fontWeight'')),
                     (''fontSize'', jsOr (getShallow textStyleModel ''fontSize'')
                                         (index globalTextStyle ''fontSize'')),
                     (''fontFamily'', jsOr (getShallow textStyleModel ''fontFamily'')
                                           (index globalTextStyle ''fontFamily'')),
                     (''textAlign'', getShallow textStyleModel ''align''),
                     (''textVerticalAlign'', jsOr (getShallow textStyleModel ''verticalAlign'')
                                                  (getShallow textStyleModel ''baseline'')),
                     (''textLineHeight'', getShallow textStyleModel ''lineHeight''),
                     (''textWidth'', getShallow textStyleModel ''width''),
                     (''textHeight'', getShallow textStyleModel ''height''),
                     (''textTag'', getShallow textStyleModel ''tag'')];
                  ts2 = (if \<not> isBlock \<or> \<not> disableBox opt then
                           assign ts1
                             [(''textBackgroundColor'',
                                 getAutoColor (getShallow textStyleModel ''backgroundColor'') opt),
                              (''textPadding'', getShallow textStyleModel ''padding''),
                              (''textBorderColor'',
                                 getAutoColor (getShallow textStyleModel ''borderColor'') opt),
                              (''textBorderWidth'', getShallow textStyleModel ''borderWidth''),
                              (''textBorderRadius'', getShallow textStyleModel ''borderRadius''),
                              (''textBoxShadowColor'', getShallow textStyleModel ''shadowColor''),
                              (''textBoxShadowBlur'', getShallow textStyleModel ''shadowBlur''),
                              (''textBoxShadowOffsetX'', getShallow textStyleModel ''shadowOffsetX''),
                              (''textBoxShadowOffsetY'', getShallow textStyleModel ''shadowOffsetY'')]
                         else ts1)
              in Some (assign ts2
                    [(''textShadowColor'', jsOr (getShallow textStyleModel ''textShadowColor'')
                                                (index globalTextStyle ''textShadowColor'')),
                     (''textShadowBlur'', jsOr (getShallow textStyleModel ''textShadowBlur'')
                                               (index globalTextStyle ''textShadowBlur'')),
                     (''textShadowOffsetX'', jsOr (getShallow textStyleModel ''textShadowOffsetX'')
                                                  (index globalTextStyle ''textShadowOffsetX'')),
                     (''textShadowOffsetY'', jsOr (getShallow textStyleModel ''textShadowOffsetY'')
                                                  (index globalTextStyle ''textShadowOffsetY''))]))))"

text \<open>The decimal numeral of an index, as the property name \<^verbatim>\<open>String(n)\<close>.\<close>

definition digitChar :: "nat \<Rightarrow> char" where
  "digitChar d = ''0123456789'' ! d"

fun decimal :: "nat \<Rightarrow> string" where
  "decimal n = (if n < 10 then [digitChar n] else decimal (n div 10) @ [digitChar (n mod 10)])"

text \<open>
  The names a \<^verbatim>\<open>for (name in rich)\<close> loop visits with \<^verbatim>\<open>rich.hasOwnProperty(name)\<close>:
  the own properties of an object, the indices \<^verbatim>\<open>'0'\<close>, \<^verbatim>\<open>'1'\<close>, ... of a string,
  and nothing on a number or a boolean.
\<close>

fun forInKeys :: "jsval \<Rightarrow> string list" where
  "forInKeys (Obj ob) = ownKeys ob"
| "forInKeys (Str str) = map decimal [0..<length str]"
| "forInKeys _ = []"

text \<open>\<^verbatim>\<open>(textStyleModel.option || EMPTY_OBJ).rich\<close>.\<close>

definition richOf :: "model \<Rightarrow> jsval" where
  "richOf m = index (jsOr (option m) (Obj [])) ''rich''"

text \<open>
  \<^verbatim>\<open>getRichItemNames\<close>: the loop, with the map of names collected so far (undefined at
  the start), and the function.
\<close>

fun getRichItemNamesLoop :: "model \<Rightarrow> jsobj option \<Rightarrow> jsobj option" where
  "getRichItemNamesLoop (Model i opt par ec) richItemNameMap =
     (if isOwnEcModel (Model i opt par ec) then richItemNameMap
      else
        (let rich = richOf (Model i opt par ec);
             richItemNameMap1 =
               (if truthy rich
                then Some (fold (\<lambda>name m. setProp name (Num 1) m) (forInKeys rich)
                             (case richItemNameMap of None \<Rightarrow> [] | Some m \<Rightarrow> m))
                else richItemNameMap)
         in (case par of None \<Rightarrow> richItemNameMap1
             | Some p \<Rightarrow> getRichItemNamesLoop p richItemNameMap1)))"

definition getRichItemNames :: "model \<Rightarrow> jsobj option" where
  "getRichItemNames textStyleModel = getRichItemNamesLoop textStyleModel None"

text \<open>
  The loop \<^verbatim>\<open>for (var name in richItemNames)\<close> of \<^verbatim>\<open>setTextStyleCommon\<close>: every
  token is resolved into a new object, as a node that is not the block.
\<close>

fun richLoop :: "string list \<Rightarrow> model \<Rightarrow> jsval \<Rightarrow> text_opt \<Rightarrow> bool \<Rightarrow> jsobj \<Rightarrow> jsobj option" where
  "richLoop [] textStyleModel globalTextStyle opt noDefault richResult = Some richResult"
| "richLoop (name # names) textStyleModel globalTextStyle opt noDefault richResult =
     (let richTextStyle = getModel textStyleModel [''rich'', name]
      in (case setTokenTextStyle [] richTextStyle globalTextStyle opt noDefault False of
            None \<Rightarrow> None
          | Some token \<Rightarrow>
              richLoop names textStyleModel globalTextStyle opt noDefault
                (setProp name (Obj token) richResult)))"

text \<open>
  \<^verbatim>\<open>setTextStyleCommon\<close>. \<^verbatim>\<open>degToRad\<close> stands for the product
  \<^verbatim>\<open>labelRotate * Math.PI / 180\<close> as the engine computes it, a parameter. The result is
  the style and the options record, which \<^verbatim>\<open>forceRich\<close> can change. \<^verbatim>\<open>None\<close> is
  a TypeError: of \<^verbatim>\<open>ecModel.option.textStyle\<close> when the global model has no option, or
  of \<^verbatim>\<open>defaultCheckInside\<close>.
\<close>

definition setTextStyleCommon :: "(jsval \<Rightarrow> jsval) \<Rightarrow> jsobj \<Rightarrow> model \<Rightarrow> text_opt option \<Rightarrow> bool
    \<Rightarrow> (jsobj \<times> text_opt option) option" where
  "setTextStyleCommon degToRad textStyle textStyleModel opt0 noDefault =
     (let opt = (case opt0 of None \<Rightarrow> EMPTY_OBJ | Some ob \<Rightarrow> ob);
          ts1 =
            (if isRectText opt then
               (let textPosition0 = jsOr (getShallow textStyleModel ''position'')
                                         (if noDefault then Null else Str ''inside'');
                    textPosition = (if textPosition0 = Str ''outside'' then Str ''top''
                                    else textPosition0);
                    labelRotate0 = getShallow textStyleModel ''rotate'';
                    labelRotate = (if \<not> isNullish labelRotate0 then degToRad labelRotate0
                                   else labelRotate0)
                in assign textStyle
                     [(''textPosition'', textPosition),
                      (''textOffset'', getShallow textStyleModel ''offset''),
                      (''textRotation'', labelRotate),
                      (''textDistance'', retrieve2 (getShallow textStyleModel ''distance'')
                                           (if noDefault then Null else Num 5))])
             else textStyle)
      in (case (case ecModel textStyleModel of None \<Rightarrow> Some Undefined
                | Some ec \<Rightarrow> (if isNullish (ecOption ec) then None
                               else Some (index (ecOption ec) ''textStyle''))) of
            None \<Rightarrow> None
          | Some globalTextStyle \<Rightarrow>
             (case (case getRichItemNames textStyleModel of None \<Rightarrow> Some Undefined
                    | Some richItemNames \<Rightarrow>
                        map_option Obj
                          (richLoop (ownKeys richItemNames) textStyleModel globalTextStyle opt
                             noDefault [])) of
                None \<Rightarrow> None
              | Some richResult \<Rightarrow>
                 (case setTokenTextStyle (setProp ''rich'' richResult ts1) textStyleModel
                         globalTextStyle opt noDefault True of
                    None \<Rightarrow> None
                  | Some ts3 \<Rightarrow>
                      Some (ts3,
                            (if forceRich opt \<and> \<not> truthy (opt_textStyle opt)
                             then Some (opt\<lparr>opt_textStyle := Obj []\<rparr>) else opt0))))))"

text \<open>
  Modelled from the spec: \<^verbatim>\<open>zrUtil.extend(target, source)\<close> of the renderer's
  utilities, the step that does "overlay caller-supplied explicit style objects onto each
  resolved record (caller overrides win over everything computed)".
\<close>

definition extend :: "jsobj \<Rightarrow> jsobj \<Rightarrow> jsobj" where
  "extend target source = fold (\<lambda>key t. setProp key (getProp source key) t) (ownKeys source) target"

text \<open>
  \<^verbatim>\<open>textStyle.host && textStyle.host.dirty && textStyle.host.dirty(false)\<close>: a host with
  the method is an object with a truthy \<^verbatim>\<open>dirty\<close>.
\<close>

definition hostDirty :: "jsobj \<Rightarrow> call list" where
  "hostDirty textStyle =
     (if truthy (getProp textStyle ''host'') \<and> truthy (index (getProp textStyle ''host'') ''dirty'')
      then [CallHostDirty] else [])"

text \<open>\<^verbatim>\<open>graphic.setTextStyle\<close>: the style, the options record and the calls made.\<close>

definition setTextStyle :: "(jsval \<Rightarrow> jsval) \<Rightarrow> jsobj \<Rightarrow> model \<Rightarrow> jsobj option \<Rightarrow> text_opt option \<Rightarrow> bool
    \<Rightarrow> (jsobj \<times> text_opt option \<times> call list) option" where
  "setTextStyle degToRad textStyle textStyleModel specifiedTextStyle opt noDefault =
     (case setTextStyleCommon degToRad textStyle textStyleModel opt noDefault of
        None \<Rightarrow> None
      | Some (ts1, opt1) \<Rightarrow>
         (let ts2 = (case specifiedTextStyle of None \<Rightarrow> ts1 | Some sp \<Rightarrow> extend ts1 sp)
          in Some (ts2, opt1, hostDirty ts2)))"

text \<open>
  The text of one state in \<^verbatim>\<open>setLabelStyle\<close>: the value and the calls made to the
  formatter.
\<close>

definition fetchText :: "model \<Rightarrow> text_opt \<Rightarrow> string \<Rightarrow> jsval \<Rightarrow> jsval \<times> call list" where
  "fetchText stateModel opt state fallback =
     (if truthy (getShallow stateModel ''show'') then
        (case labelFetcher opt of
           Some f \<Rightarrow>
             (retrieve2 (getFormattedLabel f (labelDataIndex opt) state Null (labelDimIndex opt)) fallback,
              [CallGetFormattedLabel (labelDataIndex opt) state Null (labelDimIndex opt)])
         | None \<Rightarrow> (retrieve2 Null fallback, []))
      else (Null, []))"

text \<open>
  \<^verbatim>\<open>graphic.setLabelStyle\<close>: the two styles, the options record and the calls made, in
  order.
\<close>

definition setLabelStyle :: "(jsval \<Rightarrow> jsval) \<Rightarrow> jsobj \<Rightarrow> jsobj \<Rightarrow> model \<Rightarrow> model \<Rightarrow> text_opt option
    \<Rightarrow> jsobj option \<Rightarrow> jsobj option \<Rightarrow> (jsobj \<times> jsobj \<times> text_opt \<times> call list) option" where
  "setLabelStyle degToRad normalStyle emphasisStyle normalModel emphasisModel opt0
       normalSpecified emphasisSpecified =
     (let opt = (case opt0 of None \<Rightarrow> EMPTY_OBJ | Some ob \<Rightarrow> ob);
          (normalStyleText, calls1) = fetchText normalModel opt ''normal'' (defaultText opt);
          (emphasisStyleText, calls2) = fetchText emphasisModel opt ''emphasis'' normalStyleText
      in (if \<not> isNullish normalStyleText \<or> \<not> isNullish emphasisStyleText then
            (case setTextStyle degToRad normalStyle normalModel normalSpecified (Some opt) False of
               None \<Rightarrow> None
             | Some (ns, opt1, calls3) \<Rightarrow>
                (case setTextStyle degToRad emphasisStyle emphasisModel emphasisSpecified opt1 True of
                   None \<Rightarrow> None
                 | Some (es, opt2, calls4) \<Rightarrow>
                     Some (setProp ''text'' normalStyleText ns,
                           setProp ''text'' emphasisStyleText es,
                           (case opt2 of None \<Rightarrow> EMPTY_OBJ | Some ob \<Rightarrow> ob),
                           calls1 @ calls2 @ calls3 @ calls4)))
          else Some (setProp ''text'' normalStyleText normalStyle,
                     setProp ''text'' emphasisStyleText emphasisStyle,
                     opt, calls1 @ calls2)))"

section \<open>Sample models\<close>

text \<open>A sample conversion of degrees, used where a statement is evaluated.\<close>

definition degToRadSample :: "jsval \<Rightarrow> jsval" where
  "degToRadSample v = (case v of Num r \<Rightarrow> Num (r * pi / 180) | _ \<Rightarrow> Undefined)"

text \<open>
  A global model with a theme text style; a series node below it that declares the rich
  token \<^verbatim>\<open>a\<close>; a label node below the series with \<^verbatim>\<open>show: true\<close> and no
  \<^verbatim>\<open>rich\<close> of its own; an emphasis node with \<^verbatim>\<open>show: true\<close> and no colour on its
  chain; a node that declares \<^verbatim>\<open>rich: {}\<close>; a node with \<^verbatim>\<open>show: false\<close>.
\<close>

definition rootEc :: ecmodel where
  "rootEc = \<lparr>ecIdent = 0,
     ecOption = Obj [(''textStyle'', Obj [(''color'', Str ''#000''), (''fontSize'', Num 12)])]\<rparr>"

definition globalNode :: model where
  "globalNode = Model (Some 0) (ecOption rootEc) None (Some rootEc)"

definition seriesNode :: model where
  "seriesNode = Model (Some 1)
     (Obj [(''rich'', Obj [(''a'', Obj [(''backgroundColor'', Str ''red''), (''color'', Str ''auto'')])])])
     (Some globalNode) (Some rootEc)"

definition labelNode :: model where
  "labelNode = Model (Some 2) (Obj [(''show'', JBool True)]) (Some seriesNode) (Some rootEc)"

definition emphasisNode :: model where
  "emphasisNode = Model (Some 3) (Obj [(''show'', JBool True)]) (Some globalNode) (Some rootEc)"

definition emptyRichNode :: model where
  "emptyRichNode = Model (Some 4) (Obj [(''rich'', Obj [])]) None None"

definition hiddenNode :: model where
  "hiddenNode = Model (Some 5) (Obj [(''show'', JBool False)]) (Some globalNode) (Some rootEc)"

text \<open>
  A chart as the repository builds it: the global model holds the theme as its
  \<^verbatim>\<open>ecModel\<close> and has no parent, and declares the token \<^verbatim>\<open>g\<close>; below it a series
  node that declares the token \<^verbatim>\<open>a\<close>, and below that a label node with no
  \<^verbatim>\<open>rich\<close> of its own.
\<close>

definition themeEc :: ecmodel where
  "themeEc = \<lparr>ecIdent = 6, ecOption = Undefined\<rparr>"

definition chartEc :: ecmodel where
  "chartEc = \<lparr>ecIdent = 7,
     ecOption = Obj [(''textStyle'', Obj [(''color'', Str ''#000'')]),
                     (''rich'', Obj [(''g'', Obj [(''color'', Str ''blue'')])])]\<rparr>"

definition chartNode :: model where
  "chartNode = Model (Some 7) (ecOption chartEc) None (Some themeEc)"

definition chartSeriesNode :: model where
  "chartSeriesNode = Model (Some 8)
     (Obj [(''rich'', Obj [(''a'', Obj [(''backgroundColor'', Str ''red'')])])])
     (Some chartNode) (Some chartEc)"

definition chartLabelNode :: model where
  "chartLabelNode = Model (Some 9) (Obj [(''show'', JBool True)]) (Some chartSeriesNode) (Some chartEc)"

definition boxOffOpt :: text_opt where
  "boxOffOpt = EMPTY_OBJ\<lparr>disableBox := True\<rparr>"

definition rectOpt :: text_opt where
  "rectOpt = EMPTY_OBJ\<lparr>isRectText := True, autoColor := Str ''#123456''\<rparr>"

text \<open>A formatter that answers every call with the same label.\<close>

definition sampleFetcher :: fetcher where
  "sampleFetcher = \<lparr>getFormattedLabel = (\<lambda>dataIndex state n dimIndex. Str ''label'')\<rparr>"

section \<open>Auxiliary definitions for the proofs\<close>

text \<open>
  The parts of \<^verbatim>\<open>cacheElementStl\<close> and \<^verbatim>\<open>doSingleEnterHover\<close> by name: the value
  written when the delta has none, the delta after the two writes, the snapshot, and the
  application of the delta to the element.
\<close>

definition defaultHover :: "(string \<Rightarrow> real \<Rightarrow> jsval) \<Rightarrow> jsval \<Rightarrow> jsval" where
  "defaultHover lift v = (if hasFillOrStroke v then liftColor lift v else Null)"

definition cachedHoverStyle :: "(string \<Rightarrow> real \<Rightarrow> jsval) \<Rightarrow> jsobj \<Rightarrow> jsobj \<Rightarrow> jsobj" where
  "cachedHoverStyle lift stl h0 =
     setProp ''stroke'' (jsOr (getProp h0 ''stroke'') (defaultHover lift (getProp stl ''stroke'')))
       (setProp ''fill'' (jsOr (getProp h0 ''fill'') (defaultHover lift (getProp stl ''fill''))) h0)"

definition cachedNormalStyle :: "jsobj \<Rightarrow> jsobj \<Rightarrow> jsobj" where
  "cachedNormalStyle stl hs =
     fold (\<lambda>name n. if \<not> isNullish (getProp hs name) then setProp name (getProp stl name) n else n)
       (ownKeys hs) []"

definition applyHover :: "store \<Rightarrow> elprops \<Rightarrow> elprops" where
  "applyHover s1 el1 =
     (if useHoverLayer el1 then (if zr el1 then addHover (hoverStl el1) el1 else el1)
      else (dirty (el1\<lparr>style := extendFrom (style el1)
                       (case hoverStl el1 of None \<Rightarrow> [] | Some a \<Rightarrow> objs s1 a)\<rparr>))
             \<lparr>z2 := doubleAdd (z2 el1) 1\<rparr>)\<lparr>isHover := True\<rparr>"

text \<open>
  The snapshot of a configured element is current: every key it holds has the live value,
  and every key that the delta sets to a value other than the live one is held.
\<close>

definition snapshotCurrent :: "store \<Rightarrow> elprops \<Rightarrow> bool" where
  "snapshotCurrent s el =
     (case hoverStl el of None \<Rightarrow> False
      | Some a \<Rightarrow>
        (case normalStl el of None \<Rightarrow> False
         | Some ns \<Rightarrow>
             (\<forall>k \<in> set (ownKeys ns). getProp ns k = getProp (style el) k)
           \<and> (\<forall>k \<in> set (ownKeys (objs s a)).
                  isNullish (getProp (objs s a) k) \<or> k \<in> set (ownKeys ns)
                \<or> getProp (objs s a) k = getProp (style el) k)))"

text \<open>
  The parts of \<^verbatim>\<open>setTokenTextStyle\<close> by name: the font and alignment assignments, the
  box assignments, the shadow assignments, the fill, stroke and line width, and the global
  text style in effect.
\<close>

definition tokenBase :: "model \<Rightarrow> jsval \<Rightarrow> (string \<times> jsval) list" where
  "tokenBase textStyleModel globalTextStyle =
     [(''fontStyle'', jsOr (getShallow textStyleModel ''fontStyle'') (index globalTextStyle ''fontStyle'')),
      (''fontWeight'', jsOr (getShallow textStyleModel ''fontWeight'') (index globalTextStyle ''fontWeight'')),
      (''fontSize'', jsOr (getShallow textStyleModel ''fontSize'') (index globalTextStyle ''fontSize'')),
      (''fontFamily'', jsOr (getShallow textStyleModel ''fontFamily'') (index globalTextStyle ''fontFamily'')),
      (''textAlign'', getShallow textStyleModel ''align''),
      (''textVerticalAlign'', jsOr (getShallow textStyleModel ''verticalAlign'')
                                   (getShallow textStyleModel ''baseline'')),
      (''textLineHeight'', getShallow textStyleModel ''lineHeight''),
      (''textWidth'', getShallow textStyleModel ''width''),
      (''textHeight'', getShallow textStyleModel ''height''),
      (''textTag'', getShallow textStyleModel ''tag'')]"

definition boxValues :: "model \<Rightarrow> text_opt \<Rightarrow> (string \<times> jsval) list" where
  "boxValues textStyleModel opt =
     [(''textBackgroundColor'', getAutoColor (getShallow textStyleModel ''backgroundColor'') opt),
      (''textPadding'', getShallow textStyleModel ''padding''),
      (''textBorderColor'', getAutoColor (getShallow textStyleModel ''borderColor'') opt),
      (''textBorderWidth'', getShallow textStyleModel ''borderWidth''),
      (''textBorderRadius'', getShallow textStyleModel ''borderRadius''),
      (''textBoxShadowColor'', getShallow textStyleModel ''shadowColor''),
      (''textBoxShadowBlur'', getShallow textStyleModel ''shadowBlur''),
      (''textBoxShadowOffsetX'', getShallow textStyleModel ''shadowOffsetX''),
      (''textBoxShadowOffsetY'', getShallow textStyleModel ''shadowOffsetY'')]"

definition shadowValues :: "model \<Rightarrow> jsval \<Rightarrow> (string \<times> jsval) list" where
  "shadowValues textStyleModel globalTextStyle =
     [(''textShadowColor'', jsOr (getShallow textStyleModel ''textShadowColor'')
                                 (index globalTextStyle ''textShadowColor'')),
      (''textShadowBlur'', jsOr (getShallow textStyleModel ''textShadowBlur'')
                                (index globalTextStyle ''textShadowBlur'')),
      (''textShadowOffsetX'', jsOr (getShallow textStyleModel ''textShadowOffsetX'')
                                   (index globalTextStyle ''textShadowOffsetX'')),
      (''textShadowOffsetY'', jsOr (getShallow textStyleModel ''textShadowOffsetY'')
                                   (index globalTextStyle ''textShadowOffsetY''))]"

definition tokenPaint :: "jsobj \<Rightarrow> model \<Rightarrow> jsval \<Rightarrow> text_opt \<Rightarrow> bool \<Rightarrow> (jsval \<times> jsval \<times> jsval) option" where
  "tokenPaint textStyle textStyleModel globalTextStyle opt noDefault =
     (if \<not> noDefault
      then tokenDefaults textStyle textStyleModel globalTextStyle opt
             (getAutoColor (getShallow textStyleModel ''color'') opt)
             (getAutoColor (getShallow textStyleModel ''textBorderColor'') opt)
             (getShallow textStyleModel ''textBorderWidth'')
      else Some (getAutoColor (getShallow textStyleModel ''color'') opt,
                 getAutoColor (getShallow textStyleModel ''textBorderColor'') opt,
                 getShallow textStyleModel ''textBorderWidth''))"

definition effectiveGlobal :: "jsval \<Rightarrow> bool \<Rightarrow> jsval" where
  "effectiveGlobal globalTextStyle0 noDefault =
     jsOr (if \<not> noDefault then globalTextStyle0 else JBool False) (Obj [])"

text \<open>
  Every property that the resolution writes, with the model keys it is read from; and the
  model nodes that the loop of \<^verbatim>\<open>getRichItemNames\<close> inspects, from the node upward to
  the last one before the global model.
\<close>

definition resolvedFrom :: "(string \<times> string list) list" where
  "resolvedFrom =
     [(''textFill'', [''color'']),
      (''textStroke'', [''textBorderColor'']),
      (''textLineWidth'', [''textBorderWidth'']),
      (''fontStyle'', [''fontStyle'']),
      (''fontWeight'', [''fontWeight'']),
      (''fontSize'', [''fontSize'']),
      (''fontFamily'', [''fontFamily'']),
      (''textAlign'', [''align'']),
      (''textVerticalAlign'', [''verticalAlign'', ''baseline'']),
      (''textLineHeight'', [''lineHeight'']),
      (''textWidth'', [''width'']),
      (''textHeight'', [''height'']),
      (''textTag'', [''tag'']),
      (''textBackgroundColor'', [''backgroundColor'']),
      (''textPadding'', [''padding'']),
      (''textBorderColor'', [''borderColor'']),
      (''textBorderWidth'', [''borderWidth'']),
      (''textBorderRadius'', [''borderRadius'']),
      (''textBoxShadowColor'', [''shadowColor'']),
      (''textBoxShadowBlur'', [''shadowBlur'']),
      (''textBoxShadowOffsetX'', [''shadowOffsetX'']),
      (''textBoxShadowOffsetY'', [''shadowOffsetY'']),
      (''textShadowColor'', [''textShadowColor'']),
      (''textShadowBlur'', [''textShadowBlur'']),
      (''textShadowOffsetX'', [''textShadowOffsetX'']),
      (''textShadowOffsetY'', [''textShadowOffsetY'']),
      (''textPosition'', [''position'']),
      (''textOffset'', [''offset'']),
      (''textRotation'', [''rotate'']),
      (''textDistance'', [''distance''])]"

text \<open>
  The node and its ancestors along \<^verbatim>\<open>parentModel\<close>, through the node without parent;
  and the nodes that the loop of \<^verbatim>\<open>getRichItemNames\<close> inspects.
\<close>

fun parentChain :: "model \<Rightarrow> model list" where
  "parentChain (Model i opt par ec) =
     Model i opt par ec # (case par of None \<Rightarrow> [] | Some p \<Rightarrow> parentChain p)"

fun visited :: "model \<Rightarrow> model list" where
  "visited (Model i opt par ec) =
     (if isOwnEcModel (Model i opt par ec) then []
      else Model i opt par ec # (case par of None \<Rightarrow> [] | Some p \<Rightarrow> visited p))"

text \<open>\<^verbatim>\<open>ecModel && ecModel.option.textStyle\<close>, where it does not throw.\<close>

definition globalTextStyleOf :: "model \<Rightarrow> jsval" where
  "globalTextStyleOf m = (case ecModel m of None \<Rightarrow> Undefined
                          | Some ec \<Rightarrow> index (ecOption ec) ''textStyle'')"

text \<open>
  The parts of \<^verbatim>\<open>setTextStyleCommon\<close> by name: \<^verbatim>\<open>opt || EMPTY_OBJ\<close>, and the
  assignments made under \<^verbatim>\<open>isRectText\<close>.
\<close>

definition optOf :: "text_opt option \<Rightarrow> text_opt" where
  "optOf opt0 = (case opt0 of None \<Rightarrow> EMPTY_OBJ | Some ob \<Rightarrow> ob)"

definition rectValues :: "(jsval \<Rightarrow> jsval) \<Rightarrow> model \<Rightarrow> bool \<Rightarrow> (string \<times> jsval) list" where
  "rectValues degToRad textStyleModel noDefault =
     [(''textPosition'',
         (if jsOr (getShallow textStyleModel ''position'') (if noDefault then Null else Str ''inside'')
               = Str ''outside''
          then Str ''top''
          else jsOr (getShallow textStyleModel ''position'')
                    (if noDefault then Null else Str ''inside''))),
      (''textOffset'', getShallow textStyleModel ''offset''),
      (''textRotation'',
         (if \<not> isNullish (getShallow textStyleModel ''rotate'')
          then degToRad (getShallow textStyleModel ''rotate'')
          else getShallow textStyleModel ''rotate'')),
      (''textDistance'', retrieve2 (getShallow textStyleModel ''distance'')
                           (if noDefault then Null else Num 5))]"

text \<open>The names held by the map of names, none when it is undefined.\<close>

definition keysOpt :: "jsobj option \<Rightarrow> string set" where
  "keysOpt x = (case x of None \<Rightarrow> {} | Some ob \<Rightarrow> set (ownKeys ob))"

text \<open>
  The style that \<^verbatim>\<open>setTokenTextStyle\<close> returns for a given fill, stroke and line width;
  and the two texts of \<^verbatim>\<open>setLabelStyle\<close>, each with the calls made for it.
\<close>

definition tokenResult :: "jsobj \<Rightarrow> model \<Rightarrow> jsval \<Rightarrow> text_opt \<Rightarrow> bool \<Rightarrow> jsval \<Rightarrow> jsval \<Rightarrow> jsval
    \<Rightarrow> jsobj" where
  "tokenResult ts m g opt isBlock textFill textStroke textLineWidth =
     assign
       (if \<not> isBlock \<or> \<not> disableBox opt
        then assign
               (assign ts ([(''textFill'', textFill), (''textStroke'', textStroke),
                            (''textLineWidth'', textLineWidth)] @ tokenBase m g))
               (boxValues m opt)
        else assign ts ([(''textFill'', textFill), (''textStroke'', textStroke),
                         (''textLineWidth'', textLineWidth)] @ tokenBase m g))
       (shadowValues m g)"

definition normalText :: "model \<Rightarrow> text_opt option \<Rightarrow> jsval \<times> call list" where
  "normalText normalModel opt0 =
     fetchText normalModel (optOf opt0) ''normal'' (defaultText (optOf opt0))"

definition emphasisText :: "model \<Rightarrow> model \<Rightarrow> text_opt option \<Rightarrow> jsval \<times> call list" where
  "emphasisText normalModel emphasisModel opt0 =
     fetchText emphasisModel (optOf opt0) ''emphasis'' (fst (normalText normalModel opt0))"

section \<open>Rounding\<close>

text \<open>
  An integer of magnitude up to \<^verbatim>\<open>2^53\<close> is a double, so adding and subtracting 1 is
  exact below that bound; \<^verbatim>\<open>2^53 + 1\<close> is a tie and rounds to \<^verbatim>\<open>2^53\<close>.
\<close>

lemma roundHalfEven_of_int: "roundHalfEven (of_int j) = j"
  by (simp add: roundHalfEven_def)

lemma roundDouble_ulp:
  assumes "x \<noteq> 0" and "\<lfloor>log 2 \<bar>x\<bar>\<rfloor> = e" and "- 1022 \<le> e"
  shows "roundDouble x = 2 powr of_int (e - 52) * of_int (roundHalfEven (x / 2 powr of_int (e - 52)))"
  using assms by (simp add: roundDouble_def Let_def max_def)

lemma roundDouble_of_int:
  assumes "\<bar>k\<bar> \<le> 2 ^ 53"
  shows "roundDouble (of_int k) = of_int k"
proof (cases "k = 0")
  case True
  then show ?thesis by (simp add: roundDouble_def)
next
  case False
  define x :: real where "x = of_int k"
  define e where "e = \<lfloor>log 2 \<bar>x\<bar>\<rfloor>"
  have ax: "\<bar>x\<bar> = of_int \<bar>k\<bar>" unfolding x_def by simp
  have "1 \<le> \<bar>k\<bar>" using False by linarith
  then have x1: "1 \<le> \<bar>x\<bar>" unfolding ax by linarith
  have "real_of_int \<bar>k\<bar> \<le> real_of_int (2 ^ 53)" using assms by (simp only: of_int_le_iff)
  then have xu: "\<bar>x\<bar> \<le> 2 ^ 53" unfolding ax by simp
  have xpos: "0 < \<bar>x\<bar>" using x1 by linarith
  have fl: "2 powr of_int e \<le> \<bar>x\<bar> \<and> \<bar>x\<bar> < 2 powr of_int (e + 1)"
    using floor_log_eq_powr_iff[of "\<bar>x\<bar>" 2 e] xpos e_def by simp
  have e0: "0 \<le> e"
  proof -
    have "0 \<le> log 2 \<bar>x\<bar>" using x1 by simp
    then show ?thesis unfolding e_def by simp
  qed
  have e53: "e \<le> 53"
  proof (rule ccontr)
    assume "\<not> e \<le> 53"
    then have "54 \<le> e" by simp
    then have "(54::real) \<le> of_int e" by linarith
    then have "(2::real) powr 54 \<le> 2 powr of_int e" by (rule powr_mono) simp
    then have "(2::real) ^ 54 \<le> \<bar>x\<bar>" using fl by simp
    then show False using xu by simp
  qed
  have nz: "x \<noteq> 0" using x1 by auto
  have rd: "roundDouble x = 2 powr of_int (e - 52) * of_int (roundHalfEven (x / 2 powr of_int (e - 52)))"
    using roundDouble_ulp[OF nz, of e] e0 e_def by simp
  show ?thesis
  proof (cases "e \<le> 52")
    case True
    define n where "n = nat (52 - e)"
    have ulp: "(2::real) powr of_int (e - 52) = inverse (2 ^ n)"
    proof (cases "e = 52")
      case True then show ?thesis by (simp add: n_def)
    next
      case False
      then have "\<not> 0 \<le> e - 52" using \<open>e \<le> 52\<close> by simp
      then show ?thesis using powr_real_of_int[of 2 "e - 52"] by (simp add: n_def)
    qed
    have q: "x / 2 powr of_int (e - 52) = of_int (k * 2 ^ n)"
      unfolding ulp x_def by (simp add: field_simps)
    have "roundDouble x = 2 powr of_int (e - 52) * of_int (k * 2 ^ n)"
      using rd by (simp only: q roundHalfEven_of_int)
    then have "roundDouble x = inverse (2 ^ n) * of_int (k * 2 ^ n)"
      by (simp only: ulp)
    then show ?thesis by (simp add: x_def)
  next
    case False
    then have e: "e = 53" using e53 by simp
    have "(2::real) powr 53 \<le> \<bar>x\<bar>" using fl e by simp
    then have ax2: "\<bar>x\<bar> = 2 ^ 53" using xu by simp
    have ulp: "(2::real) powr of_int (e - 52) = 2" using e by simp
    have "x = 2 ^ 53 \<or> x = - (2 ^ 53)" using ax2 by linarith
    then have "k = 2 ^ 53 \<or> k = - (2 ^ 53)" unfolding x_def
      by (metis of_int_eq_iff of_int_minus of_int_numeral of_int_power)
    then have q: "x / 2 powr of_int (e - 52) = of_int (k div 2)" unfolding x_def ulp by auto
    have k2: "2 * (k div 2) = k" using \<open>k = 2 ^ 53 \<or> k = - (2 ^ 53)\<close> by auto
    have "roundDouble x = 2 powr of_int (e - 52) * of_int (k div 2)"
      using rd by (simp only: q roundHalfEven_of_int)
    then have "roundDouble x = 2 * of_int (k div 2)"
      by (simp only: ulp)
    also have "\<dots> = of_int (2 * (k div 2))" by simp
    finally show ?thesis unfolding k2 x_def .
  qed
qed

lemma roundDouble_above: "roundDouble (2 ^ 53 + 1) = 2 ^ 53"
proof -
  have fl: "\<lfloor>log 2 \<bar>2 ^ 53 + 1 :: real\<bar>\<rfloor> = 53"
    using floor_log_eq_powr_iff[of "2 ^ 53 + 1 :: real" 2 53] by simp
  have rd: "roundDouble (2 ^ 53 + 1) = 2 powr of_int (53 - 52) * of_int (roundHalfEven ((2 ^ 53 + 1) / 2 powr of_int (53 - 52)))"
    by (rule roundDouble_ulp[OF _ fl]) simp_all
  have fl2: "\<lfloor>(2 ^ 53 + 1) / 2 :: real\<rfloor> = 2 ^ 52"
    by (rule floor_unique) simp_all
  have "roundHalfEven ((2 ^ 53 + 1) / 2) = 2 ^ 52"
    unfolding roundHalfEven_def fl2 by simp
  then show ?thesis using rd by simp
qed

lemma doubleAdd_int:
  assumes "z \<in> \<int>" "\<bar>z + 1\<bar> \<le> 2 ^ 53"
  shows "doubleAdd z 1 = z + 1"
proof -
  from assms(1) obtain k where k: "z = of_int k" by (rule Ints_cases)
  have "real_of_int \<bar>k + 1\<bar> \<le> real_of_int (2 ^ 53)" using assms(2) unfolding k by simp
  then have "\<bar>k + 1\<bar> \<le> 2 ^ 53" by (simp only: of_int_le_iff)
  then have "roundDouble (of_int (k + 1)) = of_int (k + 1)" by (rule roundDouble_of_int)
  then show ?thesis by (simp add: doubleAdd_def k)
qed

lemma doubleSub_int:
  assumes "z \<in> \<int>" "\<bar>z - 1\<bar> \<le> 2 ^ 53"
  shows "doubleSub z 1 = z - 1"
proof -
  from assms(1) obtain k where k: "z = of_int k" by (rule Ints_cases)
  have "real_of_int \<bar>k - 1\<bar> \<le> real_of_int (2 ^ 53)" using assms(2) unfolding k by simp
  then have "\<bar>k - 1\<bar> \<le> 2 ^ 53" by (simp only: of_int_le_iff)
  then have "roundDouble (of_int (k - 1)) = of_int (k - 1)" by (rule roundDouble_of_int)
  then show ?thesis by (simp add: doubleSub_def k)
qed

lemma double_round_trip:
  assumes "z \<in> \<int>" "\<bar>z\<bar> < 2 ^ 53"
  shows "doubleSub (doubleAdd z 1) 1 = z"
proof -
  from assms(1) obtain k where k: "z = of_int k" by (rule Ints_cases)
  have "real_of_int \<bar>k\<bar> < real_of_int (2 ^ 53)" using assms(2) unfolding k by simp
  then have kb: "\<bar>k\<bar> < 2 ^ 53" by (simp only: of_int_less_iff)
  then have "\<bar>k + 1\<bar> \<le> 2 ^ 53" by linarith
  then have "real_of_int \<bar>k + 1\<bar> \<le> real_of_int (2 ^ 53)" by (simp only: of_int_le_iff)
  then have b1: "\<bar>z + 1\<bar> \<le> 2 ^ 53" unfolding k by simp
  have a: "doubleAdd z 1 = z + 1" using assms(1) b1 by (rule doubleAdd_int)
  have i: "z + 1 \<in> \<int>" using assms(1) by simp
  have b2: "\<bar>z + 1 - 1\<bar> \<le> 2 ^ 53" using assms(2) by simp
  have "doubleSub (z + 1) 1 = z + 1 - 1" using i b2 by (rule doubleSub_int)
  then show ?thesis by (simp add: a)
qed

lemma doubleAdd_0_1: "doubleAdd 0 1 = 1"
  using doubleAdd_int[of 0] by simp

lemma doubleSub_1_1: "doubleSub 1 1 = 0"
  using doubleSub_int[of 1] by simp

lemma doubleAdd_high: "doubleAdd (2 ^ 53) 1 = 2 ^ 53"
  by (simp only: doubleAdd_def roundDouble_above)

lemma doubleSub_high: "doubleSub (2 ^ 53) 1 = 2 ^ 53 - 1"
proof -
  have "(2 ^ 53 :: real) \<in> \<int>" by simp
  moreover have "\<bar>2 ^ 53 - 1 :: real\<bar> \<le> 2 ^ 53" by simp
  ultimately show ?thesis by (rule doubleSub_int)
qed

section \<open>Objects\<close>

lemma map_of_setProp: "map_of (setProp k v ob) = (map_of ob)(k \<mapsto> v)"
  by (induction ob) (auto simp: fun_eq_iff)

lemma getProp_setProp: "getProp (setProp k v ob) k' = (if k' = k then v else getProp ob k')"
  by (simp add: getProp_def map_of_setProp)

lemma getProp_Nil: "getProp [] k = Undefined"
  by (simp add: getProp_def)

lemma getProp_not_key: "k \<notin> set (ownKeys ob) \<Longrightarrow> getProp ob k = Undefined"
  by (simp add: getProp_def ownKeys_def map_of_eq_None_iff[THEN iffD2] split: option.splits)

lemma getProp_fold_cond:
  "getProp (fold (\<lambda>name t. if P name then setProp name (f name) t else t) ks t0) k
     = (if k \<in> set ks \<and> P k then f k else getProp t0 k)"
  by (induction ks arbitrary: t0) (auto simp: getProp_setProp)

lemma getProp_extendFrom:
  "getProp (extendFrom target other) k
     = (if \<not> isNullish (getProp other k) then getProp other k else getProp target k)"
  using getProp_not_key[of k other]
  by (auto simp: extendFrom_def getProp_fold_cond)

lemma getProp_setStyle:
  "getProp (style (setStyle stl el)) k
     = (if k \<in> set (ownKeys stl) then getProp stl k else getProp (style el) k)"
  using getProp_fold_cond[of "\<lambda>_. True" "getProp stl" "ownKeys stl" "style el" k]
  by (simp add: setStyle_def)

lemma set_ownKeys: "set (ownKeys ob) = dom (map_of ob)"
  by (simp add: ownKeys_def dom_map_of_conv_image_fst)

lemma set_ownKeys_setProp: "set (ownKeys (setProp k v ob)) = insert k (set (ownKeys ob))"
  by (simp add: set_ownKeys map_of_setProp)

lemma set_ownKeys_fold_cond:
  "set (ownKeys (fold (\<lambda>name t. if P name then setProp name (f name) t else t) ks t0))
     = set (ownKeys t0) \<union> {k \<in> set ks. P k}"
  by (induction ks arbitrary: t0) (auto simp: set_ownKeys_setProp)

section \<open>The snapshot and the single-element transitions\<close>

lemma cacheElementStl_eq:
  "cacheElementStl lift s el =
     (if hoverStlDirty el then
        (case hoverStl el of None \<Rightarrow> None
         | Some a \<Rightarrow>
             Some (s\<lparr>objs := (objs s)(a := cachedHoverStyle lift (style el) (objs s a))\<rparr>,
                   el\<lparr>normalStl := Some (cachedNormalStyle (style el)
                                            (cachedHoverStyle lift (style el) (objs s a))),
                      hoverStlDirty := False\<rparr>))
      else Some (s, el))"
  unfolding cacheElementStl_def cachedHoverStyle_def cachedNormalStyle_def defaultHover_def Let_def
  by (simp only: getProp_setProp) (simp split: option.splits)

lemma getProp_cachedHoverStyle:
  "getProp (cachedHoverStyle lift stl h0) k =
     (if k = ''stroke'' then jsOr (getProp h0 ''stroke'') (defaultHover lift (getProp stl ''stroke''))
      else if k = ''fill'' then jsOr (getProp h0 ''fill'') (defaultHover lift (getProp stl ''fill''))
      else getProp h0 k)"
  by (simp add: cachedHoverStyle_def getProp_setProp)

lemma ownKeys_cachedNormalStyle:
  "k \<in> set (ownKeys (cachedNormalStyle stl hs)) \<longleftrightarrow> \<not> isNullish (getProp hs k)"
proof -
  have "k \<in> set (ownKeys (cachedNormalStyle stl hs))
          \<longleftrightarrow> k \<in> set (ownKeys []) \<or> (k \<in> set (ownKeys hs) \<and> \<not> isNullish (getProp hs k))"
    by (simp add: cachedNormalStyle_def set_ownKeys_fold_cond)
  moreover have "k \<notin> set (ownKeys [])" by (simp add: ownKeys_def)
  moreover have "k \<notin> set (ownKeys hs) \<Longrightarrow> isNullish (getProp hs k)"
    by (simp add: getProp_not_key)
  ultimately show ?thesis by blast
qed

lemma getProp_cachedNormalStyle:
  "getProp (cachedNormalStyle stl hs) k
     = (if \<not> isNullish (getProp hs k) then getProp stl k else Undefined)"
  using getProp_not_key[of k hs]
  by (auto simp: cachedNormalStyle_def getProp_fold_cond getProp_Nil)

lemma cacheElementStl_fields:
  assumes "cacheElementStl lift s el = Some (s', el')"
  shows "isHover el' = isHover el" "etype el' = etype el" "useHoverLayer el' = useHoverLayer el"
    "zr el' = zr el" "hoverStl el' = hoverStl el" "style el' = style el" "z2 el' = z2 el"
    "isEmphasis el' = isEmphasis el" "handlers el' = handlers el"
    "hoverSilentOnTouch el' = hoverSilentOnTouch el" "fresh s' = fresh s"
  using assms by (auto simp: cacheElementStl_eq split: if_splits option.splits)

lemma cacheElementStl_isEmphasis:
  "cacheElementStl lift s (el\<lparr>isEmphasis := b\<rparr>)
     = map_option (\<lambda>(s', el'). (s', el'\<lparr>isEmphasis := b\<rparr>)) (cacheElementStl lift s el)"
  by (simp add: cacheElementStl_eq split: option.splits)

lemma doSingleEnterHover_eq:
  "doSingleEnterHover lift s el =
     (if isHover el then Some (s, el)
      else map_option (\<lambda>(s1, el1). (s1, applyHover s1 el1)) (cacheElementStl lift s el))"
  by (simp add: doSingleEnterHover_def applyHover_def Let_def dirty_def split: option.splits)

lemma applyHover_fields:
  "isHover (applyHover s el)" "etype (applyHover s el) = etype el"
  "useHoverLayer (applyHover s el) = useHoverLayer el"
  "isEmphasis (applyHover s el) = isEmphasis el" "handlers (applyHover s el) = handlers el"
  "hoverSilentOnTouch (applyHover s el) = hoverSilentOnTouch el"
  "z2 (applyHover s el) = (if useHoverLayer el then z2 el else doubleAdd (z2 el) 1)"
  "normalStl (applyHover s el) = normalStl el"
  "hoverStl (applyHover s el) = hoverStl el"
  "hoverStlDirty (applyHover s el) = hoverStlDirty el"
  "zr (applyHover s el) = zr el"
  "style (applyHover s el) = (if useHoverLayer el then style el
      else extendFrom (style el) (case hoverStl el of None \<Rightarrow> [] | Some a \<Rightarrow> objs s a))"
  by (simp_all add: applyHover_def dirty_def addHover_def)

lemma applyHover_isEmphasis:
  "applyHover s (el\<lparr>isEmphasis := b\<rparr>) = (applyHover s el)\<lparr>isEmphasis := b\<rparr>"
  by (simp add: applyHover_def dirty_def addHover_def)

lemma doSingleEnterHover_isEmphasis:
  "doSingleEnterHover lift s (el\<lparr>isEmphasis := b\<rparr>)
     = map_option (\<lambda>(s', el'). (s', el'\<lparr>isEmphasis := b\<rparr>)) (doSingleEnterHover lift s el)"
  by (simp add: doSingleEnterHover_eq cacheElementStl_isEmphasis option.map_comp comp_def split_def
      applyHover_isEmphasis)

lemma doSingleEnterHover_fields:
  assumes "doSingleEnterHover lift s el = Some (s', el')"
  shows "isHover el'" "etype el' = etype el" "useHoverLayer el' = useHoverLayer el"
    "isEmphasis el' = isEmphasis el" "handlers el' = handlers el"
    "hoverSilentOnTouch el' = hoverSilentOnTouch el"
    "z2 el' = (if isHover el \<or> useHoverLayer el then z2 el else doubleAdd (z2 el) 1)"
    "fresh s' = fresh s"
proof -
  have all: "isHover el' \<and> etype el' = etype el \<and> useHoverLayer el' = useHoverLayer el
    \<and> isEmphasis el' = isEmphasis el \<and> handlers el' = handlers el
    \<and> hoverSilentOnTouch el' = hoverSilentOnTouch el
    \<and> z2 el' = (if isHover el \<or> useHoverLayer el then z2 el else doubleAdd (z2 el) 1)
    \<and> fresh s' = fresh s"
  proof (cases "isHover el")
    case True
    then show ?thesis using assms by (simp add: doSingleEnterHover_eq)
  next
    case False
    then obtain s1 el1 where c: "cacheElementStl lift s el = Some (s1, el1)"
      and e: "s' = s1" "el' = applyHover s1 el1"
      using assms by (auto simp: doSingleEnterHover_eq)
    show ?thesis
      using False by (simp add: e applyHover_fields cacheElementStl_fields[OF c])
  qed
  then show "isHover el'" "etype el' = etype el" "useHoverLayer el' = useHoverLayer el"
    "isEmphasis el' = isEmphasis el" "handlers el' = handlers el"
    "hoverSilentOnTouch el' = hoverSilentOnTouch el"
    "z2 el' = (if isHover el \<or> useHoverLayer el then z2 el else doubleAdd (z2 el) 1)"
    "fresh s' = fresh s"
    by simp_all
qed

lemma doSingleEnterHover_again:
  "isHover el \<Longrightarrow> doSingleEnterHover lift s el = Some (s, el)"
  by (simp add: doSingleEnterHover_def)

lemma enter_twice:
  "Option.bind (doSingleEnterHover lift s el) (\<lambda>(s1, el1). doSingleEnterHover lift s1 el1)
     = doSingleEnterHover lift s el"
proof (cases "doSingleEnterHover lift s el")
  case None
  then show ?thesis by simp
next
  case (Some x)
  obtain s1 el1 where x: "x = (s1, el1)" by (cases x)
  from Some x have "isHover el1" by (simp add: doSingleEnterHover_fields(1))
  then show ?thesis using Some x by (simp add: doSingleEnterHover_again)
qed

lemma doEnterHover_leaf:
  "etype p \<noteq> ''group'' \<Longrightarrow> doEnterHover lift s (Element p cs)
     = map_option (\<lambda>(s1, p1). (s1, Element p1 cs)) (doSingleEnterHover lift s p)"
  by (simp split: option.splits)

lemma doLeaveHover_leaf:
  "etype p \<noteq> ''group'' \<Longrightarrow> doLeaveHover s (Element p cs) = Some (s, Element (doSingleLeaveHover p) cs)"
  by simp

lemma enterEmphasis_leaf:
  assumes "etype p \<noteq> ''group''"
  shows "enterEmphasis lift s (Element p cs)
     = map_option (\<lambda>(s1, p1). (s1, Element (p1\<lparr>isEmphasis := True\<rparr>) cs)) (doSingleEnterHover lift s p)"
  using assms
  by (simp add: doSingleEnterHover_isEmphasis option.map_comp comp_def split_def split: option.splits)

declare doEnterHover.simps [simp del] doLeaveHover.simps [simp del]
  enterEmphasis.simps [simp del] leaveEmphasis.simps [simp del]

lemma over_not_emphasised:
  "\<not> isEmphasis (props this) \<Longrightarrow> \<not> (hoverSilentOnTouch (props this) \<and> zrByTouch e)
     \<Longrightarrow> onElementMouseOver lift e s this = doEnterHover lift s this"
  by (auto simp: onElementMouseOver_def)

lemma over_suppressed:
  "hoverSilentOnTouch (props this) \<and> zrByTouch e \<Longrightarrow> onElementMouseOver lift e s this = Some (s, this)"
  by (simp add: onElementMouseOver_def)

lemma over_emphasised: "isEmphasis (props this) \<Longrightarrow> onElementMouseOver lift e s this = Some (s, this)"
  by (simp add: onElementMouseOver_def)

lemma out_emphasised: "isEmphasis (props this) \<Longrightarrow> onElementMouseOut e s this = Some (s, this)"
  by (simp add: onElementMouseOut_def)

lemma over_then_emphasis:
  assumes "etype p \<noteq> ''group''"
  shows "Option.bind (onElementMouseOver lift e s (Element p cs)) (\<lambda>(s1, el1). enterEmphasis lift s1 el1)
           = enterEmphasis lift s (Element p cs)"
proof (cases "(hoverSilentOnTouch p \<and> zrByTouch e) \<or> isEmphasis p")
  case True
  then have "onElementMouseOver lift e s (Element p cs) = Some (s, Element p cs)"
    using over_suppressed[of "Element p cs" e lift s] over_emphasised[of "Element p cs" lift e s]
    by auto
  then show ?thesis by simp
next
  case False
  then have o: "onElementMouseOver lift e s (Element p cs) = doEnterHover lift s (Element p cs)"
    by (simp add: over_not_emphasised)
  show ?thesis
  proof (cases "doSingleEnterHover lift s p")
    case None
    then show ?thesis using assms by (simp add: o doEnterHover_leaf enterEmphasis_leaf)
  next
    case (Some x)
    obtain s1 p1 where x: "x = (s1, p1)" by (cases x)
    have h: "isHover p1" and t: "etype p1 = etype p"
      using Some x doSingleEnterHover_fields(1,2)[of lift s p s1 p1] by simp_all
    have "enterEmphasis lift s1 (Element p1 cs) = Some (s1, Element (p1\<lparr>isEmphasis := True\<rparr>) cs)"
      using h t assms by (simp add: enterEmphasis_leaf doSingleEnterHover_again)
    then show ?thesis
      using assms Some x by (simp add: o doEnterHover_leaf enterEmphasis_leaf)
  qed
qed

lemma emphasis_then_over:
  assumes "etype p \<noteq> ''group''"
  shows "Option.bind (enterEmphasis lift s (Element p cs)) (\<lambda>(s1, el1). onElementMouseOver lift e s1 el1)
           = enterEmphasis lift s (Element p cs)"
proof (cases "doSingleEnterHover lift s p")
  case None
  then show ?thesis using assms by (simp add: enterEmphasis_leaf)
next
  case (Some x)
  obtain s1 p1 where x: "x = (s1, p1)" by (cases x)
  show ?thesis using assms Some x by (simp add: enterEmphasis_leaf over_emphasised)
qed

section \<open>Round trip\<close>

lemma doSingleLeaveHover_fields:
  "isHover (doSingleLeaveHover el) = False"
  "isEmphasis (doSingleLeaveHover el) = isEmphasis el"
  "etype (doSingleLeaveHover el) = etype el"
  "hoverStl (doSingleLeaveHover el) = hoverStl el"
  "normalStl (doSingleLeaveHover el) = normalStl el"
  "hoverStlDirty (doSingleLeaveHover el) = hoverStlDirty el"
  "z2 (doSingleLeaveHover el) = (if isHover el \<and> \<not> useHoverLayer el then doubleSub (z2 el) 1 else z2 el)"
  by (simp_all add: doSingleLeaveHover_def Let_def removeHover_def setStyle_def split: option.splits)

lemma style_doSingleLeaveHover:
  "getProp (style (doSingleLeaveHover el)) k =
     (if isHover el \<and> \<not> useHoverLayer el then
        (case normalStl el of None \<Rightarrow> getProp (style el) k
         | Some stl \<Rightarrow> if k \<in> set (ownKeys stl) then getProp stl k else getProp (style el) k)
      else getProp (style el) k)"
  by (simp add: doSingleLeaveHover_def Let_def removeHover_def getProp_setStyle split: option.splits)

lemma leaveEmphasis_leaf:
  "etype p \<noteq> ''group'' \<Longrightarrow> leaveEmphasis s (Element p cs)
     = Some (s, Element (doSingleLeaveHover (p\<lparr>isEmphasis := False\<rparr>)) cs)"
  by (simp add: leaveEmphasis.simps doLeaveHover.simps)

text \<open>
  C1 (as amended): for a leaf element with a configured delta that is not in hover
  presentation and whose snapshot is up to date (the delta is pending, so that enter takes
  the snapshot, or the snapshot held is current), \<^verbatim>\<open>doSingleEnterHover\<close> followed by
  \<^verbatim>\<open>doSingleLeaveHover\<close> returns and restores the live style at every key, in
  particular at every key of the delta. \<^verbatim>\<open>z2\<close> is left alone on the hover layer and
  is otherwise \<^verbatim>\<open>(z2 + 1) - 1\<close> in double arithmetic, which is \<^verbatim>\<open>z2\<close> for every
  integer of magnitude below \<^verbatim>\<open>2^53\<close>. The element is then out of hover presentation
  with a current snapshot, so the next round trip restores the style as well. The style has
  no \<^verbatim>\<open>z2\<close>, so no delta touches the z-order.
\<close>
theorem enter_leave_round_trip:
  assumes "\<not> isHover el" "hoverStl el = Some a" "hoverStlDirty el \<or> snapshotCurrent s el"
  shows "\<exists>s' el'. enterThenLeave lift s el = Some (s', el')
           \<and> (\<forall>k. getProp (style el') k = getProp (style el) k)
           \<and> z2 el' = (if useHoverLayer el then z2 el else doubleSub (doubleAdd (z2 el) 1) 1)
           \<and> (z2 el \<in> \<int> \<and> \<bar>z2 el\<bar> < 2 ^ 53 \<longrightarrow> z2 el' = z2 el)
           \<and> \<not> isHover el' \<and> \<not> hoverStlDirty el' \<and> snapshotCurrent s' el'"
proof (cases "hoverStlDirty el")
  case True
  define hs where "hs = cachedHoverStyle lift (style el) (objs s a)"
  define ns where "ns = cachedNormalStyle (style el) hs"
  define el1 where "el1 = el\<lparr>normalStl := Some ns, hoverStlDirty := False\<rparr>"
  define s1 where "s1 = s\<lparr>objs := (objs s)(a := hs)\<rparr>"
  define el' where "el' = doSingleLeaveHover (applyHover s1 el1)"
  have c: "cacheElementStl lift s el = Some (s1, el1)"
    using True assms(2) by (simp add: cacheElementStl_eq hs_def ns_def el1_def s1_def)
  have e: "doSingleEnterHover lift s el = Some (s1, applyHover s1 el1)"
    using assms(1) c by (simp add: doSingleEnterHover_eq)
  have f1: "useHoverLayer el1 = useHoverLayer el" "normalStl el1 = Some ns" "z2 el1 = z2 el"
    "style el1 = style el" "hoverStl el1 = Some a" "hoverStlDirty el1 = False"
    using assms(2) by (simp_all add: el1_def)
  have o: "objs s1 a = hs" by (simp add: s1_def)
  have st: "getProp (style el') k = getProp (style el) k" for k
    by (simp add: el'_def style_doSingleLeaveHover applyHover_fields f1 o ns_def
        ownKeys_cachedNormalStyle getProp_cachedNormalStyle getProp_extendFrom)
  have z: "z2 el' = (if useHoverLayer el then z2 el else doubleSub (doubleAdd (z2 el) 1) 1)"
    by (simp add: el'_def doSingleLeaveHover_fields applyHover_fields f1)
  have zi: "z2 el \<in> \<int> \<and> \<bar>z2 el\<bar> < 2 ^ 53 \<longrightarrow> z2 el' = z2 el"
    using z double_round_trip[of "z2 el"] by simp
  have fl: "\<not> isHover el'" "\<not> hoverStlDirty el'" "hoverStl el' = Some a" "normalStl el' = Some ns"
    by (simp_all add: el'_def doSingleLeaveHover_fields applyHover_fields f1)
  have cur: "snapshotCurrent s1 el'"
    by (simp add: snapshotCurrent_def fl o st ns_def ownKeys_cachedNormalStyle
        getProp_cachedNormalStyle)
  have "enterThenLeave lift s el = Some (s1, el')"
    by (simp add: enterThenLeave_def e el'_def)
  then show ?thesis using st z zi fl(1,2) cur by blast
next
  case False
  then have cur: "snapshotCurrent s el" using assms(3) by simp
  then obtain ns where ns: "normalStl el = Some ns"
    and k1: "\<And>k. k \<in> set (ownKeys ns) \<Longrightarrow> getProp ns k = getProp (style el) k"
    and k2: "\<And>k. k \<in> set (ownKeys (objs s a)) \<Longrightarrow>
               isNullish (getProp (objs s a) k) \<or> k \<in> set (ownKeys ns)
               \<or> getProp (objs s a) k = getProp (style el) k"
    using assms(2) by (auto simp: snapshotCurrent_def split: option.splits)
  define el' where "el' = doSingleLeaveHover (applyHover s el)"
  have c: "cacheElementStl lift s el = Some (s, el)"
    using False by (simp add: cacheElementStl_eq)
  have e: "doSingleEnterHover lift s el = Some (s, applyHover s el)"
    using assms(1) c by (simp add: doSingleEnterHover_eq)
  have st: "getProp (style el') k = getProp (style el) k" for k
  proof (cases "k \<in> set (ownKeys ns)")
    case True
    then show ?thesis
      by (simp add: el'_def style_doSingleLeaveHover applyHover_fields ns assms(2) k1)
  next
    case n: False
    have "isNullish (getProp (objs s a) k) \<or> getProp (objs s a) k = getProp (style el) k"
    proof (cases "k \<in> set (ownKeys (objs s a))")
      case True
      then show ?thesis using k2[of k] n by blast
    next
      case False
      then show ?thesis by (simp add: getProp_not_key)
    qed
    then show ?thesis
      using n by (auto simp: el'_def style_doSingleLeaveHover applyHover_fields ns assms(2)
          getProp_extendFrom)
  qed
  have z: "z2 el' = (if useHoverLayer el then z2 el else doubleSub (doubleAdd (z2 el) 1) 1)"
    by (simp add: el'_def doSingleLeaveHover_fields applyHover_fields)
  have zi: "z2 el \<in> \<int> \<and> \<bar>z2 el\<bar> < 2 ^ 53 \<longrightarrow> z2 el' = z2 el"
    using z double_round_trip[of "z2 el"] by simp
  have fl: "\<not> isHover el'" "\<not> hoverStlDirty el'" "hoverStl el' = Some a" "normalStl el' = Some ns"
    using False by (simp_all add: el'_def doSingleLeaveHover_fields applyHover_fields assms(2) ns)
  have cur': "snapshotCurrent s el'"
    unfolding snapshotCurrent_def using k1 k2 by (simp add: fl st)
  have "enterThenLeave lift s el = Some (s, el')"
    by (simp add: enterThenLeave_def e el'_def)
  then show ?thesis using st z zi fl(1,2) cur' by blast
qed

lemmas hover_eval = enterThenLeave_def doSingleEnterHover_eq cacheElementStl_eq applyHover_def
  doSingleLeaveHover_def setStyle_def extendFrom_def ownKeys_def getProp_def dirty_def Let_def
  addHover_def removeHover_def cachedHoverStyle_def cachedNormalStyle_def defaultHover_def
  hasFillOrStroke_def liftColor_def jsOr_def doubleAdd_0_1 doubleSub_1_1

text \<open>The round trip on the rectangle with the pending empty delta, at the z-order 0.\<close>

theorem enter_leave_round_trip_witness:
  "\<not> isHover pendingRect \<and> hoverStl pendingRect = Some 0 \<and> hoverStlDirty pendingRect
   \<and> z2 pendingRect \<in> \<int> \<and> \<bar>z2 pendingRect\<bar> < 2 ^ 53
   \<and> (\<exists>s' el'. enterThenLeave liftSample store0 pendingRect = Some (s', el')
           \<and> (\<forall>k. getProp (style el') k = getProp (style pendingRect) k)
           \<and> z2 el' = z2 pendingRect \<and> \<not> isHover el' \<and> snapshotCurrent s' el')"
proof -
  have h: "\<not> isHover pendingRect" "hoverStl pendingRect = Some 0" "hoverStlDirty pendingRect"
    and z: "z2 pendingRect \<in> \<int>" "\<bar>z2 pendingRect\<bar> < 2 ^ 53"
    by (simp_all add: pendingRect_def rect0_def)
  have d: "hoverStlDirty pendingRect \<or> snapshotCurrent store0 pendingRect" using h(3) by simp
  show ?thesis
    using h z enter_leave_round_trip[OF h(1,2) d, of liftSample] by blast
qed

text \<open>
  C1 as stated fails on two elements with a configured delta that are not in hover
  presentation. On \<^verbatim>\<open>staleRect\<close> the snapshot is older than the live style and is not
  taken again, so the fill goes from \<^verbatim>\<open>'green'\<close> to the snapshot's
  \<^verbatim>\<open>'#336699'\<close>. On \<^verbatim>\<open>highRect\<close> the sum \<^verbatim>\<open>2^53 + 1\<close> rounds to
  \<^verbatim>\<open>2^53\<close>, so the z-order goes from \<^verbatim>\<open>2^53\<close> to \<^verbatim>\<open>2^53 - 1\<close>.
\<close>

theorem enter_leave_round_trip_counterexample:
  "map_option (\<lambda>(s', el'). getProp (style el') ''fill'') (enterThenLeave liftSample storeRed staleRect)
     = Some (Str ''#336699'')
   \<and> getProp (style staleRect) ''fill'' = Str ''green''
   \<and> hoverStl staleRect = Some 0 \<and> \<not> isHover staleRect
   \<and> map_option (\<lambda>(s', el'). z2 el') (enterThenLeave liftSample store0 highRect) = Some (2 ^ 53 - 1)
   \<and> z2 highRect = 2 ^ 53 \<and> hoverStl highRect = Some 0 \<and> \<not> isHover highRect"
proof -
  have a: "map_option (\<lambda>(s', el'). getProp (style el') ''fill'') (enterThenLeave liftSample storeRed staleRect)
     = Some (Str ''#336699'')
   \<and> getProp (style staleRect) ''fill'' = Str ''green''
   \<and> hoverStl staleRect = Some 0 \<and> \<not> isHover staleRect"
    by (simp add: hover_eval storeRed_def staleRect_def rect0_def)
  have h: "\<not> isHover highRect" "hoverStlDirty highRect" "hoverStl highRect = Some 0"
    "\<not> useHoverLayer highRect" "z2 highRect = 2 ^ 53"
    by (simp_all add: highRect_def pendingRect_def rect0_def)
  obtain s1 el1 where c: "cacheElementStl liftSample store0 highRect = Some (s1, el1)"
    using h(2,3) by (simp add: cacheElementStl_eq)
  have f: "useHoverLayer el1 = useHoverLayer highRect" "z2 el1 = z2 highRect"
    using cacheElementStl_fields(3,7)[OF c] by simp_all
  have e: "doSingleEnterHover liftSample store0 highRect = Some (s1, applyHover s1 el1)"
    using h(1) c by (simp add: doSingleEnterHover_eq)
  have "z2 (doSingleLeaveHover (applyHover s1 el1)) = doubleSub (doubleAdd (2 ^ 53) 1) 1"
    using h(4,5) by (simp add: doSingleLeaveHover_fields applyHover_fields f)
  then have "z2 (doSingleLeaveHover (applyHover s1 el1)) = 2 ^ 53 - 1"
    by (simp only: doubleAdd_high doubleSub_high)
  then have b: "map_option (\<lambda>(s', el'). z2 el') (enterThenLeave liftSample store0 highRect) = Some (2 ^ 53 - 1)"
    by (simp add: enterThenLeave_def e)
  show ?thesis using a b h(1,3,5) by blast
qed

text \<open>
  \<^verbatim>\<open>staleRect\<close> is a state of the rectangle that the code reaches: by configuring the
  delta \<^verbatim>\<open>{fill: 'red'}\<close>, entering, leaving, and a write to the live fill.
\<close>

lemma staleRect_reached:
  "staleRect = (doSingleLeaveHover hoveringRect)
       \<lparr>style := setProp ''fill'' (Str ''green'') (style (doSingleLeaveHover hoveringRect))\<rparr>"
  by (simp add: hover_eval staleRect_def hoveringRect_def rect0_def)

lemma hoveringRect_reached:
  "Option.bind
     (setElementHoverStl liftSample (Some 0)
        \<lparr>objs = (\<lambda>a. if a = 0 then [(''fill'', Str ''red'')] else []), fresh = 1\<rparr> rect0)
     (\<lambda>(s, el). doSingleEnterHover liftSample s el)
   = Some (storeRed, hoveringRect)"
  by (simp add: setElementHoverStl_def hover_eval storeRed_def hoveringRect_def rect0_def fun_eq_iff)

section \<open>Idempotence, the two triggers, and the default paint\<close>

text \<open>
  C2: \<^verbatim>\<open>doSingleEnterHover\<close> twice is \<^verbatim>\<open>doSingleEnterHover\<close> once (same store, same
  element, so same live style, snapshot and \<^verbatim>\<open>z2\<close>). On a leaf element the pointer
  trigger followed by the emphasis trigger, and the emphasis trigger followed by the pointer
  trigger, both give what one \<^verbatim>\<open>doSingleEnterHover\<close> gives, with the emphasis flag set:
  the snapshot is taken once and \<^verbatim>\<open>z2\<close> is raised once (one \<^verbatim>\<open>z2 += 1\<close> in
  double arithmetic, or none on the hover layer). Leaving emphasis then lowers it once (one
  \<^verbatim>\<open>z2 -= 1\<close>, or none on the hover layer), which for every integer of magnitude
  below \<^verbatim>\<open>2^53\<close> brings \<^verbatim>\<open>z2\<close> back to its value before: no increment is left
  behind.
\<close>

theorem hover_applied_once:
  "Option.bind (doSingleEnterHover lift s el) (\<lambda>(s1, el1). doSingleEnterHover lift s1 el1)
     = doSingleEnterHover lift s el
   \<and> (etype p \<noteq> ''group'' \<longrightarrow>
        Option.bind (onElementMouseOver lift e s (Element p cs)) (\<lambda>(s1, el1). enterEmphasis lift s1 el1)
          = map_option (\<lambda>(s1, p1). (s1, Element (p1\<lparr>isEmphasis := True\<rparr>) cs)) (doSingleEnterHover lift s p)
      \<and> Option.bind (enterEmphasis lift s (Element p cs)) (\<lambda>(s1, el1). onElementMouseOver lift e s1 el1)
          = map_option (\<lambda>(s1, p1). (s1, Element (p1\<lparr>isEmphasis := True\<rparr>) cs)) (doSingleEnterHover lift s p)
      \<and> (\<forall>s1 p1. doSingleEnterHover lift s p = Some (s1, p1) \<longrightarrow>
            z2 p1 = (if isHover p \<or> useHoverLayer p then z2 p else doubleAdd (z2 p) 1)
          \<and> (\<not> isHover p \<longrightarrow>
               leaveEmphasis s1 (Element (p1\<lparr>isEmphasis := True\<rparr>) cs)
                 = Some (s1, Element (doSingleLeaveHover (p1\<lparr>isEmphasis := False\<rparr>)) cs)
             \<and> z2 (doSingleLeaveHover (p1\<lparr>isEmphasis := False\<rparr>))
                 = (if useHoverLayer p then z2 p else doubleSub (doubleAdd (z2 p) 1) 1)
             \<and> (z2 p \<in> \<int> \<and> \<bar>z2 p\<bar> < 2 ^ 53 \<longrightarrow>
                  z2 (doSingleLeaveHover (p1\<lparr>isEmphasis := False\<rparr>)) = z2 p)
             \<and> \<not> isHover (doSingleLeaveHover (p1\<lparr>isEmphasis := False\<rparr>)))))"
proof (intro conjI impI allI)
  show "Option.bind (doSingleEnterHover lift s el) (\<lambda>(s1, el1). doSingleEnterHover lift s1 el1)
     = doSingleEnterHover lift s el"
    by (rule enter_twice)
next
  assume t: "etype p \<noteq> ''group''"
  show "Option.bind (onElementMouseOver lift e s (Element p cs)) (\<lambda>(s1, el1). enterEmphasis lift s1 el1)
          = map_option (\<lambda>(s1, p1). (s1, Element (p1\<lparr>isEmphasis := True\<rparr>) cs)) (doSingleEnterHover lift s p)"
    using over_then_emphasis[OF t, of lift e s cs] by (simp only: enterEmphasis_leaf[OF t])
next
  assume t: "etype p \<noteq> ''group''"
  show "Option.bind (enterEmphasis lift s (Element p cs)) (\<lambda>(s1, el1). onElementMouseOver lift e s1 el1)
          = map_option (\<lambda>(s1, p1). (s1, Element (p1\<lparr>isEmphasis := True\<rparr>) cs)) (doSingleEnterHover lift s p)"
    using emphasis_then_over[OF t, of lift s cs e] by (simp only: enterEmphasis_leaf[OF t])
next
  fix s1 p1
  assume "doSingleEnterHover lift s p = Some (s1, p1)"
  then show "z2 p1 = (if isHover p \<or> useHoverLayer p then z2 p else doubleAdd (z2 p) 1)"
    by (rule doSingleEnterHover_fields(7))
next
  fix s1 p1
  assume t: "etype p \<noteq> ''group''" and e: "doSingleEnterHover lift s p = Some (s1, p1)"
  have "etype p1 = etype p" using e by (rule doSingleEnterHover_fields(2))
  then show "leaveEmphasis s1 (Element (p1\<lparr>isEmphasis := True\<rparr>) cs)
                 = Some (s1, Element (doSingleLeaveHover (p1\<lparr>isEmphasis := False\<rparr>)) cs)"
    using t by (simp add: leaveEmphasis_leaf)
next
  fix s1 p1
  assume e: "doSingleEnterHover lift s p = Some (s1, p1)" and n: "\<not> isHover p"
  show "z2 (doSingleLeaveHover (p1\<lparr>isEmphasis := False\<rparr>))
          = (if useHoverLayer p then z2 p else doubleSub (doubleAdd (z2 p) 1) 1)"
    using n doSingleEnterHover_fields(1,3,7)[OF e]
    by (simp add: doSingleLeaveHover_fields)
next
  fix s1 p1
  assume e: "doSingleEnterHover lift s p = Some (s1, p1)" and n: "\<not> isHover p"
    and i: "z2 p \<in> \<int> \<and> \<bar>z2 p\<bar> < 2 ^ 53"
  have "z2 (doSingleLeaveHover (p1\<lparr>isEmphasis := False\<rparr>))
          = (if useHoverLayer p then z2 p else doubleSub (doubleAdd (z2 p) 1) 1)"
    using n doSingleEnterHover_fields(1,3,7)[OF e]
    by (simp add: doSingleLeaveHover_fields)
  then show "z2 (doSingleLeaveHover (p1\<lparr>isEmphasis := False\<rparr>)) = z2 p"
    using i double_round_trip[of "z2 p"] by simp
next
  fix s1 p1
  show "\<not> isHover (doSingleLeaveHover (p1\<lparr>isEmphasis := False\<rparr>))"
    by (simp add: doSingleLeaveHover_fields)
qed

text \<open>
  C3: while \<^verbatim>\<open>__isEmphasis\<close> is set, \<^verbatim>\<open>onElementMouseOver\<close> and
  \<^verbatim>\<open>onElementMouseOut\<close> return the store and the element (a leaf or a group) unchanged.
  \<^verbatim>\<open>enterEmphasis\<close> takes no event and reads no touch flag: on a leaf it is
  \<^verbatim>\<open>doSingleEnterHover\<close> with the emphasis flag set, and where it returns the element is
  in hover presentation and emphasised. \<^verbatim>\<open>leaveEmphasis\<close> on a leaf always returns, and
  leaves the element neither emphasised nor in hover presentation, whatever the pointer did
  before.
\<close>

theorem emphasis_masks_pointer:
  "(isEmphasis (props this) \<longrightarrow>
      onElementMouseOver lift e s this = Some (s, this) \<and> onElementMouseOut e s this = Some (s, this))
   \<and> (etype p \<noteq> ''group'' \<longrightarrow>
        enterEmphasis lift s (Element p cs)
          = map_option (\<lambda>(s1, p1). (s1, Element (p1\<lparr>isEmphasis := True\<rparr>) cs)) (doSingleEnterHover lift s p)
      \<and> (\<forall>s1 el1. enterEmphasis lift s (Element p cs) = Some (s1, el1) \<longrightarrow>
            isHover (props el1) \<and> isEmphasis (props el1))
      \<and> leaveEmphasis s (Element p cs) = Some (s, Element (doSingleLeaveHover (p\<lparr>isEmphasis := False\<rparr>)) cs)
      \<and> \<not> isHover (doSingleLeaveHover (p\<lparr>isEmphasis := False\<rparr>))
      \<and> \<not> isEmphasis (doSingleLeaveHover (p\<lparr>isEmphasis := False\<rparr>)))"
proof (intro conjI impI allI)
  assume "isEmphasis (props this)"
  then show "onElementMouseOver lift e s this = Some (s, this)" by (rule over_emphasised)
next
  assume "isEmphasis (props this)"
  then show "onElementMouseOut e s this = Some (s, this)" by (rule out_emphasised)
next
  assume "etype p \<noteq> ''group''"
  then show "enterEmphasis lift s (Element p cs)
          = map_option (\<lambda>(s1, p1). (s1, Element (p1\<lparr>isEmphasis := True\<rparr>) cs)) (doSingleEnterHover lift s p)"
    by (rule enterEmphasis_leaf)
next
  fix s1 el1
  assume t: "etype p \<noteq> ''group''" and e: "enterEmphasis lift s (Element p cs) = Some (s1, el1)"
  from e obtain p1 where d: "doSingleEnterHover lift s p = Some (s1, p1)"
    and el1: "el1 = Element (p1\<lparr>isEmphasis := True\<rparr>) cs"
    unfolding enterEmphasis_leaf[OF t] by auto
  show "isHover (props el1)" using doSingleEnterHover_fields(1)[OF d] by (simp add: el1)
  show "isEmphasis (props el1)" by (simp add: el1)
next
  assume "etype p \<noteq> ''group''"
  then show "leaveEmphasis s (Element p cs) = Some (s, Element (doSingleLeaveHover (p\<lparr>isEmphasis := False\<rparr>)) cs)"
    by (rule leaveEmphasis_leaf)
next
  show "\<not> isHover (doSingleLeaveHover (p\<lparr>isEmphasis := False\<rparr>))"
    by (simp add: doSingleLeaveHover_fields)
  show "\<not> isEmphasis (doSingleLeaveHover (p\<lparr>isEmphasis := False\<rparr>))"
    by (simp add: doSingleLeaveHover_fields)
qed


lemma pendingRect_enter:
  "\<exists>s1 p1. doSingleEnterHover liftSample store0 pendingRect = Some (s1, p1)"
  by (simp add: doSingleEnterHover_eq cacheElementStl_eq pendingRect_def rect0_def)

text \<open>Both triggers on the rectangle with the pending empty delta.\<close>

theorem hover_applied_once_witness:
  "etype pendingRect \<noteq> ''group'' \<and> \<not> isHover pendingRect
   \<and> Option.bind (onElementMouseOver liftSample touchEvent store0 (Element pendingRect []))
        (\<lambda>(s1, el1). enterEmphasis liftSample s1 el1)
       = map_option (\<lambda>(s1, p1). (s1, Element (p1\<lparr>isEmphasis := True\<rparr>) []))
           (doSingleEnterHover liftSample store0 pendingRect)
   \<and> (\<exists>s1 p1. doSingleEnterHover liftSample store0 pendingRect = Some (s1, p1)
         \<and> z2 p1 = (if isHover pendingRect \<or> useHoverLayer pendingRect then z2 pendingRect
                     else doubleAdd (z2 pendingRect) 1)
         \<and> z2 pendingRect \<in> \<int> \<and> \<bar>z2 pendingRect\<bar> < 2 ^ 53
         \<and> z2 (doSingleLeaveHover (p1\<lparr>isEmphasis := False\<rparr>)) = z2 pendingRect)"
proof -
  have t: "etype pendingRect \<noteq> ''group''" and n: "\<not> isHover pendingRect"
    by (simp_all add: pendingRect_def rect0_def)
  obtain s1 p1 where d: "doSingleEnterHover liftSample store0 pendingRect = Some (s1, p1)"
    using pendingRect_enter by blast
  note th = hover_applied_once[of liftSample store0 pendingRect pendingRect touchEvent "[]"]
  from th t have a: "Option.bind (onElementMouseOver liftSample touchEvent store0 (Element pendingRect []))
        (\<lambda>(s1, el1). enterEmphasis liftSample s1 el1)
       = map_option (\<lambda>(s1, p1). (s1, Element (p1\<lparr>isEmphasis := True\<rparr>) []))
           (doSingleEnterHover liftSample store0 pendingRect)"
    by blast
  from th t d have b: "z2 p1 = (if isHover pendingRect \<or> useHoverLayer pendingRect then z2 pendingRect
                     else doubleAdd (z2 pendingRect) 1)"
    by blast
  have i: "z2 pendingRect \<in> \<int> \<and> \<bar>z2 pendingRect\<bar> < 2 ^ 53"
    by (simp add: pendingRect_def rect0_def)
  from th t d n i have c: "z2 (doSingleLeaveHover (p1\<lparr>isEmphasis := False\<rparr>)) = z2 pendingRect"
    by blast
  show ?thesis using t n a b c d i by blast
qed

text \<open>The pointer handlers on the emphasised rectangle, and emphasis on the plain one.\<close>

theorem emphasis_masks_pointer_witness:
  "isEmphasis (props (Element (pendingRect\<lparr>isEmphasis := True\<rparr>) []))
   \<and> onElementMouseOver liftSample touchEvent store0 (Element (pendingRect\<lparr>isEmphasis := True\<rparr>) [])
       = Some (store0, Element (pendingRect\<lparr>isEmphasis := True\<rparr>) [])
   \<and> onElementMouseOut touchEvent store0 (Element (pendingRect\<lparr>isEmphasis := True\<rparr>) [])
       = Some (store0, Element (pendingRect\<lparr>isEmphasis := True\<rparr>) [])
   \<and> etype pendingRect \<noteq> ''group''
   \<and> leaveEmphasis store0 (Element pendingRect [])
       = Some (store0, Element (doSingleLeaveHover (pendingRect\<lparr>isEmphasis := False\<rparr>)) [])
   \<and> (\<exists>s1 el1. enterEmphasis liftSample store0 (Element pendingRect []) = Some (s1, el1)
         \<and> isHover (props el1) \<and> isEmphasis (props el1))"
proof -
  have e: "isEmphasis (props (Element (pendingRect\<lparr>isEmphasis := True\<rparr>) []))" by simp
  have t: "etype pendingRect \<noteq> ''group''" by (simp add: pendingRect_def rect0_def)
  obtain s1 p1 where d: "doSingleEnterHover liftSample store0 pendingRect = Some (s1, p1)"
    using pendingRect_enter by blast
  have ee: "enterEmphasis liftSample store0 (Element pendingRect [])
              = Some (s1, Element (p1\<lparr>isEmphasis := True\<rparr>) [])"
    by (simp add: enterEmphasis_leaf[OF t] d)
  note th1 = emphasis_masks_pointer[of "Element (pendingRect\<lparr>isEmphasis := True\<rparr>) []"
      liftSample touchEvent store0 pendingRect "[]"]
  from th1 e have a: "onElementMouseOver liftSample touchEvent store0 (Element (pendingRect\<lparr>isEmphasis := True\<rparr>) [])
       = Some (store0, Element (pendingRect\<lparr>isEmphasis := True\<rparr>) [])"
    and b: "onElementMouseOut touchEvent store0 (Element (pendingRect\<lparr>isEmphasis := True\<rparr>) [])
       = Some (store0, Element (pendingRect\<lparr>isEmphasis := True\<rparr>) [])"
    by blast+
  from th1 t have c: "leaveEmphasis store0 (Element pendingRect [])
       = Some (store0, Element (doSingleLeaveHover (pendingRect\<lparr>isEmphasis := False\<rparr>)) [])"
    by blast
  from th1 t ee have f: "isHover (props (Element (p1\<lparr>isEmphasis := True\<rparr>) []))
      \<and> isEmphasis (props (Element (p1\<lparr>isEmphasis := True\<rparr>) []))"
    by blast
  show ?thesis using e a b t c ee f by blast
qed

text \<open>
  When \<^verbatim>\<open>cacheElementStl\<close> runs on a pending delta, the delta's fill afterwards is
  the fill it holds at that moment if that is truthy (the element's own override, the
  caller's value, or what an earlier capture through the same object left),
  otherwise \<^verbatim>\<open>liftColor\<close> of the live fill if the live fill is paintable (not null,
  not \<^verbatim>\<open>'none'\<close>), otherwise null; the same for stroke. \<^verbatim>\<open>liftColor\<close> of a colour
  string is \<^verbatim>\<open>colorTool.lift(color, -0.1)\<close>. For the live style
  \<^verbatim>\<open>{fill: '#336699', stroke: 'none'}\<close> and the empty delta, enter sets the live fill
  to the lifted \<^verbatim>\<open>'#336699'\<close> (when the colour tool returns one), the delta's stroke stays
  null and the live stroke stays \<^verbatim>\<open>'none'\<close>; leave puts the fill back to
  \<^verbatim>\<open>'#336699'\<close>.
\<close>

lemma default_paint_single:
  "(hoverStlDirty el \<and> hoverStl el = Some a \<longrightarrow>
      (\<exists>s' el'. cacheElementStl lift s el = Some (s', el')
         \<and> getProp (objs s' a) ''fill'' =
             (if truthy (getProp (objs s a) ''fill'') then getProp (objs s a) ''fill''
              else if hasFillOrStroke (getProp (style el) ''fill'')
                   then liftColor lift (getProp (style el) ''fill'') else Null)
         \<and> getProp (objs s' a) ''stroke'' =
             (if truthy (getProp (objs s a) ''stroke'') then getProp (objs s a) ''stroke''
              else if hasFillOrStroke (getProp (style el) ''stroke'')
                   then liftColor lift (getProp (style el) ''stroke'') else Null)))
   \<and> liftColor lift (Str c) = lift c (- (1 / 10))
   \<and> (\<not> isNullish (lift ''#336699'' (- (1 / 10))) \<longrightarrow>
        (\<exists>s1 el1 s2 el2. setElementHoverStl lift (Some 0) store0 rect0 = Some (s1, el1)
           \<and> doSingleEnterHover lift s1 el1 = Some (s2, el2)
           \<and> getProp (style el2) ''fill'' = lift ''#336699'' (- (1 / 10))
           \<and> getProp (style el2) ''stroke'' = Str ''none''
           \<and> getProp (objs s2 0) ''stroke'' = Null
           \<and> getProp (style (doSingleLeaveHover el2)) ''fill'' = Str ''#336699''
           \<and> getProp (style (doSingleLeaveHover el2)) ''stroke'' = Str ''none''))"
proof (intro conjI impI)
  assume "hoverStlDirty el \<and> hoverStl el = Some a"
  then show "\<exists>s' el'. cacheElementStl lift s el = Some (s', el')
         \<and> getProp (objs s' a) ''fill'' =
             (if truthy (getProp (objs s a) ''fill'') then getProp (objs s a) ''fill''
              else if hasFillOrStroke (getProp (style el) ''fill'')
                   then liftColor lift (getProp (style el) ''fill'') else Null)
         \<and> getProp (objs s' a) ''stroke'' =
             (if truthy (getProp (objs s a) ''stroke'') then getProp (objs s a) ''stroke''
              else if hasFillOrStroke (getProp (style el) ''stroke'')
                   then liftColor lift (getProp (style el) ''stroke'') else Null)"
    by (simp add: cacheElementStl_eq getProp_cachedHoverStyle jsOr_def defaultHover_def)
next
  show "liftColor lift (Str c) = lift c (- (1 / 10))" by (simp add: liftColor_def)
next
  assume l: "\<not> isNullish (lift ''#336699'' (- (1 / 10)))"
  have c: "setElementHoverStl lift (Some 0) store0 rect0 = Some (store0, pendingRect)"
    by (simp add: setElementHoverStl_def pendingRect_def rect0_def)
  define hs where "hs = cachedHoverStyle lift (style pendingRect) (objs store0 0)"
  define s2 where "s2 = store0\<lparr>objs := (objs store0)(0 := hs)\<rparr>"
  define el1 where "el1 = pendingRect\<lparr>normalStl := Some (cachedNormalStyle (style pendingRect) hs),
                      hoverStlDirty := False\<rparr>"
  have d: "doSingleEnterHover lift store0 pendingRect = Some (s2, applyHover s2 el1)"
    by (simp add: doSingleEnterHover_eq cacheElementStl_eq hs_def s2_def el1_def pendingRect_def rect0_def)
  have sp: "getProp (style pendingRect) ''fill'' = Str ''#336699''"
    "getProp (style pendingRect) ''stroke'' = Str ''none''"
    by (simp_all add: pendingRect_def rect0_def getProp_def)
  have hf: "getProp hs ''fill'' = lift ''#336699'' (- (1 / 10))" and hst: "getProp hs ''stroke'' = Null"
    by (simp_all add: hs_def getProp_cachedHoverStyle jsOr_def defaultHover_def hasFillOrStroke_def
        liftColor_def sp store0_def getProp_Nil)
  have f1: "useHoverLayer el1 = False" "hoverStl el1 = Some 0" "objs s2 0 = hs"
    "style el1 = style pendingRect" "normalStl el1 = Some (cachedNormalStyle (style pendingRect) hs)"
    by (simp_all add: el1_def s2_def pendingRect_def rect0_def)
  have r1: "getProp (style (applyHover s2 el1)) ''fill'' = lift ''#336699'' (- (1 / 10))"
    "getProp (style (applyHover s2 el1)) ''stroke'' = Str ''none''"
    using l by (simp_all add: applyHover_fields f1 getProp_extendFrom hf hst sp)
  have r2: "getProp (style (doSingleLeaveHover (applyHover s2 el1))) ''fill'' = Str ''#336699''"
    "getProp (style (doSingleLeaveHover (applyHover s2 el1))) ''stroke'' = Str ''none''"
    using l by (simp_all add: style_doSingleLeaveHover applyHover_fields f1 getProp_extendFrom hf hst sp
          ownKeys_cachedNormalStyle getProp_cachedNormalStyle)
  show "\<exists>s1 el1 s2 el2. setElementHoverStl lift (Some 0) store0 rect0 = Some (s1, el1)
           \<and> doSingleEnterHover lift s1 el1 = Some (s2, el2)
           \<and> getProp (style el2) ''fill'' = lift ''#336699'' (- (1 / 10))
           \<and> getProp (style el2) ''stroke'' = Str ''none''
           \<and> getProp (objs s2 0) ''stroke'' = Null
           \<and> getProp (style (doSingleLeaveHover el2)) ''fill'' = Str ''#336699''
           \<and> getProp (style (doSingleLeaveHover el2)) ''stroke'' = Str ''none''"
    apply (rule exI[of _ store0])
    apply (rule exI[of _ pendingRect])
    apply (rule exI[of _ s2])
    apply (rule exI[of _ "applyHover s2 el1"])
    by (simp add: c d r1 r2 f1 hst)
qed


text \<open>
  C4: the default hover paint is computed from the element's own live paint, but it is
  written into the delta object, and \<^verbatim>\<open>setHoverStyle\<close> hands one delta object to every
  leaf of a group. On the group of the painted rectangle and the rectangle without paint,
  configured with the empty delta, the emphasis trigger paints both children with the lifted
  fill of the first: the second, whose live fill \<^verbatim>\<open>'none'\<close> is not paintable, does not
  stay unset. Configured alone with an empty delta, the rectangle without paint keeps its
  fill \<^verbatim>\<open>'none'\<close> and the delta's fill is null.
\<close>

theorem shared_delta_paints_sibling:
  "configureThenEmphasis store0 group2
     = Some ([Str ''lifted #336699'', Str ''lifted #336699''],
             [(''fill'', Str ''lifted #336699''), (''stroke'', Null)])
   \<and> map (\<lambda>q. getProp (style q) ''fill'') (leafProps [group2]) = [Str ''#336699'', Str ''none'']
   \<and> objs store0 0 = []
   \<and> configureThenEmphasis store0 (Element noneRect [])
     = Some ([Str ''none''], [(''fill'', Null), (''stroke'', Null)])"
  by (simp add: configureThenEmphasis_def group2_def noneRect_def rect0_def store0_def
      setElementHoverStl_def enterEmphasis.simps doEnterHover.simps hover_eval on_def
      liftSample_def)

section \<open>What the snapshot step writes\<close>

text \<open>
  C10 (as amended): where \<^verbatim>\<open>cacheElementStl\<close> returns, the element differs from the one
  before in the snapshot \<^verbatim>\<open>__normalStl\<close> and the dirty bit at most; the rendered
  style is the same. In the store, only the pending hover delta of the element can change,
  and of that object only the properties \<^verbatim>\<open>fill\<close> and \<^verbatim>\<open>stroke\<close>.
\<close>

theorem cacheElementStl_writes:
  assumes "cacheElementStl lift s el = Some (s', el')"
  shows "style el' = style el
     \<and> el' = el\<lparr>normalStl := normalStl el', hoverStlDirty := False\<rparr>
     \<and> fresh s' = fresh s
     \<and> (\<forall>b. hoverStl el \<noteq> Some b \<longrightarrow> objs s' b = objs s b)
     \<and> (\<forall>b k. k \<noteq> ''fill'' \<and> k \<noteq> ''stroke'' \<longrightarrow> getProp (objs s' b) k = getProp (objs s b) k)"
proof (cases "hoverStlDirty el")
  case False
  then have "s' = s" "el' = el" using assms by (simp_all add: cacheElementStl_eq)
  then show ?thesis using False by simp
next
  case True
  then obtain a where a: "hoverStl el = Some a"
    and s': "s' = s\<lparr>objs := (objs s)(a := cachedHoverStyle lift (style el) (objs s a))\<rparr>"
    and el': "el' = el\<lparr>normalStl := Some (cachedNormalStyle (style el)
                                            (cachedHoverStyle lift (style el) (objs s a))),
                      hoverStlDirty := False\<rparr>"
    using assms by (auto simp: cacheElementStl_eq split: option.splits)
  show ?thesis
    by (simp add: a s' el' getProp_cachedHoverStyle)
qed

text \<open>The snapshot step on the rectangle with the pending empty delta.\<close>

theorem cacheElementStl_writes_witness:
  "\<exists>s' el'. cacheElementStl liftSample store0 pendingRect = Some (s', el')
     \<and> style el' = style pendingRect \<and> fresh s' = fresh store0
     \<and> getProp (objs s' 0) ''opacity'' = getProp (objs store0 0) ''opacity''"
proof -
  obtain s' el' where c: "cacheElementStl liftSample store0 pendingRect = Some (s', el')"
    by (simp add: cacheElementStl_eq pendingRect_def rect0_def)
  from cacheElementStl_writes[OF c] have "style el' = style pendingRect" "fresh s' = fresh store0"
    "getProp (objs s' 0) ''opacity'' = getProp (objs store0 0) ''opacity''"
    by simp_all
  then show ?thesis using c by blast
qed

text \<open>
  C10 as stated fails: the caller's delta \<^verbatim>\<open>{}\<close> at address 0 is
  \<^verbatim>\<open>{fill: <lifted '#336699'>, stroke: null}\<close> after the snapshot step.
\<close>

theorem cacheElementStl_writes_counterexample:
  "map_option (\<lambda>(s', el'). objs s' 0) (cacheElementStl liftSample store0 pendingRect)
     = Some [(''fill'', Str ''lifted #336699''), (''stroke'', Null)]
   \<and> objs store0 0 = [] \<and> hoverStl pendingRect = Some 0"
  by (simp add: hover_eval store0_def pendingRect_def rect0_def liftSample_def)

section \<open>Configuration of groups\<close>

lemma traverse_preserves:
  assumes "\<And>s p. \<exists>s' p'. cb s p = Some (s', p') \<and> etype p' = etype p \<and> handlers p' = handlers p
                       \<and> (etype p \<noteq> ''group'' \<longrightarrow> Q p')"
  shows "\<exists>s' cs'. traverse cb s cs = Some (s', cs')
           \<and> map handlers (allProps cs') = map handlers (allProps cs)
           \<and> map etype (allProps cs') = map etype (allProps cs)
           \<and> length (leafProps cs') = length (leafProps cs)
           \<and> (\<forall>q \<in> set (leafProps cs'). Q q)"
  using assms
proof (induction cb s cs rule: traverse.induct)
  case (1 cb s)
  then show ?case by simp
next
  case (2 cb s p cs rest)
  from "2.prems"[of s p] obtain s1 p1 where c: "cb s p = Some (s1, p1)"
    and t: "etype p1 = etype p" and h: "handlers p1 = handlers p"
    and q: "etype p \<noteq> ''group'' \<longrightarrow> Q p1"
    by blast
  have "\<exists>s2 cs2. (if etype p1 = ''group'' then traverse cb s1 cs else Some (s1, cs)) = Some (s2, cs2)
           \<and> map handlers (allProps cs2) = map handlers (allProps cs)
           \<and> map etype (allProps cs2) = map etype (allProps cs)
           \<and> (etype p1 = ''group'' \<longrightarrow> length (leafProps cs2) = length (leafProps cs)
                 \<and> (\<forall>q \<in> set (leafProps cs2). Q q))"
  proof (cases "etype p1 = ''group''")
    case True
    from "2.IH"(1)[OF c refl True "2.prems"] show ?thesis using True by simp
  next
    case False
    then show ?thesis by simp
  qed
  then obtain s2 cs2 where
    i: "(if etype p1 = ''group'' then traverse cb s1 cs else Some (s1, cs)) = Some (s2, cs2)"
    and i1: "map handlers (allProps cs2) = map handlers (allProps cs)"
    and i2: "map etype (allProps cs2) = map etype (allProps cs)"
    and i3: "etype p1 = ''group'' \<longrightarrow> length (leafProps cs2) = length (leafProps cs)
                 \<and> (\<forall>q \<in> set (leafProps cs2). Q q)"
    by blast
  from "2.IH"(2)[OF c refl i refl "2.prems"] obtain s3 rest3 where
    r: "traverse cb s2 rest = Some (s3, rest3)"
    and r1: "map handlers (allProps rest3) = map handlers (allProps rest)"
    and r2: "map etype (allProps rest3) = map etype (allProps rest)"
    and r3: "length (leafProps rest3) = length (leafProps rest)"
    and r4: "\<forall>q \<in> set (leafProps rest3). Q q"
    by blast
  have e: "traverse cb s (Element p cs # rest) = Some (s3, Element p1 cs2 # rest3)"
    using c i r by simp
  show ?case
    unfolding e using t h q i1 i2 i3 r1 r2 r3 r4 by auto
qed


lemma setElementHoverStl_total:
  "\<exists>s' p'. setElementHoverStl lift h s p = Some (s', p') \<and> etype p' = etype p
      \<and> handlers p' = handlers p \<and> hoverStl p' \<noteq> None"
  by (cases "hoverStyle p"; cases h; cases "isHover p")
     (simp_all add: setElementHoverStl_def cacheElementStl_eq Let_def)

lemma handlers_on:
  "handlers (on ev h q) = (if (ev, h) \<in> set (handlers q) then handlers q else handlers q @ [(ev, h)])"
  "etype (on ev h q) = etype q"
  by (simp_all add: on_def)

lemma count_on:
  "count_list (handlers (on ev h q)) x
     = (if x = (ev, h) then max 1 (count_list (handlers q) x) else count_list (handlers q) x)"
proof (cases "(ev, h) \<in> set (handlers q)")
  case True
  then have "0 < count_list (handlers q) (ev, h)"
    using count_list_0_iff[of "handlers q" "(ev, h)"] by auto
  then show ?thesis using True by (auto simp: handlers_on)
next
  case False
  then have "count_list (handlers q) (ev, h) = 0"
    using count_list_0_iff[of "handlers q" "(ev, h)"] by auto
  then show ?thesis using False by (auto simp: handlers_on)
qed

lemma count_subscribe:
  "count_list (handlers (subscribe q)) x
     = (if x \<in> {(''mouseover'', OnElementMouseOver), (''mouseout'', OnElementMouseOut),
                 (''emphasis'', EnterEmphasis), (''normal'', LeaveEmphasis)}
        then max 1 (count_list (handlers q) x) else count_list (handlers q) x)"
  by (simp add: subscribe_def count_on)

lemma handlers_subscribe_cong:
  "handlers q1 = handlers q2 \<Longrightarrow> handlers (subscribe q1) = handlers (subscribe q2)"
  by (simp add: subscribe_def handlers_on)

lemma handlers_subscribe_idem:
  "handlers (subscribe (subscribe q)) = handlers (subscribe q)"
  by (simp add: subscribe_def handlers_on)

lemma handlers_subscribe_Nil:
  "handlers q = [] \<Longrightarrow> handlers (subscribe q) =
     [(''mouseover'', OnElementMouseOver), (''mouseout'', OnElementMouseOut),
      (''emphasis'', EnterEmphasis), (''normal'', LeaveEmphasis)]"
  by (simp add: subscribe_def handlers_on)

lemma etype_subscribe: "etype (subscribe q) = etype q"
  by (simp add: subscribe_def handlers_on)

lemma setHoverStyle_result:
  "\<exists>s' p' cs'. setHoverStyle lift h opt s (Element p cs) = Some (s', Element p' cs')
      \<and> etype p' = etype p \<and> handlers p' = handlers (subscribe p)
      \<and> map handlers (allProps cs') = map handlers (allProps cs)
      \<and> map etype (allProps cs') = map etype (allProps cs)
      \<and> (etype p = ''group'' \<longrightarrow> length (leafProps cs') = length (leafProps cs)
            \<and> (\<forall>q \<in> set (leafProps cs'). hoverStl q \<noteq> None))"
proof -
  define p0 where "p0 = p\<lparr>hoverSilentOnTouch :=
                   (case opt of None \<Rightarrow> False | Some ob \<Rightarrow> opt_hoverSilentOnTouch ob)\<rparr>"
  have p0: "etype p0 = etype p" "handlers p0 = handlers p" by (simp_all add: p0_def)
  show ?thesis
  proof (cases "etype p = ''group''")
    case True
    define cb where "cb = (\<lambda>s' child. if etype child \<noteq> ''group''
                                       then setElementHoverStl lift h s' child
                                       else Some (s', child))"
    have "\<exists>s' p'. cb s p = Some (s', p') \<and> etype p' = etype p \<and> handlers p' = handlers p
                       \<and> (etype p \<noteq> ''group'' \<longrightarrow> hoverStl p' \<noteq> None)" for s p
      using setElementHoverStl_total[of lift h s p] by (auto simp: cb_def)
    from traverse_preserves[of cb "\<lambda>q. hoverStl q \<noteq> None", OF this, of s cs]
    obtain s' cs' where tr: "traverse cb s cs = Some (s', cs')"
      and a: "map handlers (allProps cs') = map handlers (allProps cs)"
        "map etype (allProps cs') = map etype (allProps cs)"
        "length (leafProps cs') = length (leafProps cs)"
        "\<forall>q \<in> set (leafProps cs'). hoverStl q \<noteq> None"
      by blast
    have "setHoverStyle lift h opt s (Element p cs) = Some (s', Element (subscribe p0) cs')"
      using True tr p0(1) by (simp add: p0_def[symmetric] cb_def[symmetric] subscribe_def Let_def)
    then show ?thesis
      using a p0 handlers_subscribe_cong[of p0 p] by (simp add: etype_subscribe)
  next
    case False
    from setElementHoverStl_total[of lift h s p0] obtain s1 p1 where
      c: "setElementHoverStl lift h s p0 = Some (s1, p1)" and t: "etype p1 = etype p0"
      and hh: "handlers p1 = handlers p0"
      by blast
    have "setHoverStyle lift h opt s (Element p cs) = Some (s1, Element (subscribe p1) cs)"
      using False c p0(1) by (simp add: p0_def[symmetric] subscribe_def Let_def)
    then show ?thesis
      using False t hh p0 handlers_subscribe_cong[of p1 p] by (simp add: etype_subscribe)
  qed
qed


lemma setHoverStyleTimes_result:
  "\<exists>s' p' cs'. setHoverStyleTimes (Suc n) lift h opt s (Element p cs) = Some (s', Element p' cs')
      \<and> etype p' = etype p \<and> handlers p' = handlers (subscribe p)
      \<and> map handlers (allProps cs') = map handlers (allProps cs)
      \<and> map etype (allProps cs') = map etype (allProps cs)
      \<and> (etype p = ''group'' \<longrightarrow> length (leafProps cs') = length (leafProps cs)
            \<and> (\<forall>q \<in> set (leafProps cs'). hoverStl q \<noteq> None))"
proof (induction n arbitrary: s p cs)
  case 0
  from setHoverStyle_result[of lift h opt s p cs] obtain s' p' cs' where
    r: "setHoverStyle lift h opt s (Element p cs) = Some (s', Element p' cs')"
    and rest: "etype p' = etype p \<and> handlers p' = handlers (subscribe p)
      \<and> map handlers (allProps cs') = map handlers (allProps cs)
      \<and> map etype (allProps cs') = map etype (allProps cs)
      \<and> (etype p = ''group'' \<longrightarrow> length (leafProps cs') = length (leafProps cs)
            \<and> (\<forall>q \<in> set (leafProps cs'). hoverStl q \<noteq> None))"
    by blast
  have "setHoverStyleTimes (Suc 0) lift h opt s (Element p cs) = Some (s', Element p' cs')"
    using r by simp
  then show ?case using rest by blast
next
  case (Suc n)
  from setHoverStyle_result[of lift h opt s p cs] obtain s1 p1 cs1 where
    r: "setHoverStyle lift h opt s (Element p cs) = Some (s1, Element p1 cs1)"
    and t1: "etype p1 = etype p" and h1: "handlers p1 = handlers (subscribe p)"
    and a1: "map handlers (allProps cs1) = map handlers (allProps cs)"
    and l1: "etype p = ''group'' \<longrightarrow> length (leafProps cs1) = length (leafProps cs)"
    by blast
  from Suc.IH[of s1 p1 cs1] obtain s' p' cs' where
    r2: "setHoverStyleTimes (Suc n) lift h opt s1 (Element p1 cs1) = Some (s', Element p' cs')"
    and t2: "etype p' = etype p1" and h2: "handlers p' = handlers (subscribe p1)"
    and a2: "map handlers (allProps cs') = map handlers (allProps cs1)"
    and e2: "map etype (allProps cs') = map etype (allProps cs1)"
    and l2: "etype p1 = ''group'' \<longrightarrow> length (leafProps cs') = length (leafProps cs1)
            \<and> (\<forall>q \<in> set (leafProps cs'). hoverStl q \<noteq> None)"
    by blast
  have e: "setHoverStyleTimes (Suc (Suc n)) lift h opt s (Element p cs) = Some (s', Element p' cs')"
    using r r2 by simp
  have hh: "handlers p' = handlers (subscribe p)"
    using h2 handlers_subscribe_cong[OF h1] by (simp add: handlers_subscribe_idem)
  from setHoverStyle_result[of lift h opt s p cs] r
  have e1: "map etype (allProps cs1) = map etype (allProps cs)" by auto
  show ?case
    unfolding e using t1 t2 hh a1 a2 e1 e2 l1 l2 by auto
qed

text \<open>
  C9 (as amended): any positive number of calls of \<^verbatim>\<open>setHoverStyle\<close> on an element
  returns, and leaves on that element itself (the container, when it is one) the
  subscriptions it had followed by those of the four handlers that were missing, so that
  each of the four is there once if it was there at most once before, and exactly the
  four in order if there were none. The subscriptions of every descendant are what they
  were: no descendant is subscribed. For a container, the non-container descendants are as
  many as before and each holds a hover delta.
\<close>

theorem setHoverStyle_subscribes:
  "\<exists>s' p' cs'. setHoverStyleTimes (Suc n) lift h opt s (Element p cs) = Some (s', Element p' cs')
      \<and> handlers p' = handlers (subscribe p)
      \<and> count_list (handlers p') (''mouseover'', OnElementMouseOver)
           = max 1 (count_list (handlers p) (''mouseover'', OnElementMouseOver))
      \<and> count_list (handlers p') (''mouseout'', OnElementMouseOut)
           = max 1 (count_list (handlers p) (''mouseout'', OnElementMouseOut))
      \<and> count_list (handlers p') (''emphasis'', EnterEmphasis)
           = max 1 (count_list (handlers p) (''emphasis'', EnterEmphasis))
      \<and> count_list (handlers p') (''normal'', LeaveEmphasis)
           = max 1 (count_list (handlers p) (''normal'', LeaveEmphasis))
      \<and> (handlers p = [] \<longrightarrow> handlers p' =
            [(''mouseover'', OnElementMouseOver), (''mouseout'', OnElementMouseOut),
             (''emphasis'', EnterEmphasis), (''normal'', LeaveEmphasis)])
      \<and> map handlers (allProps cs') = map handlers (allProps cs)
      \<and> (etype p = ''group'' \<longrightarrow> length (leafProps cs') = length (leafProps cs)
            \<and> (\<forall>q \<in> set (leafProps cs'). hoverStl q \<noteq> None))"
proof -
  from setHoverStyleTimes_result[of n lift h opt s p cs] obtain s' p' cs' where
    r: "setHoverStyleTimes (Suc n) lift h opt s (Element p cs) = Some (s', Element p' cs')"
    and hh: "handlers p' = handlers (subscribe p)"
    and a: "map handlers (allProps cs') = map handlers (allProps cs)"
    and l: "etype p = ''group'' \<longrightarrow> length (leafProps cs') = length (leafProps cs)
            \<and> (\<forall>q \<in> set (leafProps cs'). hoverStl q \<noteq> None)"
    by blast
  have c: "count_list (handlers p') (''mouseover'', OnElementMouseOver)
           = max 1 (count_list (handlers p) (''mouseover'', OnElementMouseOver))"
    "count_list (handlers p') (''mouseout'', OnElementMouseOut)
           = max 1 (count_list (handlers p) (''mouseout'', OnElementMouseOut))"
    "count_list (handlers p') (''emphasis'', EnterEmphasis)
           = max 1 (count_list (handlers p) (''emphasis'', EnterEmphasis))"
    "count_list (handlers p') (''normal'', LeaveEmphasis)
           = max 1 (count_list (handlers p) (''normal'', LeaveEmphasis))"
    by (simp_all add: hh count_subscribe)
  have n: "handlers p = [] \<longrightarrow> handlers p' =
            [(''mouseover'', OnElementMouseOver), (''mouseout'', OnElementMouseOut),
             (''emphasis'', EnterEmphasis), (''normal'', LeaveEmphasis)]"
    by (simp add: hh handlers_subscribe_Nil)
  show ?thesis
    apply (rule exI[of _ s'])
    apply (rule exI[of _ p'])
    apply (rule exI[of _ cs'])
    using r hh c n a l by simp
qed

text \<open>Two calls on the group with one rectangle.\<close>

theorem setHoverStyle_subscribes_witness:
  "etype (rect0\<lparr>etype := ''group''\<rparr>) = ''group'' \<and> handlers (rect0\<lparr>etype := ''group''\<rparr>) = []
   \<and> (\<exists>s' p' cs'. setHoverStyleTimes (Suc (Suc 0)) liftSample (Some 0) None store0 group0
                       = Some (s', Element p' cs')
        \<and> handlers p' = [(''mouseover'', OnElementMouseOver), (''mouseout'', OnElementMouseOut),
                          (''emphasis'', EnterEmphasis), (''normal'', LeaveEmphasis)]
        \<and> map handlers (allProps cs') = [[]]
        \<and> length (leafProps cs') = 1)"
proof -
  have g: "etype (rect0\<lparr>etype := ''group''\<rparr>) = ''group''" "handlers (rect0\<lparr>etype := ''group''\<rparr>) = []"
    by (simp_all add: rect0_def)
  have k: "map handlers (allProps [Element rect0 []]) = [[]]" "length (leafProps [Element rect0 []]) = 1"
    by (simp_all add: rect0_def)
  from setHoverStyle_subscribes[of "Suc 0" liftSample "Some 0" None store0
      "rect0\<lparr>etype := ''group''\<rparr>" "[Element rect0 []]"]
  show ?thesis
    using g k unfolding group0_def by auto
qed

text \<open>
  C9 as stated fails: after \<^verbatim>\<open>setHoverStyle\<close> on the group, the group holds the four
  subscriptions and its one non-container descendant holds none.
\<close>

theorem setHoverStyle_subscribes_counterexample:
  "map_option (\<lambda>(s', el'). (handlers (props el'), map handlers (leafProps (children el'))))
      (setHoverStyle liftSample (Some 0) None store0 group0)
     = Some ([(''mouseover'', OnElementMouseOver), (''mouseout'', OnElementMouseOut),
              (''emphasis'', EnterEmphasis), (''normal'', LeaveEmphasis)], [[]])"
  by (simp add: group0_def rect0_def setElementHoverStl_def on_def Let_def)

section \<open>Resolved token styles\<close>

lemma getProp_assign:
  "getProp (assign ob kvs) k = (case map_of (rev kvs) k of None \<Rightarrow> getProp ob k | Some v \<Rightarrow> v)"
proof (induction kvs arbitrary: ob)
  case Nil
  then show ?case by (simp add: assign_def)
next
  case (Cons kv kvs)
  obtain k' v' where kv: "kv = (k', v')" by (cases kv)
  have "assign ob (kv # kvs) = assign (setProp k' v' ob) kvs"
    by (simp add: assign_def kv)
  then show ?case
    using Cons.IH[of "setProp k' v' ob"]
    by (simp add: kv map_add_def getProp_setProp split: option.splits)
qed

lemma setTokenTextStyle_eq:
  "setTokenTextStyle ts m g0 opt noDefault isBlock =
     (case tokenPaint ts m (effectiveGlobal g0 noDefault) opt noDefault of
        None \<Rightarrow> None
      | Some (textFill, textStroke, textLineWidth) \<Rightarrow>
          Some (tokenResult ts m (effectiveGlobal g0 noDefault) opt isBlock textFill textStroke textLineWidth))"
  unfolding setTokenTextStyle_def tokenPaint_def effectiveGlobal_def tokenBase_def boxValues_def
    shadowValues_def tokenResult_def Let_def
  by (simp split: option.splits)


lemma setTokenTextStyle_SomeE:
  assumes "setTokenTextStyle ts m g0 opt noDefault isBlock = Some ts'"
  obtains textFill textStroke textLineWidth where
    "tokenPaint ts m (effectiveGlobal g0 noDefault) opt noDefault = Some (textFill, textStroke, textLineWidth)"
    "ts' = tokenResult ts m (effectiveGlobal g0 noDefault) opt isBlock textFill textStroke textLineWidth"
  using assms unfolding setTokenTextStyle_eq by (auto split: option.splits)

lemma setTokenTextStyle_box_written:
  assumes "setTokenTextStyle ts m g0 opt noDefault isBlock = Some ts'"
    and "\<not> isBlock \<or> \<not> disableBox opt"
  shows "\<forall>(k, v) \<in> set (boxValues m opt). getProp ts' k = v"
proof -
  from assms(1) obtain f s w where
    ts': "ts' = tokenResult ts m (effectiveGlobal g0 noDefault) opt isBlock f s w"
    by (rule setTokenTextStyle_SomeE)
  show ?thesis
    using assms(2) unfolding ts'
    by (simp add: tokenResult_def getProp_assign boxValues_def shadowValues_def)
qed

lemma setTokenTextStyle_box_kept:
  assumes "setTokenTextStyle ts m g0 opt noDefault isBlock = Some ts'"
    and "isBlock" "disableBox opt"
  shows "\<forall>(k, v) \<in> set (boxValues m opt). getProp ts' k = getProp ts k"
proof -
  from assms(1) obtain f s w where
    ts': "ts' = tokenResult ts m (effectiveGlobal g0 noDefault) opt isBlock f s w"
    by (rule setTokenTextStyle_SomeE)
  show ?thesis
    using assms(2,3) unfolding ts'
    by (simp add: tokenResult_def getProp_assign boxValues_def shadowValues_def tokenBase_def)
qed

lemma richLoop_tokens:
  assumes "richLoop names m g opt noDefault acc = Some r"
  shows "set (ownKeys r) = set (ownKeys acc) \<union> set names
     \<and> (\<forall>name \<in> set names. \<exists>tok.
            setTokenTextStyle [] (getModel m [''rich'', name]) g opt noDefault False = Some tok
          \<and> getProp r name = Obj tok)
     \<and> (\<forall>k. k \<notin> set names \<longrightarrow> getProp r k = getProp acc k)"
  using assms
proof (induction names arbitrary: acc)
  case Nil
  then show ?case by simp
next
  case (Cons name names)
  from Cons.prems obtain tok where
    t: "setTokenTextStyle [] (getModel m [''rich'', name]) g opt noDefault False = Some tok"
    and r: "richLoop names m g opt noDefault (setProp name (Obj tok) acc) = Some r"
    by (auto simp: Let_def split: option.splits)
  from Cons.IH[OF r] have
    k: "set (ownKeys r) = set (ownKeys (setProp name (Obj tok) acc)) \<union> set names"
    and a: "\<forall>name \<in> set names. \<exists>tok.
            setTokenTextStyle [] (getModel m [''rich'', name]) g opt noDefault False = Some tok
          \<and> getProp r name = Obj tok"
    and o: "\<forall>k. k \<notin> set names \<longrightarrow> getProp r k = getProp (setProp name (Obj tok) acc) k"
    by blast+
  have n: "\<exists>tok. setTokenTextStyle [] (getModel m [''rich'', name]) g opt noDefault False = Some tok
          \<and> getProp r name = Obj tok"
  proof (cases "name \<in> set names")
    case True
    then show ?thesis using a by blast
  next
    case False
    then have "getProp r name = Obj tok" using o by (simp add: getProp_setProp)
    then show ?thesis using t by blast
  qed
  show ?case
    using k a o n by (auto simp: set_ownKeys_setProp getProp_setProp)
qed

text \<open>
  C8 (as amended): where \<^verbatim>\<open>setTokenTextStyle\<close> returns, the nine box properties of the
  output are those read from the model, unless the node is the block and \<^verbatim>\<open>disableBox\<close>
  is set: then they are what the style held before. A rich-text token is resolved as a
  node that is not the block, so it receives its box properties whatever
  \<^verbatim>\<open>disableBox\<close> says.
\<close>

theorem box_properties_gate:
  "(setTokenTextStyle ts m g opt noDefault isBlock = Some ts' \<longrightarrow>
      (if isBlock \<and> disableBox opt
       then (\<forall>(k, v) \<in> set (boxValues m opt). getProp ts' k = getProp ts k)
       else (\<forall>(k, v) \<in> set (boxValues m opt). getProp ts' k = v)))
   \<and> (richLoop names m g opt noDefault acc = Some r \<longrightarrow>
        (\<forall>name \<in> set names. \<exists>tok.
            setTokenTextStyle [] (getModel m [''rich'', name]) g opt noDefault False = Some tok
          \<and> getProp r name = Obj tok
          \<and> (\<forall>(k, v) \<in> set (boxValues (getModel m [''rich'', name]) opt). getProp tok k = v)))"
proof (intro conjI impI)
  assume a: "setTokenTextStyle ts m g opt noDefault isBlock = Some ts'"
  show "if isBlock \<and> disableBox opt
       then (\<forall>(k, v) \<in> set (boxValues m opt). getProp ts' k = getProp ts k)
       else (\<forall>(k, v) \<in> set (boxValues m opt). getProp ts' k = v)"
  proof (cases "isBlock \<and> disableBox opt")
    case True
    then show ?thesis using setTokenTextStyle_box_kept[OF a] by auto
  next
    case False
    then have "\<not> isBlock \<or> \<not> disableBox opt" by simp
    from setTokenTextStyle_box_written[OF a this] show ?thesis using False by auto
  qed
next
  assume a: "richLoop names m g opt noDefault acc = Some r"
  show "\<forall>name \<in> set names. \<exists>tok.
            setTokenTextStyle [] (getModel m [''rich'', name]) g opt noDefault False = Some tok
          \<and> getProp r name = Obj tok
          \<and> (\<forall>(k, v) \<in> set (boxValues (getModel m [''rich'', name]) opt). getProp tok k = v)"
  proof
    fix name assume "name \<in> set names"
    with richLoop_tokens[OF a] obtain tok where
      t: "setTokenTextStyle [] (getModel m [''rich'', name]) g opt noDefault False = Some tok"
      and g: "getProp r name = Obj tok"
      by blast
    from setTokenTextStyle_box_written[OF t] have
      "\<forall>(k, v) \<in> set (boxValues (getModel m [''rich'', name]) opt). getProp tok k = v"
      by simp
    then show "\<exists>tok.
            setTokenTextStyle [] (getModel m [''rich'', name]) g opt noDefault False = Some tok
          \<and> getProp r name = Obj tok
          \<and> (\<forall>(k, v) \<in> set (boxValues (getModel m [''rich'', name]) opt). getProp tok k = v)"
      using t g by blast
  qed
qed

lemmas text_eval = setTextStyleCommon_def getRichItemNames_def richOf_def isOwnEcModel_def
  setTokenTextStyle_def tokenDefaults_def defaultCheckInside_def getAutoColor_def assign_def
  getProp_def ownKeys_def jsOr_def retrieve2_def Let_def EMPTY_OBJ_def
  rootEc_def globalNode_def seriesNode_def labelNode_def emphasisNode_def emptyRichNode_def
  hiddenNode_def boxOffOpt_def rectOpt_def

text \<open>
  C8 as stated fails: with \<^verbatim>\<open>disableBox\<close> set, the token \<^verbatim>\<open>a\<close> of the label node
  still receives the background colour its declaration holds.
\<close>

theorem box_properties_gate_counterexample:
  "map_option (\<lambda>(ts', opt'). index (index (getProp ts' ''rich'') ''a'') ''textBackgroundColor'')
      (setTextStyleCommon degToRadSample [] labelNode (Some boxOffOpt) False) = Some (Str ''red'')
   \<and> disableBox boxOffOpt"
  by (simp add: text_eval)

lemma getAutoColor_nullish: "isNullish v \<Longrightarrow> getAutoColor v opt = v"
  by (cases v) (simp_all add: getAutoColor_def)

lemma jsOr_nullish: "isNullish v \<Longrightarrow> jsOr v w = w"
  by (cases v) (simp_all add: jsOr_def)

lemma effectiveGlobal_noDefault: "effectiveGlobal g True = Obj []"
  by (simp add: effectiveGlobal_def jsOr_def)

lemma tokenPaint_noDefault:
  "tokenPaint ts m g opt True = Some (getAutoColor (getShallow m ''color'') opt,
                 getAutoColor (getShallow m ''textBorderColor'') opt,
                 getShallow m ''textBorderWidth'')"
  by (simp add: tokenPaint_def)

lemma setTokenTextStyle_noDefault:
  "\<exists>ts'. setTokenTextStyle ts m g opt True isBlock = Some ts'
     \<and> (\<forall>(k, srcs) \<in> set resolvedFrom. (\<forall>src \<in> set srcs. isNullish (getShallow m src))
           \<longrightarrow> isNullish (getProp ts' k) \<or> getProp ts' k = getProp ts k)"
  by (cases "\<not> isBlock \<or> \<not> disableBox opt")
     (simp_all add: setTokenTextStyle_eq tokenResult_def tokenPaint_noDefault effectiveGlobal_noDefault
        getProp_assign resolvedFrom_def tokenBase_def boxValues_def shadowValues_def
        getAutoColor_nullish jsOr_nullish getProp_Nil)


lemma getProp_extend:
  "getProp (extend target source) k
     = (if k \<in> set (ownKeys source) then getProp source k else getProp target k)"
  using getProp_fold_cond[of "\<lambda>_. True" "getProp source" "ownKeys source" target k]
  by (simp add: extend_def)

lemma setTextStyleCommon_SomeE:
  assumes "setTextStyleCommon d ts m opt0 nd = Some (ts', opt')"
  obtains richResult where
    "setTokenTextStyle
       (setProp ''rich'' richResult
          (if isRectText (optOf opt0) then assign ts (rectValues d m nd) else ts))
       m (globalTextStyleOf m) (optOf opt0) nd True = Some ts'"
    "case getRichItemNames m of None \<Rightarrow> richResult = Undefined
     | Some names \<Rightarrow> (\<exists>r. richLoop (ownKeys names) m (globalTextStyleOf m) (optOf opt0) nd [] = Some r
                          \<and> richResult = Obj r)"
    "opt' = (if forceRich (optOf opt0) \<and> \<not> truthy (opt_textStyle (optOf opt0))
             then Some ((optOf opt0)\<lparr>opt_textStyle := Obj []\<rparr>) else opt0)"
  using assms
  unfolding setTextStyleCommon_def rectValues_def globalTextStyleOf_def optOf_def Let_def
  by (auto split: option.splits if_splits)

text \<open>The block of the label node with the box disabled, and its token \<^verbatim>\<open>a\<close>.\<close>

theorem box_properties_gate_witness:
  "(\<exists>ts'. setTokenTextStyle [] labelNode Undefined boxOffOpt True True = Some ts'
       \<and> getProp ts' ''textPadding'' = getProp [] ''textPadding'')
   \<and> (\<exists>r tok. richLoop [''a''] labelNode Undefined boxOffOpt True [] = Some r
         \<and> getProp r ''a'' = Obj tok
         \<and> getProp tok ''textBackgroundColor''
             = getAutoColor (getShallow (getModel labelNode [''rich'', ''a'']) ''backgroundColor'') boxOffOpt)"
proof -
  obtain ts' where t: "setTokenTextStyle [] labelNode Undefined boxOffOpt True True = Some ts'"
    using setTokenTextStyle_noDefault[of "[]" labelNode Undefined boxOffOpt True] by blast
  obtain tok where k: "setTokenTextStyle [] (getModel labelNode [''rich'', ''a'']) Undefined boxOffOpt True False
                         = Some tok"
    using setTokenTextStyle_noDefault[of "[]" "getModel labelNode [''rich'', ''a'']" Undefined boxOffOpt False]
    by blast
  have r: "richLoop [''a''] labelNode Undefined boxOffOpt True [] = Some [(''a'', Obj tok)]"
    using k by simp
  have d: "True \<and> disableBox boxOffOpt" by (simp add: boxOffOpt_def)
  note th = box_properties_gate[of "[]" labelNode Undefined boxOffOpt True True ts'
      "[''a'']" "[]" "[(''a'', Obj tok)]"]
  from th t d have "\<forall>(k, v) \<in> set (boxValues labelNode boxOffOpt). getProp ts' k = getProp [] k"
    by simp
  then have a: "getProp ts' ''textPadding'' = getProp [] ''textPadding''"
    by (simp add: boxValues_def)
  from th r k have "\<forall>(k, v) \<in> set (boxValues (getModel labelNode [''rich'', ''a'']) boxOffOpt).
                       getProp tok k = v"
    by (auto simp: getProp_def)
  then have b: "getProp tok ''textBackgroundColor''
             = getAutoColor (getShallow (getModel labelNode [''rich'', ''a'']) ''backgroundColor'') boxOffOpt"
    by (simp add: boxValues_def)
  have g: "getProp [(''a'', Obj tok)] ''a'' = Obj tok" by (simp add: getProp_def)
  show ?thesis using t a r g b by blast
qed

section \<open>Resolution without defaults\<close>

lemma setTokenTextStyle_noDefault_theme:
  "setTokenTextStyle ts m g opt True isBlock
     = setTokenTextStyle ts m Undefined (opt\<lparr>checkInside := CheckFalse\<rparr>) True isBlock"
  by (simp add: setTokenTextStyle_eq tokenResult_def tokenPaint_noDefault effectiveGlobal_noDefault
      boxValues_def getAutoColor_def)

lemma setTokenTextStyle_noDefault_textFill:
  assumes "setTokenTextStyle ts m g opt True isBlock = Some ts'"
  shows "getProp ts' ''textFill'' = getAutoColor (getShallow m ''color'') opt"
  using assms
  by (cases "\<not> isBlock \<or> \<not> disableBox opt")
     (auto simp: setTokenTextStyle_eq tokenResult_def tokenPaint_noDefault effectiveGlobal_noDefault
        getProp_assign tokenBase_def boxValues_def shadowValues_def)

lemma richLoop_noDefault_total:
  "\<exists>r. richLoop names m g opt True acc = Some r"
proof (induction names arbitrary: acc)
  case Nil
  then show ?case by simp
next
  case (Cons name names)
  obtain tok where "setTokenTextStyle [] (getModel m [''rich'', name]) g opt True False = Some tok"
    using setTokenTextStyle_noDefault[of "[]" "getModel m [''rich'', name]" g opt False] by blast
  then show ?case using Cons.IH by (simp add: Let_def)
qed

lemma setTextStyleCommon_eq:
  "setTextStyleCommon d ts m opt0 nd =
     (case (case ecModel m of None \<Rightarrow> Some Undefined
            | Some ec \<Rightarrow> (if isNullish (ecOption ec) then None
                           else Some (index (ecOption ec) ''textStyle''))) of
        None \<Rightarrow> None
      | Some g \<Rightarrow>
         (case (case getRichItemNames m of None \<Rightarrow> Some Undefined
                | Some names \<Rightarrow> map_option Obj (richLoop (ownKeys names) m g (optOf opt0) nd [])) of
            None \<Rightarrow> None
          | Some rr \<Rightarrow>
             (case setTokenTextStyle
                     (setProp ''rich'' rr
                        (if isRectText (optOf opt0) then assign ts (rectValues d m nd) else ts))
                     m g (optOf opt0) nd True of
                None \<Rightarrow> None
              | Some ts3 \<Rightarrow>
                  Some (ts3,
                        (if forceRich (optOf opt0) \<and> \<not> truthy (opt_textStyle (optOf opt0))
                         then Some ((optOf opt0)\<lparr>opt_textStyle := Obj []\<rparr>) else opt0)))))"
  unfolding setTextStyleCommon_def optOf_def rectValues_def Let_def
  by (rule refl)

lemma setTextStyleCommon_noDefault_total:
  assumes "\<forall>ec. ecModel m = Some ec \<longrightarrow> \<not> isNullish (ecOption ec)"
  shows "\<exists>r. setTextStyleCommon d ts m opt0 True = Some r"
proof -
  define g where "g = globalTextStyleOf m"
  have e: "(case ecModel m of None \<Rightarrow> Some Undefined
            | Some ec \<Rightarrow> (if isNullish (ecOption ec) then None
                           else Some (index (ecOption ec) ''textStyle''))) = Some g"
    using assms by (simp add: g_def globalTextStyleOf_def split: option.splits)
  obtain rr where rr: "(case getRichItemNames m of None \<Rightarrow> Some Undefined
                    | Some richItemNames \<Rightarrow>
                        map_option Obj
                          (richLoop (ownKeys richItemNames) m g (optOf opt0) True [])) = Some rr"
  proof (cases "getRichItemNames m")
    case None
    then show ?thesis using that by simp
  next
    case (Some names)
    obtain r where "richLoop (ownKeys names) m g (optOf opt0) True [] = Some r"
      using richLoop_noDefault_total by blast
    then show ?thesis using that Some by simp
  qed
  define ts1 where "ts1 = (if isRectText (optOf opt0) then assign ts (rectValues d m True) else ts)"
  obtain ts3 where t: "setTokenTextStyle (setProp ''rich'' rr ts1) m g (optOf opt0) True True = Some ts3"
    using setTokenTextStyle_noDefault[of "setProp ''rich'' rr ts1" m g "optOf opt0" True] by blast
  show ?thesis
    unfolding setTextStyleCommon_eq
    using t by (simp only: e rr ts1_def[symmetric] option.case prod.case) blast
qed

lemma rectValues_noDefault:
  "\<forall>(k, srcs) \<in> set resolvedFrom. (\<forall>src \<in> set srcs. isNullish (getShallow m src))
      \<longrightarrow> isNullish (getProp (assign ts (rectValues d m True)) k)
          \<or> getProp (assign ts (rectValues d m True)) k = getProp ts k"
  by (simp add: resolvedFrom_def rectValues_def getProp_assign jsOr_nullish retrieve2_def)

lemma rich_not_resolvedFrom: "\<forall>(k, srcs) \<in> set resolvedFrom. k \<noteq> ''rich''"
  by (simp add: resolvedFrom_def)

lemma setTextStyleCommon_noDefault:
  assumes "setTextStyleCommon d ts m opt0 True = Some (ts', opt')"
    and "(k, srcs) \<in> set resolvedFrom" and "\<forall>src \<in> set srcs. isNullish (getShallow m src)"
  shows "isNullish (getProp ts' k) \<or> getProp ts' k = getProp ts k"
proof -
  from assms(1) obtain rr where
    t: "setTokenTextStyle
       (setProp ''rich'' rr
          (if isRectText (optOf opt0) then assign ts (rectValues d m True) else ts))
       m (globalTextStyleOf m) (optOf opt0) True True = Some ts'"
    by (rule setTextStyleCommon_SomeE)
  define ts1 where "ts1 = (if isRectText (optOf opt0) then assign ts (rectValues d m True) else ts)"
  have k: "k \<noteq> ''rich''" using rich_not_resolvedFrom assms(2) by auto
  from setTokenTextStyle_noDefault[of "setProp ''rich'' rr ts1" m "globalTextStyleOf m" "optOf opt0" True]
    t assms(2,3)
  have 1: "isNullish (getProp ts' k) \<or> getProp ts' k = getProp (setProp ''rich'' rr ts1) k"
    unfolding ts1_def by auto
  have 2: "isNullish (getProp ts1 k) \<or> getProp ts1 k = getProp ts k"
    using rectValues_noDefault[of m ts d] assms(2,3) unfolding ts1_def by auto
  show ?thesis using 1 2 k by (auto simp: getProp_setProp)
qed


lemma setTextStyle_SomeE:
  assumes "setTextStyle d ts m specified opt0 nd = Some (ts', opt', calls)"
  obtains ts1 where "setTextStyleCommon d ts m opt0 nd = Some (ts1, opt')"
    "ts' = (case specified of None \<Rightarrow> ts1 | Some sp \<Rightarrow> extend ts1 sp)"
    "calls = hostDirty ts'"
  using assms by (auto simp: setTextStyle_def Let_def split: option.splits)

text \<open>
  C5: in no-default mode (\<^verbatim>\<open>noDefault = true\<close>, the emphasis path of
  \<^verbatim>\<open>setTextStyle\<close>) the token resolution does not depend on the global theme's text
  style nor on \<^verbatim>\<open>checkInside\<close>, and \<^verbatim>\<open>setTextStyle\<close> returns whenever the global
  model has an option. Where it returns, \<^verbatim>\<open>textFill\<close> is null or undefined when the
  model chain supplies no \<^verbatim>\<open>color\<close>, and every resolved property whose model keys the
  chain does not supply is null or undefined, or is what the style held before the call
  (for the properties that the call does not write): no \<^verbatim>\<open>'#fff'\<close>, no auto-colour
  stroke, no \<^verbatim>\<open>'inside'\<close>, no distance 5. The caller's explicit style object is
  overlaid afterwards, so the statement is about the keys it does not hold.
\<close>

theorem no_default_stays_null:
  "setTokenTextStyle ts m g opt True isBlock
     = setTokenTextStyle ts m Undefined (opt\<lparr>checkInside := CheckFalse\<rparr>) True isBlock
   \<and> ((\<forall>ec. ecModel m = Some ec \<longrightarrow> \<not> isNullish (ecOption ec))
        \<longrightarrow> (\<exists>r. setTextStyle d ts m specified opt0 True = Some r))
   \<and> (setTextStyle d ts m specified opt0 True = Some (ts', opt', calls) \<longrightarrow>
        (isNullish (getShallow m ''color'')
           \<and> (\<forall>sp. specified = Some sp \<longrightarrow> ''textFill'' \<notin> set (ownKeys sp))
           \<longrightarrow> isNullish (getProp ts' ''textFill''))
      \<and> (\<forall>(k, srcs) \<in> set resolvedFrom.
            (\<forall>src \<in> set srcs. isNullish (getShallow m src))
              \<and> (\<forall>sp. specified = Some sp \<longrightarrow> k \<notin> set (ownKeys sp))
            \<longrightarrow> isNullish (getProp ts' k) \<or> getProp ts' k = getProp ts k))"
proof (intro conjI impI)
  show "setTokenTextStyle ts m g opt True isBlock
     = setTokenTextStyle ts m Undefined (opt\<lparr>checkInside := CheckFalse\<rparr>) True isBlock"
    by (rule setTokenTextStyle_noDefault_theme)
next
  assume "\<forall>ec. ecModel m = Some ec \<longrightarrow> \<not> isNullish (ecOption ec)"
  from setTextStyleCommon_noDefault_total[OF this, of d ts opt0]
  show "\<exists>r. setTextStyle d ts m specified opt0 True = Some r"
    by (auto simp: setTextStyle_def Let_def)
next
  assume a: "setTextStyle d ts m specified opt0 True = Some (ts', opt', calls)"
    and h: "isNullish (getShallow m ''color'')
           \<and> (\<forall>sp. specified = Some sp \<longrightarrow> ''textFill'' \<notin> set (ownKeys sp))"
  from a obtain ts1 where c: "setTextStyleCommon d ts m opt0 True = Some (ts1, opt')"
    and e: "ts' = (case specified of None \<Rightarrow> ts1 | Some sp \<Rightarrow> extend ts1 sp)"
    by (rule setTextStyle_SomeE)
  from c obtain rr where
    t: "setTokenTextStyle
       (setProp ''rich'' rr
          (if isRectText (optOf opt0) then assign ts (rectValues d m True) else ts))
       m (globalTextStyleOf m) (optOf opt0) True True = Some ts1"
    by (rule setTextStyleCommon_SomeE)
  have "getProp ts1 ''textFill'' = getAutoColor (getShallow m ''color'') (optOf opt0)"
    using t by (rule setTokenTextStyle_noDefault_textFill)
  then have "isNullish (getProp ts1 ''textFill'')" using h by (simp add: getAutoColor_nullish)
  moreover have "getProp ts' ''textFill'' = getProp ts1 ''textFill''"
    using h by (cases specified) (simp_all add: e getProp_extend)
  ultimately show "isNullish (getProp ts' ''textFill'')" by simp
next
  assume a: "setTextStyle d ts m specified opt0 True = Some (ts', opt', calls)"
  from a obtain ts1 where c: "setTextStyleCommon d ts m opt0 True = Some (ts1, opt')"
    and e: "ts' = (case specified of None \<Rightarrow> ts1 | Some sp \<Rightarrow> extend ts1 sp)"
    by (rule setTextStyle_SomeE)
  have "isNullish (getProp ts' k) \<or> getProp ts' k = getProp ts k"
    if m: "(k, srcs) \<in> set resolvedFrom"
      and n: "\<forall>src \<in> set srcs. isNullish (getShallow m src)"
      and s: "\<forall>sp. specified = Some sp \<longrightarrow> k \<notin> set (ownKeys sp)" for k srcs
  proof -
    have "getProp ts' k = getProp ts1 k"
      using s by (cases specified) (simp_all add: e getProp_extend)
    then show ?thesis using setTextStyleCommon_noDefault[OF c m n] by simp
  qed
  then show "\<forall>(k, srcs) \<in> set resolvedFrom.
            (\<forall>src \<in> set srcs. isNullish (getShallow m src))
              \<and> (\<forall>sp. specified = Some sp \<longrightarrow> k \<notin> set (ownKeys sp))
            \<longrightarrow> isNullish (getProp ts' k) \<or> getProp ts' k = getProp ts k"
    by blast
qed

text \<open>
  The emphasis node with \<^verbatim>\<open>show: true\<close> and no colour on its chain, resolved as rect
  text with an auto colour at hand: no fill, no position, no distance.
\<close>

theorem no_default_stays_null_witness:
  "isNullish (getShallow emphasisNode ''color'')
   \<and> (\<exists>ts' opt' calls.
         setTextStyle degToRadSample [] emphasisNode None (Some rectOpt) True = Some (ts', opt', calls)
       \<and> isNullish (getProp ts' ''textFill'')
       \<and> isNullish (getProp ts' ''textPosition'')
       \<and> isNullish (getProp ts' ''textDistance''))"
proof -
  have c: "isNullish (getShallow emphasisNode ''color'')"
    "isNullish (getShallow emphasisNode ''position'')"
    "isNullish (getShallow emphasisNode ''distance'')"
    by (simp_all add: emphasisNode_def globalNode_def rootEc_def getProp_def)
  have ec: "\<forall>ec. ecModel emphasisNode = Some ec \<longrightarrow> \<not> isNullish (ecOption ec)"
    by (simp add: emphasisNode_def rootEc_def)
  have em: "getProp [] ''textPosition'' = Undefined" "getProp [] ''textDistance'' = Undefined"
    by (simp_all add: getProp_def)
  have mem: "(''textPosition'', [''position'']) \<in> set resolvedFrom"
    "(''textDistance'', [''distance'']) \<in> set resolvedFrom"
    by (simp_all add: resolvedFrom_def)
  from no_default_stays_null[of "[]" emphasisNode Undefined rectOpt True degToRadSample None "Some rectOpt"]
    ec
  obtain r where r: "setTextStyle degToRadSample [] emphasisNode None (Some rectOpt) True = Some r"
    by blast
  obtain ts' opt' calls where r': "r = (ts', opt', calls)" by (cases r)
  note th = no_default_stays_null[of "[]" emphasisNode Undefined rectOpt True degToRadSample None
      "Some rectOpt" ts' opt' calls]
  from th r r' c have f: "isNullish (getProp ts' ''textFill'')" by simp
  from th r r' have b: "\<forall>(k, srcs) \<in> set resolvedFrom.
            (\<forall>src \<in> set srcs. isNullish (getShallow emphasisNode src))
             \<longrightarrow> isNullish (getProp ts' k) \<or> getProp ts' k = getProp [] k"
    by simp
  from b mem(1) c(2) have p: "isNullish (getProp ts' ''textPosition'')"
    using em by fastforce
  from b mem(2) c(3) have q: "isNullish (getProp ts' ''textDistance'')"
    using em by fastforce
  show ?thesis using c(1) r r' f p q by blast
qed

section \<open>The label orchestrator\<close>

lemma fetchText_hidden:
  "\<not> truthy (getShallow stateModel ''show'') \<Longrightarrow> fetchText stateModel opt state fallback = (Null, [])"
  by (simp add: fetchText_def)

lemma fetchText_calls:
  "c \<in> set (snd (fetchText stateModel opt state fallback))
     \<Longrightarrow> \<exists>a b. c = CallGetFormattedLabel a state Null b"
  by (auto simp: fetchText_def split: if_splits option.splits)

lemma normalText_hidden:
  "\<not> truthy (getShallow normalModel ''show'') \<Longrightarrow> normalText normalModel opt0 = (Null, [])"
  by (simp add: normalText_def fetchText_hidden)

lemma emphasisText_hidden:
  "\<not> truthy (getShallow emphasisModel ''show'')
     \<Longrightarrow> emphasisText normalModel emphasisModel opt0 = (Null, [])"
  by (simp add: emphasisText_def fetchText_hidden)

lemma normalText_calls:
  "CallGetFormattedLabel a ''emphasis'' b c \<notin> set (snd (normalText normalModel opt0))"
  using fetchText_calls[of "CallGetFormattedLabel a ''emphasis'' b c" normalModel "optOf opt0"
      "''normal''" "defaultText (optOf opt0)"]
  by (auto simp: normalText_def)

lemma emphasisText_calls:
  "CallGetFormattedLabel a ''normal'' b c \<notin> set (snd (emphasisText normalModel emphasisModel opt0))"
  using fetchText_calls[of "CallGetFormattedLabel a ''normal'' b c" emphasisModel "optOf opt0"
      "''emphasis''" "fst (normalText normalModel opt0)"]
  by (auto simp: emphasisText_def)

lemma hostDirty_calls: "c \<in> set (hostDirty ts) \<Longrightarrow> c = CallHostDirty"
  by (auto simp: hostDirty_def split: if_splits)

lemma setLabelStyle_eq:
  "setLabelStyle d normalStyle emphasisStyle normalModel emphasisModel opt0 nsp esp =
     (if \<not> isNullish (fst (normalText normalModel opt0))
         \<or> \<not> isNullish (fst (emphasisText normalModel emphasisModel opt0))
      then
        (case setTextStyle d normalStyle normalModel nsp (Some (optOf opt0)) False of
           None \<Rightarrow> None
         | Some (ns, opt1, calls3) \<Rightarrow>
            (case setTextStyle d emphasisStyle emphasisModel esp opt1 True of
               None \<Rightarrow> None
             | Some (es, opt2, calls4) \<Rightarrow>
                 Some (setProp ''text'' (fst (normalText normalModel opt0)) ns,
                       setProp ''text'' (fst (emphasisText normalModel emphasisModel opt0)) es,
                       optOf opt2,
                       snd (normalText normalModel opt0)
                       @ snd (emphasisText normalModel emphasisModel opt0)
                       @ calls3 @ calls4)))
      else Some (setProp ''text'' (fst (normalText normalModel opt0)) normalStyle,
                 setProp ''text'' (fst (emphasisText normalModel emphasisModel opt0)) emphasisStyle,
                 optOf opt0,
                 snd (normalText normalModel opt0)
                 @ snd (emphasisText normalModel emphasisModel opt0)))"
  unfolding setLabelStyle_def normalText_def emphasisText_def optOf_def Let_def split_beta
  by (rule refl)

lemma setLabelStyle_SomeE:
  assumes "setLabelStyle d normalStyle emphasisStyle normalModel emphasisModel opt0 nsp esp
             = Some (ns, es, opt', calls)"
  obtains ns1 es1 calls34 where
    "ns = setProp ''text'' (fst (normalText normalModel opt0)) ns1"
    "es = setProp ''text'' (fst (emphasisText normalModel emphasisModel opt0)) es1"
    "calls = snd (normalText normalModel opt0)
             @ snd (emphasisText normalModel emphasisModel opt0) @ calls34"
    "\<forall>c \<in> set calls34. c = CallHostDirty"
proof (cases "\<not> isNullish (fst (normalText normalModel opt0))
         \<or> \<not> isNullish (fst (emphasisText normalModel emphasisModel opt0))")
  case False
  with assms have "Some (ns, es, opt', calls) =
       Some (setProp ''text'' (fst (normalText normalModel opt0)) normalStyle,
             setProp ''text'' (fst (emphasisText normalModel emphasisModel opt0)) emphasisStyle,
             optOf opt0,
             snd (normalText normalModel opt0)
             @ snd (emphasisText normalModel emphasisModel opt0))"
    unfolding setLabelStyle_eq by (simp only: if_False)
  then have "ns = setProp ''text'' (fst (normalText normalModel opt0)) normalStyle"
    "es = setProp ''text'' (fst (emphasisText normalModel emphasisModel opt0)) emphasisStyle"
    "calls = snd (normalText normalModel opt0)
             @ snd (emphasisText normalModel emphasisModel opt0) @ []"
    by simp_all
  then show ?thesis
    using that[of normalStyle emphasisStyle "[]"] by simp
next
  case True
  with assms obtain ns1 opt1 calls3 es1 opt2 calls4 where
    a: "setTextStyle d normalStyle normalModel nsp (Some (optOf opt0)) False = Some (ns1, opt1, calls3)"
    and b: "setTextStyle d emphasisStyle emphasisModel esp opt1 True = Some (es1, opt2, calls4)"
    and r: "ns = setProp ''text'' (fst (normalText normalModel opt0)) ns1"
      "es = setProp ''text'' (fst (emphasisText normalModel emphasisModel opt0)) es1"
      "calls = snd (normalText normalModel opt0)
             @ snd (emphasisText normalModel emphasisModel opt0) @ (calls3 @ calls4)"
    unfolding setLabelStyle_eq by (auto split: option.splits)
  have "calls3 = hostDirty ns1" using a by (rule setTextStyle_SomeE)
  moreover have "calls4 = hostDirty es1" using b by (rule setTextStyle_SomeE)
  ultimately have "\<forall>c \<in> set (calls3 @ calls4). c = CallHostDirty"
    using hostDirty_calls by auto
  then show ?thesis using that r by blast
qed

text \<open>
  C6: where \<^verbatim>\<open>setLabelStyle\<close> returns, a state whose model has a falsy \<^verbatim>\<open>show\<close> has
  the text \<^verbatim>\<open>null\<close> and no call of the formatter for that state was made. When both
  computed texts are null or undefined, \<^verbatim>\<open>setLabelStyle\<close> returns (whatever the models
  hold, also where the resolution would throw), the two styles are the ones passed in with
  only \<^verbatim>\<open>text\<close> written, the options record is the one passed in, and the calls made
  are the formatter's only: no style was resolved, no \<^verbatim>\<open>rich\<close> was read, no host was
  marked. With both \<^verbatim>\<open>show\<close> falsy the texts are \<^verbatim>\<open>null\<close> and no call at all is
  made.
\<close>

theorem label_short_circuit:
  "(setLabelStyle d normalStyle emphasisStyle normalModel emphasisModel opt0 nsp esp
       = Some (ns, es, opt', calls) \<longrightarrow>
      (\<not> truthy (getShallow normalModel ''show'') \<longrightarrow>
         getProp ns ''text'' = Null \<and> (\<forall>a b c. CallGetFormattedLabel a ''normal'' b c \<notin> set calls))
    \<and> (\<not> truthy (getShallow emphasisModel ''show'') \<longrightarrow>
         getProp es ''text'' = Null \<and> (\<forall>a b c. CallGetFormattedLabel a ''emphasis'' b c \<notin> set calls)))
   \<and> (isNullish (fst (normalText normalModel opt0))
        \<and> isNullish (fst (emphasisText normalModel emphasisModel opt0))
      \<longrightarrow> setLabelStyle d normalStyle emphasisStyle normalModel emphasisModel opt0 nsp esp
          = Some (setProp ''text'' (fst (normalText normalModel opt0)) normalStyle,
                  setProp ''text'' (fst (emphasisText normalModel emphasisModel opt0)) emphasisStyle,
                  optOf opt0,
                  snd (normalText normalModel opt0)
                  @ snd (emphasisText normalModel emphasisModel opt0)))
   \<and> (\<forall>c \<in> set (snd (normalText normalModel opt0)
                  @ snd (emphasisText normalModel emphasisModel opt0)). c \<noteq> CallHostDirty)
   \<and> (\<not> truthy (getShallow normalModel ''show'') \<and> \<not> truthy (getShallow emphasisModel ''show'')
      \<longrightarrow> setLabelStyle d normalStyle emphasisStyle normalModel emphasisModel opt0 nsp esp
          = Some (setProp ''text'' Null normalStyle, setProp ''text'' Null emphasisStyle,
                  optOf opt0, []))"
proof (intro conjI impI allI)
  assume a: "setLabelStyle d normalStyle emphasisStyle normalModel emphasisModel opt0 nsp esp
       = Some (ns, es, opt', calls)"
    and h: "\<not> truthy (getShallow normalModel ''show'')"
  from a obtain ns1 es1 calls34 where
    r: "ns = setProp ''text'' (fst (normalText normalModel opt0)) ns1"
    and "es = setProp ''text'' (fst (emphasisText normalModel emphasisModel opt0)) es1"
    and r2: "calls = snd (normalText normalModel opt0)
             @ snd (emphasisText normalModel emphasisModel opt0) @ calls34"
    and r3: "\<forall>c \<in> set calls34. c = CallHostDirty"
    by (rule setLabelStyle_SomeE)
  show "getProp ns ''text'' = Null"
    using h by (simp add: r normalText_hidden getProp_setProp)
  fix a b c
  show "CallGetFormattedLabel a ''normal'' b c \<notin> set calls"
    using h r3 emphasisText_calls[of a b c normalModel emphasisModel opt0]
    by (auto simp: r2 normalText_hidden)
next
  assume a: "setLabelStyle d normalStyle emphasisStyle normalModel emphasisModel opt0 nsp esp
       = Some (ns, es, opt', calls)"
    and h: "\<not> truthy (getShallow emphasisModel ''show'')"
  from a obtain ns1 es1 calls34 where
    "ns = setProp ''text'' (fst (normalText normalModel opt0)) ns1"
    and r: "es = setProp ''text'' (fst (emphasisText normalModel emphasisModel opt0)) es1"
    and r2: "calls = snd (normalText normalModel opt0)
             @ snd (emphasisText normalModel emphasisModel opt0) @ calls34"
    and r3: "\<forall>c \<in> set calls34. c = CallHostDirty"
    by (rule setLabelStyle_SomeE)
  show "getProp es ''text'' = Null"
    using h by (simp add: r emphasisText_hidden getProp_setProp)
  fix a b c
  show "CallGetFormattedLabel a ''emphasis'' b c \<notin> set calls"
    using h r3 normalText_calls[of a b c normalModel opt0]
    by (auto simp: r2 emphasisText_hidden)
next
  assume "isNullish (fst (normalText normalModel opt0))
        \<and> isNullish (fst (emphasisText normalModel emphasisModel opt0))"
  then show "setLabelStyle d normalStyle emphasisStyle normalModel emphasisModel opt0 nsp esp
          = Some (setProp ''text'' (fst (normalText normalModel opt0)) normalStyle,
                  setProp ''text'' (fst (emphasisText normalModel emphasisModel opt0)) emphasisStyle,
                  optOf opt0,
                  snd (normalText normalModel opt0)
                  @ snd (emphasisText normalModel emphasisModel opt0))"
    unfolding setLabelStyle_eq by simp
next
  show "\<forall>c \<in> set (snd (normalText normalModel opt0)
                  @ snd (emphasisText normalModel emphasisModel opt0)). c \<noteq> CallHostDirty"
    using fetchText_calls by (fastforce simp: normalText_def emphasisText_def)
next
  assume "\<not> truthy (getShallow normalModel ''show'') \<and> \<not> truthy (getShallow emphasisModel ''show'')"
  then show "setLabelStyle d normalStyle emphasisStyle normalModel emphasisModel opt0 nsp esp
          = Some (setProp ''text'' Null normalStyle, setProp ''text'' Null emphasisStyle,
                  optOf opt0, [])"
    unfolding setLabelStyle_eq by (simp add: normalText_hidden emphasisText_hidden)
qed

text \<open>
  Two hidden states, a formatter at hand and a normal style with a host that can be marked.
\<close>

theorem label_short_circuit_witness:
  "\<not> truthy (getShallow hiddenNode ''show'')
   \<and> isNullish (fst (normalText hiddenNode (Some (rectOpt\<lparr>labelFetcher := Some sampleFetcher\<rparr>))))
   \<and> setLabelStyle degToRadSample [(''host'', Obj [(''dirty'', JBool True)])] [] hiddenNode hiddenNode
        (Some (rectOpt\<lparr>labelFetcher := Some sampleFetcher\<rparr>)) None None
       = Some (setProp ''text'' Null [(''host'', Obj [(''dirty'', JBool True)])],
               setProp ''text'' Null [], rectOpt\<lparr>labelFetcher := Some sampleFetcher\<rparr>, [])
   \<and> getProp (setProp ''text'' Null [(''host'', Obj [(''dirty'', JBool True)])]) ''text'' = Null"
proof -
  have h: "\<not> truthy (getShallow hiddenNode ''show'')"
    by (simp add: hiddenNode_def globalNode_def rootEc_def getProp_def)
  have n: "isNullish (fst (normalText hiddenNode (Some (rectOpt\<lparr>labelFetcher := Some sampleFetcher\<rparr>))))"
    using h by (simp add: normalText_hidden)
  note th = label_short_circuit[where d = degToRadSample
      and normalStyle = "[(''host'', Obj [(''dirty'', JBool True)])]" and emphasisStyle = "[]"
      and normalModel = hiddenNode and emphasisModel = hiddenNode
      and ?opt0.0 = "Some (rectOpt\<lparr>labelFetcher := Some sampleFetcher\<rparr>)"
      and nsp = None and esp = None
      and ns = "setProp ''text'' Null [(''host'', Obj [(''dirty'', JBool True)])]"
      and es = "setProp ''text'' Null []"
      and opt' = "rectOpt\<lparr>labelFetcher := Some sampleFetcher\<rparr>" and calls = "[]"]
  from th h have e: "setLabelStyle degToRadSample [(''host'', Obj [(''dirty'', JBool True)])] [] hiddenNode hiddenNode
        (Some (rectOpt\<lparr>labelFetcher := Some sampleFetcher\<rparr>)) None None
       = Some (setProp ''text'' Null [(''host'', Obj [(''dirty'', JBool True)])],
               setProp ''text'' Null [], rectOpt\<lparr>labelFetcher := Some sampleFetcher\<rparr>, [])"
    by (simp add: optOf_def)
  from th e h have g: "getProp (setProp ''text'' Null [(''host'', Obj [(''dirty'', JBool True)])]) ''text'' = Null"
    by blast
  show ?thesis using h n e g by blast
qed

section \<open>Rich tokens\<close>

lemma forInKeys_falsy: "\<not> truthy v \<Longrightarrow> forInKeys v = []"
  by (cases v) simp_all

text \<open>A string in the place of \<^verbatim>\<open>rich\<close> declares its indices as names.\<close>

lemma forInKeys_string: "forInKeys (Str ''ab'') = [''0'', ''1'']"
  by (simp add: upt_rec digitChar_def)

lemma set_ownKeys_names:
  "set (ownKeys (fold (\<lambda>name m. setProp name (Num 1) m) ks a)) = set (ownKeys a) \<union> set ks"
  using set_ownKeys_fold_cond[of "\<lambda>_. True" "\<lambda>_. Num 1" ks a] by simp

lemma keysOpt_step:
  "keysOpt (if truthy rich
            then Some (fold (\<lambda>name m. setProp name (Num 1) m) (forInKeys rich)
                         (case acc of None \<Rightarrow> [] | Some m \<Rightarrow> m))
            else acc)
     = keysOpt acc \<union> set (forInKeys rich)"
proof -
  have "set (ownKeys []) = {}" by (simp add: ownKeys_def)
  then show ?thesis
    by (cases acc) (simp_all add: keysOpt_def set_ownKeys_names forInKeys_falsy)
qed

lemma getRichItemNamesLoop_keys:
  "keysOpt (getRichItemNamesLoop m acc)
     = keysOpt acc \<union> (\<Union>n \<in> set (visited m). set (forInKeys (richOf n)))"
proof (induction m acc rule: getRichItemNamesLoop.induct)
  case (1 i opt par ec acc)
  show ?case
  proof (cases "isOwnEcModel (Model i opt par ec)")
    case True
    then show ?thesis by simp
  next
    case False
    define acc1 where "acc1 = (if truthy (richOf (Model i opt par ec))
                then Some (fold (\<lambda>name m. setProp name (Num 1) m) (forInKeys (richOf (Model i opt par ec)))
                             (case acc of None \<Rightarrow> [] | Some m \<Rightarrow> m))
                else acc)"
    have k1: "keysOpt acc1 = keysOpt acc \<union> set (forInKeys (richOf (Model i opt par ec)))"
      unfolding acc1_def by (rule keysOpt_step)
    show ?thesis
    proof (cases par)
      case None
      then have "getRichItemNamesLoop (Model i opt par ec) acc = acc1"
        using False by (simp add: acc1_def Let_def)
      then show ?thesis using False None k1 by simp
    next
      case (Some p)
      then have e: "getRichItemNamesLoop (Model i opt par ec) acc = getRichItemNamesLoop p acc1"
        using False by (simp add: acc1_def Let_def)
      have "keysOpt (getRichItemNamesLoop p acc1)
              = keysOpt acc1 \<union> (\<Union>n \<in> set (visited p). set (forInKeys (richOf n)))"
        using "1.IH"[OF False refl refl Some] unfolding acc1_def
        by simp
      then show ?thesis using False Some k1 e by auto
    qed
  qed
qed


lemma getRichItemNamesLoop_None:
  "getRichItemNamesLoop m acc = None
     \<longleftrightarrow> acc = None \<and> (\<forall>n \<in> set (visited m). \<not> truthy (richOf n))"
proof (induction m acc rule: getRichItemNamesLoop.induct)
  case (1 i opt par ec acc)
  show ?case
  proof (cases "isOwnEcModel (Model i opt par ec)")
    case True
    then show ?thesis by simp
  next
    case False
    define acc1 where "acc1 = (if truthy (richOf (Model i opt par ec))
                then Some (fold (\<lambda>name m. setProp name (Num 1) m) (forInKeys (richOf (Model i opt par ec)))
                             (case acc of None \<Rightarrow> [] | Some m \<Rightarrow> m))
                else acc)"
    have k1: "acc1 = None \<longleftrightarrow> acc = None \<and> \<not> truthy (richOf (Model i opt par ec))"
      by (simp add: acc1_def)
    show ?thesis
    proof (cases par)
      case None
      then have "getRichItemNamesLoop (Model i opt par ec) acc = acc1"
        using False by (simp add: acc1_def Let_def)
      then show ?thesis using False None k1 by simp
    next
      case (Some p)
      then have e: "getRichItemNamesLoop (Model i opt par ec) acc = getRichItemNamesLoop p acc1"
        using False by (simp add: acc1_def Let_def)
      have "getRichItemNamesLoop p acc1 = None
              \<longleftrightarrow> acc1 = None \<and> (\<forall>n \<in> set (visited p). \<not> truthy (richOf n))"
        using "1.IH"[OF False refl refl Some] unfolding acc1_def
        by simp
      then show ?thesis using False Some k1 e by auto
    qed
  qed
qed

lemma getRichItemNames_None:
  "getRichItemNames m = None \<longleftrightarrow> (\<forall>n \<in> set (visited m). \<not> truthy (richOf n))"
  by (simp add: getRichItemNames_def getRichItemNamesLoop_None)

lemma getRichItemNames_keys:
  "getRichItemNames m = Some names
     \<Longrightarrow> set (ownKeys names) = (\<Union>n \<in> set (visited m). set (forInKeys (richOf n)))"
  using getRichItemNamesLoop_keys[of m None]
  by (simp add: getRichItemNames_def keysOpt_def)

lemma setTokenTextStyle_rich:
  assumes "setTokenTextStyle ts m g opt nd isBlock = Some ts'"
  shows "getProp ts' ''rich'' = getProp ts ''rich''"
proof -
  from assms obtain f s w where
    ts': "ts' = tokenResult ts m (effectiveGlobal g nd) opt isBlock f s w"
    by (rule setTokenTextStyle_SomeE)
  show ?thesis
    unfolding ts'
    by (simp add: tokenResult_def getProp_assign boxValues_def shadowValues_def tokenBase_def)
qed

lemma visited_parentChain:
  "visited m = takeWhile (\<lambda>n. \<not> isOwnEcModel n) (parentChain m)"
proof (induction m rule: visited.induct)
  case (1 i opt par ec)
  show ?case
  proof (cases par)
    case None
    then show ?thesis by simp
  next
    case (Some p)
    then show ?thesis using 1 by simp
  qed
qed

text \<open>
  C7 (as amended): the nodes inspected are those of the parent chain of the given node,
  from the node upwards through the node without parent; the loop's test
  \<^verbatim>\<open>textStyleModel !== textStyleModel.ecModel\<close> ends the walk before a node that is its
  own \<^verbatim>\<open>ecModel\<close>. Where \<^verbatim>\<open>setTextStyleCommon\<close> returns, the \<^verbatim>\<open>rich\<close> field of
  the output is undefined exactly when none of these nodes has a truthy \<^verbatim>\<open>rich\<close>
  option. Otherwise it is an object whose names are the union of the names declared on
  those nodes, each once (an empty object when the declarations are empty), and each name
  holds the style resolved from the sub-model \<^verbatim>\<open>rich.<name>\<close> of the starting node as
  a node that is not the block: its box properties are always computed, whatever
  \<^verbatim>\<open>disableBox\<close> says.
\<close>

theorem rich_tokens_resolved:
  "visited m = takeWhile (\<lambda>n. \<not> isOwnEcModel n) (parentChain m)
   \<and> (setTextStyleCommon d ts m opt0 nd = Some (ts', opt') \<longrightarrow>
     (if \<exists>n \<in> set (visited m). truthy (richOf n)
      then \<exists>r. getProp ts' ''rich'' = Obj r
             \<and> set (ownKeys r) = (\<Union>n \<in> set (visited m). set (forInKeys (richOf n)))
             \<and> distinct (ownKeys r)
             \<and> (\<forall>name \<in> set (ownKeys r). \<exists>tok.
                    setTokenTextStyle [] (getModel m [''rich'', name]) (globalTextStyleOf m)
                      (optOf opt0) nd False = Some tok
                  \<and> getProp r name = Obj tok
                  \<and> (\<forall>(k, v) \<in> set (boxValues (getModel m [''rich'', name]) (optOf opt0)).
                        getProp tok k = v))
      else getProp ts' ''rich'' = Undefined))"
proof (intro conjI impI)
  show "visited m = takeWhile (\<lambda>n. \<not> isOwnEcModel n) (parentChain m)"
    by (rule visited_parentChain)
next
  assume a: "setTextStyleCommon d ts m opt0 nd = Some (ts', opt')"
  from a obtain rr where
    t: "setTokenTextStyle
       (setProp ''rich'' rr
          (if isRectText (optOf opt0) then assign ts (rectValues d m nd) else ts))
       m (globalTextStyleOf m) (optOf opt0) nd True = Some ts'"
    and c: "case getRichItemNames m of None \<Rightarrow> rr = Undefined
     | Some names \<Rightarrow> (\<exists>r. richLoop (ownKeys names) m (globalTextStyleOf m) (optOf opt0) nd [] = Some r
                          \<and> rr = Obj r)"
    by (rule setTextStyleCommon_SomeE)
  have g: "getProp ts' ''rich'' = rr"
    using setTokenTextStyle_rich[OF t] by (simp add: getProp_setProp)
  show "if \<exists>n \<in> set (visited m). truthy (richOf n)
      then \<exists>r. getProp ts' ''rich'' = Obj r
             \<and> set (ownKeys r) = (\<Union>n \<in> set (visited m). set (forInKeys (richOf n)))
             \<and> distinct (ownKeys r)
             \<and> (\<forall>name \<in> set (ownKeys r). \<exists>tok.
                    setTokenTextStyle [] (getModel m [''rich'', name]) (globalTextStyleOf m)
                      (optOf opt0) nd False = Some tok
                  \<and> getProp r name = Obj tok
                  \<and> (\<forall>(k, v) \<in> set (boxValues (getModel m [''rich'', name]) (optOf opt0)).
                        getProp tok k = v))
      else getProp ts' ''rich'' = Undefined"
  proof (cases "getRichItemNames m")
    case None
    then have "\<not> (\<exists>n \<in> set (visited m). truthy (richOf n))"
      by (simp add: getRichItemNames_None)
    moreover have "rr = Undefined" using c None by simp
    ultimately show ?thesis using g by simp
  next
    case (Some names)
    then have ex: "\<exists>n \<in> set (visited m). truthy (richOf n)"
      using getRichItemNames_None[of m] by auto
    from c Some obtain r where
      l: "richLoop (ownKeys names) m (globalTextStyleOf m) (optOf opt0) nd [] = Some r"
      and rr: "rr = Obj r"
      by auto
    have e: "set (ownKeys []) = {}" by (simp add: ownKeys_def)
    have k: "set (ownKeys r) = (\<Union>n \<in> set (visited m). set (forInKeys (richOf n)))"
      using richLoop_tokens[OF l] getRichItemNames_keys[OF Some] e by simp
    have k': "set (ownKeys r) = set (ownKeys names)"
      using richLoop_tokens[OF l] e by simp
    have d: "distinct (ownKeys r)" by (simp add: ownKeys_def)
    have tk: "\<forall>name \<in> set (ownKeys r). \<exists>tok.
                    setTokenTextStyle [] (getModel m [''rich'', name]) (globalTextStyleOf m)
                      (optOf opt0) nd False = Some tok
                  \<and> getProp r name = Obj tok
                  \<and> (\<forall>(k, v) \<in> set (boxValues (getModel m [''rich'', name]) (optOf opt0)).
                        getProp tok k = v)"
    proof
      fix name assume "name \<in> set (ownKeys r)"
      then have "name \<in> set (ownKeys names)" using k' by simp
      with richLoop_tokens[OF l] obtain tok where
        t1: "setTokenTextStyle [] (getModel m [''rich'', name]) (globalTextStyleOf m)
                      (optOf opt0) nd False = Some tok"
        and t2: "getProp r name = Obj tok"
        by blast
      from setTokenTextStyle_box_written[OF t1] have
        "\<forall>(k, v) \<in> set (boxValues (getModel m [''rich'', name]) (optOf opt0)). getProp tok k = v"
        by simp
      then show "\<exists>tok.
                    setTokenTextStyle [] (getModel m [''rich'', name]) (globalTextStyleOf m)
                      (optOf opt0) nd False = Some tok
                  \<and> getProp r name = Obj tok
                  \<and> (\<forall>(k, v) \<in> set (boxValues (getModel m [''rich'', name]) (optOf opt0)).
                        getProp tok k = v)"
        using t1 t2 by blast
    qed
    show ?thesis
      using ex g rr k d tk by simp
  qed
qed


lemma visited_chartLabelNode:
  "parentChain chartLabelNode = [chartLabelNode, chartSeriesNode, chartNode]"
  "visited chartLabelNode = [chartLabelNode, chartSeriesNode, chartNode]"
  "forInKeys (richOf chartLabelNode) = []" "forInKeys (richOf chartSeriesNode) = [''a'']"
  "forInKeys (richOf chartNode) = [''g'']"
  "truthy (richOf chartSeriesNode)"
  by (simp_all add: chartLabelNode_def chartSeriesNode_def chartNode_def chartEc_def themeEc_def
      isOwnEcModel_def richOf_def jsOr_def getProp_def ownKeys_def)

text \<open>
  The label node has no \<^verbatim>\<open>rich\<close> of its own, the series node above it declares the
  token \<^verbatim>\<open>a\<close> and the global model at the root declares \<^verbatim>\<open>g\<close>: the walk goes
  through the root, and the resolved set is \<^verbatim>\<open>{a, g}\<close>.
\<close>

theorem rich_tokens_resolved_witness:
  "visited chartLabelNode = [chartLabelNode, chartSeriesNode, chartNode]
   \<and> parentChain chartLabelNode = [chartLabelNode, chartSeriesNode, chartNode]
   \<and> (\<exists>n \<in> set (visited chartLabelNode). truthy (richOf n))
   \<and> (\<exists>ts' opt' r tok tok'.
         setTextStyleCommon degToRadSample [] chartLabelNode None False = Some (ts', opt')
         \<and> getProp ts' ''rich'' = Obj r \<and> set (ownKeys r) = {''a'', ''g''}
         \<and> getProp r ''a'' = Obj tok \<and> getProp r ''g'' = Obj tok')"
proof -
  have ex: "\<exists>n \<in> set (visited chartLabelNode). truthy (richOf n)"
    by (simp add: visited_chartLabelNode)
  have "\<exists>x. setTextStyleCommon degToRadSample [] chartLabelNode None False = Some x"
    by (simp add: text_eval chartLabelNode_def chartSeriesNode_def chartNode_def chartEc_def
        themeEc_def)
  then obtain ts' opt' where
    r: "setTextStyleCommon degToRadSample [] chartLabelNode None False = Some (ts', opt')"
    by auto
  note th = rich_tokens_resolved[of chartLabelNode degToRadSample "[]" None False ts' opt']
  from th have v: "visited chartLabelNode
      = takeWhile (\<lambda>n. \<not> isOwnEcModel n) (parentChain chartLabelNode)"
    by (rule conjunct1)
  from th r ex
  obtain r where a: "getProp ts' ''rich'' = Obj r"
    and b: "set (ownKeys r) = (\<Union>n \<in> set (visited chartLabelNode). set (forInKeys (richOf n)))"
    and c: "\<forall>name \<in> set (ownKeys r). \<exists>tok.
                    setTokenTextStyle [] (getModel chartLabelNode [''rich'', name])
                      (globalTextStyleOf chartLabelNode) (optOf None) False False = Some tok
                  \<and> getProp r name = Obj tok
                  \<and> (\<forall>(k, v) \<in> set (boxValues (getModel chartLabelNode [''rich'', name]) (optOf None)).
                        getProp tok k = v)"
    by auto
  have b': "set (ownKeys r) = {''a'', ''g''}" using b by (auto simp: visited_chartLabelNode)
  then obtain tok where t1: "getProp r ''a'' = Obj tok" using c by auto
  from b' obtain tok' where t2: "getProp r ''g'' = Obj tok'" using c by auto
  show ?thesis using ex r a b' t1 t2 visited_chartLabelNode(1,2) by blast
qed

text \<open>
  C7 as stated fails twice. A node that declares \<^verbatim>\<open>rich: {}\<close> declares no token, and
  the output's \<^verbatim>\<open>rich\<close> is the empty object, not absent. And the token \<^verbatim>\<open>a\<close> of
  the label node is resolved with its box: it receives the background colour of its
  declaration.
\<close>

theorem rich_tokens_resolved_counterexample:
  "map_option (\<lambda>(ts', opt'). getProp ts' ''rich'')
      (setTextStyleCommon degToRadSample [] emptyRichNode None False) = Some (Obj [])
   \<and> visited emptyRichNode = [emptyRichNode] \<and> forInKeys (richOf emptyRichNode) = []
   \<and> map_option (\<lambda>(ts', opt'). index (index (getProp ts' ''rich'') ''a'') ''textBackgroundColor'')
        (setTextStyleCommon degToRadSample [] labelNode None False) = Some (Str ''red'')"
  by (simp add: text_eval)

end
